theory Spec2Isabelle
  imports Complex_Main
begin

section \<open>JavaScript strings\<close>

text \<open>
  A JavaScript string is a sequence of UTF-16 code units and \<open>length\<close> counts code units.
  A code unit is modelled as a natural number; \<open>js\<close> turns an ASCII literal into such a
  sequence.
\<close>

type_synonym jsstring = "nat list"

definition js :: "string \<Rightarrow> jsstring" where
  "js s = map of_char s"

text \<open>
  The characters matched by the regular expression class \<open>\s\<close> and removed by
  \<open>String.prototype.trim\<close>: TAB, LF, VT, FF, CR, space, U+00A0, U+1680, U+2000..U+200A,
  U+2028, U+2029, U+202F, U+205F, U+3000 and U+FEFF.
\<close>

definition is_space :: "nat \<Rightarrow> bool" where
  "is_space c \<longleftrightarrow>
     c = 9 \<or> c = 10 \<or> c = 11 \<or> c = 12 \<or> c = 13 \<or> c = 32 \<or> c = 160 \<or> c = 5760 \<or>
     (8192 \<le> c \<and> c \<le> 8202) \<or> c = 8232 \<or> c = 8233 \<or> c = 8239 \<or> c = 8287 \<or>
     c = 12288 \<or> c = 65279"

text \<open>\<open>/[A-Z]/\<close> and \<open>/[a-zA-Z]/\<close>.\<close>

definition is_upper :: "nat \<Rightarrow> bool" where
  "is_upper c \<longleftrightarrow> 65 \<le> c \<and> c \<le> 90"

definition is_letter :: "nat \<Rightarrow> bool" where
  "is_letter c \<longleftrightarrow> (65 \<le> c \<and> c \<le> 90) \<or> (97 \<le> c \<and> c \<le> 122)"

definition trim :: "jsstring \<Rightarrow> jsstring" where
  "trim s = rev (dropWhile is_space (rev (dropWhile is_space s)))"

text \<open>
  \<open>s.substring(a, b)\<close> for non-negative arguments: both are clamped to the length and
  swapped when \<open>a > b\<close>. \<open>s.substring(a)\<close> is \<open>drop a s\<close>.
\<close>

definition substring :: "jsstring \<Rightarrow> nat \<Rightarrow> nat \<Rightarrow> jsstring" where
  "substring s a b =
     (let a' = min a (length s); b' = min b (length s)
      in take (max a' b' - min a' b') (drop (min a' b') s))"

definition starts_with :: "jsstring \<Rightarrow> jsstring \<Rightarrow> bool" where
  "starts_with s p \<longleftrightarrow> take (length p) s = p"

text \<open>\<open>s.indexOf(p)\<close>; \<open>None\<close> stands for the result \<open>-1\<close>.\<close>

fun indexOf_from :: "nat \<Rightarrow> jsstring \<Rightarrow> jsstring \<Rightarrow> nat option" where
  "indexOf_from i [] p = (if p = [] then Some i else None)"
| "indexOf_from i (c # cs) p =
     (if starts_with (c # cs) p then Some i else indexOf_from (Suc i) cs p)"

definition indexOf :: "jsstring \<Rightarrow> jsstring \<Rightarrow> nat option" where
  "indexOf s p = indexOf_from 0 s p"

text \<open>
  \<open>s.lastIndexOf(p, fromIndex)\<close>: the greatest index not above \<open>fromIndex\<close> at which
  \<open>p\<close> occurs; \<open>None\<close> stands for \<open>-1\<close>.
\<close>

fun lastIndexOf_down :: "jsstring \<Rightarrow> jsstring \<Rightarrow> nat \<Rightarrow> nat option" where
  "lastIndexOf_down s p 0 = (if starts_with s p then Some 0 else None)"
| "lastIndexOf_down s p (Suc i) =
     (if starts_with (drop (Suc i) s) p then Some (Suc i) else lastIndexOf_down s p i)"

definition lastIndexOf :: "jsstring \<Rightarrow> jsstring \<Rightarrow> nat \<Rightarrow> nat option" where
  "lastIndexOf s p fromIndex = lastIndexOf_down s p (min fromIndex (length s))"

text \<open>\<open>s.replace(/\r\n/g, '\n')\<close>\<close>

fun replace_crlf :: "jsstring \<Rightarrow> jsstring" where
  "replace_crlf [] = []"
| "replace_crlf [c] = [c]"
| "replace_crlf (c # d # cs) =
     (if c = 13 \<and> d = 10 then 10 # replace_crlf cs else c # replace_crlf (d # cs))"

text \<open>\<open>s.replace(/\r/g, '\n')\<close>\<close>

definition replace_cr :: "jsstring \<Rightarrow> jsstring" where
  "replace_cr s = map (\<lambda>c. if c = 13 then 10 else c) s"

text \<open>\<open>s.replace(/[ \t]+/g, ' ')\<close>\<close>

definition is_blank :: "nat \<Rightarrow> bool" where
  "is_blank c \<longleftrightarrow> c = 32 \<or> c = 9"

function collapse_blanks :: "jsstring \<Rightarrow> jsstring" where
  "collapse_blanks [] = []"
| "collapse_blanks (c # cs) =
     (if is_blank c then 32 # collapse_blanks (dropWhile is_blank cs)
      else c # collapse_blanks cs)"
  by pat_completeness auto
termination
  by (relation "measure length") (auto intro: le_imp_less_Suc length_dropWhile_le)

text \<open>\<open>s.replace(/\n{3,}/g, '\n\n')\<close>\<close>

function collapse_newlines :: "jsstring \<Rightarrow> jsstring" where
  "collapse_newlines [] = []"
| "collapse_newlines (c # cs) =
     (if c = 10 \<and> 2 \<le> length (takeWhile (\<lambda>d. d = 10) cs)
      then 10 # 10 # collapse_newlines (dropWhile (\<lambda>d. d = 10) cs)
      else c # collapse_newlines cs)"
  by pat_completeness auto
termination
  by (relation "measure length") (auto intro: le_imp_less_Suc length_dropWhile_le)

text \<open>
  \<open>s.split(re)\<close> for a regular expression without capture groups that matches no empty
  string. The matcher \<open>m\<close> is applied to the rest of the string at each position and
  returns the length of the leftmost-position match there, if any.
\<close>

fun split_re :: "(jsstring \<Rightarrow> nat option) \<Rightarrow> jsstring \<Rightarrow> jsstring \<Rightarrow> jsstring list" where
  "split_re m cur [] = [cur]"
| "split_re m cur (c # cs) =
     (case m (c # cs) of
        Some (Suc n) \<Rightarrow> cur # split_re m [] (drop n cs)
      | _ \<Rightarrow> split_re m (cur @ [c]) cs)"

text \<open>
  \<open>/\n\s*\n/\<close> at the head of a string: a newline, then the longest run of whitespace that
  still ends before a newline, then that newline.
\<close>

definition last_newline :: "jsstring \<Rightarrow> nat option" where
  "last_newline ws = lastIndexOf_down ws [10] (length ws)"

definition match_paragraph_break :: "jsstring \<Rightarrow> nat option" where
  "match_paragraph_break s =
     (case s of
        [] \<Rightarrow> None
      | c # cs \<Rightarrow>
          if c = 10 then
            (case last_newline (takeWhile is_space cs) of
               None \<Rightarrow> None
             | Some k \<Rightarrow> Some (k + 2))
          else None)"

text \<open>\<open>/\s+/\<close> at the head of a string.\<close>

definition match_spaces :: "jsstring \<Rightarrow> nat option" where
  "match_spaces s =
     (case takeWhile is_space s of [] \<Rightarrow> None | w # ws \<Rightarrow> Some (Suc (length ws)))"

text \<open>\<open>s.search(/[.!?]\s+/)\<close>; \<open>None\<close> stands for \<open>-1\<close>.\<close>

definition is_terminator :: "nat \<Rightarrow> bool" where
  "is_terminator c \<longleftrightarrow> c = 46 \<or> c = 33 \<or> c = 63"

fun search_sentence_from :: "nat \<Rightarrow> jsstring \<Rightarrow> nat option" where
  "search_sentence_from i [] = None"
| "search_sentence_from i [c] = None"
| "search_sentence_from i (c # d # cs) =
     (if is_terminator c \<and> is_space d then Some i
      else search_sentence_from (Suc i) (d # cs))"

definition search_sentence :: "jsstring \<Rightarrow> nat option" where
  "search_sentence s = search_sentence_from 0 s"

section \<open>TextChunker (utils/textChunking.ts)\<close>

datatype chunk_type = Paragraph | Sentence | Arbitrary

record chunk_metadata =
  word_count :: nat
  character_count :: nat
  paragraph_index :: "int option"
  chunk_type :: chunk_type

record TextChunk =
  content :: jsstring
  chunk_index :: nat
  start_position :: nat
  end_position :: nat
  content_tokens :: nat
  metadata :: chunk_metadata

text \<open>
  \<open>ChunkOptions\<close>: every field may be absent. Sizes are non-negative integer numbers of
  characters.
\<close>

record ChunkOptions =
  maxChunkSize :: "nat option"
  chunkOverlap :: "nat option"
  preserveSentences :: "bool option"
  preserveParagraphs :: "bool option"
  minChunkSize :: "nat option"
  separators :: "jsstring list option"

text \<open>\<open>Required<ChunkOptions>\<close>\<close>

record RequiredChunkOptions =
  r_maxChunkSize :: nat
  r_chunkOverlap :: nat
  r_preserveSentences :: bool
  r_preserveParagraphs :: bool
  r_minChunkSize :: nat
  r_separators :: "jsstring list"

definition defaultOptions :: RequiredChunkOptions where
  "defaultOptions =
     \<lparr> r_maxChunkSize = 1000, r_chunkOverlap = 100, r_preserveSentences = True,
       r_preserveParagraphs = True, r_minChunkSize = 100,
       r_separators = [js [CHR 0x0A, CHR 0x0A], js [CHR 0x0A], js ''. '', js ''! '',
                       js ''? '', js ''; '', js '', '', js '' ''] \<rparr>"

text \<open>The object spread \<open>{ ...defaults, ...options }\<close>: a present field overrides.\<close>

definition spread_options :: "RequiredChunkOptions \<Rightarrow> ChunkOptions \<Rightarrow> RequiredChunkOptions" where
  "spread_options d opt =
     \<lparr> r_maxChunkSize = (case maxChunkSize opt of None \<Rightarrow> r_maxChunkSize d | Some v \<Rightarrow> v),
       r_chunkOverlap = (case chunkOverlap opt of None \<Rightarrow> r_chunkOverlap d | Some v \<Rightarrow> v),
       r_preserveSentences =
         (case preserveSentences opt of None \<Rightarrow> r_preserveSentences d | Some v \<Rightarrow> v),
       r_preserveParagraphs =
         (case preserveParagraphs opt of None \<Rightarrow> r_preserveParagraphs d | Some v \<Rightarrow> v),
       r_minChunkSize = (case minChunkSize opt of None \<Rightarrow> r_minChunkSize d | Some v \<Rightarrow> v),
       r_separators = (case separators opt of None \<Rightarrow> r_separators d | Some v \<Rightarrow> v) \<rparr>"

definition preprocessText :: "jsstring \<Rightarrow> jsstring" where
  "preprocessText text =
     trim (collapse_newlines (collapse_blanks (replace_cr (replace_crlf text))))"

text \<open>\<open>Math.ceil(text.length / 4)\<close>\<close>

definition estimateTokens :: "jsstring \<Rightarrow> nat" where
  "estimateTokens text = (length text + 3) div 4"

definition countWords :: "jsstring \<Rightarrow> nat" where
  "countWords text =
     length (filter (\<lambda>word. length word > 0) (split_re match_spaces [] (trim text)))"

definition createChunk ::
  "jsstring \<Rightarrow> nat \<Rightarrow> nat \<Rightarrow> nat \<Rightarrow> chunk_type \<Rightarrow> int option \<Rightarrow> TextChunk" where
  "createChunk c index start end type extra =
     \<lparr> content = c, chunk_index = index, start_position = start, end_position = end,
       content_tokens = 0,
       metadata = \<lparr> word_count = countWords c, character_count = length c,
                    paragraph_index = extra, chunk_type = type \<rparr> \<rparr>"

definition findTextPosition :: "jsstring \<Rightarrow> jsstring \<Rightarrow> nat" where
  "findTextPosition fullText searchText =
     (case indexOf fullText (substring searchText 0 (min 50 (length searchText))) of
        None \<Rightarrow> 0
      | Some index \<Rightarrow> index)"

definition getOverlapText :: "jsstring \<Rightarrow> nat \<Rightarrow> jsstring" where
  "getOverlapText text overlapSize =
     (if length text \<le> overlapSize then text
      else
        let overlap = drop (length text - overlapSize) text;
            at_word = (case indexOf overlap [32] of
                         Some spaceIndex \<Rightarrow> drop (spaceIndex + 1) overlap
                       | None \<Rightarrow> overlap)
        in case search_sentence overlap of
             Some sentenceStart \<Rightarrow>
               if 2 * sentenceStart < overlapSize then drop (sentenceStart + 2) overlap
               else at_word
           | None \<Rightarrow> at_word)"

text \<open>
  The \<open>for\<close> loop of \<open>chunkByParagraphs\<close>; the state is
  \<open>(chunks, currentChunk, currentStart, paragraphIndex)\<close>.
\<close>

fun chunkByParagraphs_loop ::
  "jsstring \<Rightarrow> RequiredChunkOptions \<Rightarrow> jsstring list \<Rightarrow>
   TextChunk list \<times> jsstring \<times> nat \<times> int \<Rightarrow> TextChunk list \<times> jsstring \<times> nat \<times> int" where
  "chunkByParagraphs_loop text options [] st = st"
| "chunkByParagraphs_loop text options (p # ps) (chunks, currentChunk, currentStart, paragraphIndex) =
     (let trimmedParagraph = trim p in
      if length currentChunk > 0 \<and>
         length currentChunk + length trimmedParagraph + 2 > r_maxChunkSize options
      then
        let chunks' = chunks @ [createChunk (trim currentChunk) (length chunks) currentStart
                                  (currentStart + length currentChunk) Paragraph
                                  (Some (paragraphIndex - 1))];
            overlap = getOverlapText currentChunk (r_chunkOverlap options);
            currentChunk' = (if overlap \<noteq> [] then overlap @ [10, 10] @ trimmedParagraph
                             else trimmedParagraph)
        in chunkByParagraphs_loop text options ps
             (chunks', currentChunk', findTextPosition text trimmedParagraph, paragraphIndex + 1)
      else if length currentChunk > 0 then
        chunkByParagraphs_loop text options ps
          (chunks, currentChunk @ [10, 10] @ trimmedParagraph, currentStart, paragraphIndex + 1)
      else
        chunkByParagraphs_loop text options ps
          (chunks, trimmedParagraph, findTextPosition text trimmedParagraph, paragraphIndex + 1))"

definition chunkByParagraphs :: "jsstring \<Rightarrow> RequiredChunkOptions \<Rightarrow> TextChunk list" where
  "chunkByParagraphs text options =
     (let paragraphs = filter (\<lambda>p. length (trim p) > 0) (split_re match_paragraph_break [] text)
      in case chunkByParagraphs_loop text options paragraphs ([], [], 0, 0) of
           (chunks, currentChunk, currentStart, paragraphIndex) \<Rightarrow>
             if length (trim currentChunk) \<ge> r_minChunkSize options
             then chunks @ [createChunk (trim currentChunk) (length chunks) currentStart
                              (currentStart + length currentChunk) Paragraph
                              (Some (paragraphIndex - 1))]
             else chunks)"

definition abbreviations :: "jsstring list" where
  "abbreviations =
     [js ''Dr'', js ''Mr'', js ''Mrs'', js ''Ms'', js ''Prof'', js ''Sr'', js ''Jr'', js ''vs'',
      js ''etc'', js ''Inc'', js ''Ltd'', js ''Corp'']"

text \<open>
  \<open>getWordBefore\<close>: skip whitespace leftwards from \<open>position - 1\<close>, then take the letters
  before it.
\<close>

definition getWordBefore :: "jsstring \<Rightarrow> nat \<Rightarrow> jsstring" where
  "getWordBefore text position =
     rev (takeWhile is_letter (dropWhile is_space (rev (take position text))))"

definition isSentenceEnd :: "jsstring \<Rightarrow> nat \<Rightarrow> jsstring list \<Rightarrow> bool" where
  "isSentenceEnd text position abbrevs =
     (let nextNonSpace = position + 1 + length (takeWhile is_space (drop (position + 1) text))
      in if nextNonSpace \<ge> length text then True
         else if \<not> is_upper (text ! nextNonSpace) then False
         else if getWordBefore text position \<in> set abbrevs then False
         else True)"

text \<open>
  The \<open>while\<close> loop of \<open>splitIntoSentences\<close> over the index \<open>i\<close>; the state is
  \<open>(sentences, current)\<close>.
\<close>

function splitIntoSentences_loop ::
  "jsstring \<Rightarrow> nat \<Rightarrow> jsstring list \<Rightarrow> jsstring \<Rightarrow> jsstring list \<times> jsstring" where
  "splitIntoSentences_loop text i sentences current =
     (if i < length text then
        let char = text ! i; current' = current @ [char] in
        if is_terminator char \<and> isSentenceEnd text i abbreviations
        then splitIntoSentences_loop text (i + 1) (sentences @ [trim current']) []
        else splitIntoSentences_loop text (i + 1) sentences current'
      else (sentences, current))"
  by pat_completeness auto
termination
  by (relation "measure (\<lambda>(text, i, sentences, current). length text - i)") auto

declare splitIntoSentences_loop.simps [simp del]

definition splitIntoSentences :: "jsstring \<Rightarrow> jsstring list" where
  "splitIntoSentences text =
     (case splitIntoSentences_loop text 0 [] [] of
        (sentences, current) \<Rightarrow>
          filter (\<lambda>s. length s > 0)
            (if trim current \<noteq> [] then sentences @ [trim current] else sentences))"

text \<open>
  The \<open>for\<close> loop of \<open>chunkBySentences\<close>; the state is
  \<open>(chunks, currentChunk, currentStart)\<close>.
\<close>

fun chunkBySentences_loop ::
  "jsstring \<Rightarrow> RequiredChunkOptions \<Rightarrow> jsstring list \<Rightarrow>
   TextChunk list \<times> jsstring \<times> nat \<Rightarrow> TextChunk list \<times> jsstring \<times> nat" where
  "chunkBySentences_loop text options [] st = st"
| "chunkBySentences_loop text options (s # ss) (chunks, currentChunk, currentStart) =
     (let trimmedSentence = trim s in
      if length currentChunk > 0 \<and>
         length currentChunk + length trimmedSentence + 1 > r_maxChunkSize options
      then
        let chunks' = chunks @ [createChunk (trim currentChunk) (length chunks) currentStart
                                  (currentStart + length currentChunk) Sentence None];
            overlap = getOverlapText currentChunk (r_chunkOverlap options);
            currentChunk' = (if overlap \<noteq> [] then overlap @ [32] @ trimmedSentence
                             else trimmedSentence)
        in chunkBySentences_loop text options ss
             (chunks', currentChunk', findTextPosition text trimmedSentence)
      else if length currentChunk > 0 then
        chunkBySentences_loop text options ss
          (chunks, currentChunk @ [32] @ trimmedSentence, currentStart)
      else
        chunkBySentences_loop text options ss
          (chunks, trimmedSentence, findTextPosition text trimmedSentence))"

definition chunkBySentences :: "jsstring \<Rightarrow> RequiredChunkOptions \<Rightarrow> TextChunk list" where
  "chunkBySentences text options =
     (case chunkBySentences_loop text options (splitIntoSentences text) ([], [], 0) of
        (chunks, currentChunk, currentStart) \<Rightarrow>
          if length (trim currentChunk) \<ge> r_minChunkSize options
          then chunks @ [createChunk (trim currentChunk) (length chunks) currentStart
                           (currentStart + length currentChunk) Sentence None]
          else chunks)"

fun findBestBreakpoint :: "jsstring \<Rightarrow> nat \<Rightarrow> nat \<Rightarrow> jsstring list \<Rightarrow> nat" where
  "findBestBreakpoint text start maxEnd [] = maxEnd"
| "findBestBreakpoint text start maxEnd (separator # rest) =
     (case lastIndexOf text separator maxEnd of
        Some lastIndex \<Rightarrow>
          if lastIndex > start then lastIndex + length separator
          else findBestBreakpoint text start maxEnd rest
      | None \<Rightarrow> findBestBreakpoint text start maxEnd rest)"

text \<open>
  One pass of the \<open>while\<close> loop of \<open>chunkBySize\<close> computes the end of the chunk starting at
  \<open>position\<close>; the next position is \<open>Math.max(chunkEnd - chunkOverlap, position + 1)\<close>,
  computed over the integers.
\<close>

definition chunkBySize_end :: "jsstring \<Rightarrow> RequiredChunkOptions \<Rightarrow> nat \<Rightarrow> nat" where
  "chunkBySize_end text options position =
     (let chunkEnd = min (position + r_maxChunkSize options) (length text)
      in if chunkEnd < length text then
           let boundary = findBestBreakpoint text position chunkEnd (r_separators options)
           in if boundary > position + r_minChunkSize options then boundary else chunkEnd
         else chunkEnd)"

definition chunkBySize_next :: "RequiredChunkOptions \<Rightarrow> nat \<Rightarrow> nat \<Rightarrow> nat" where
  "chunkBySize_next options chunkEnd position =
     nat (max (int chunkEnd - int (r_chunkOverlap options)) (int position + 1))"

function chunkBySize_loop ::
  "jsstring \<Rightarrow> RequiredChunkOptions \<Rightarrow> nat \<Rightarrow> TextChunk list \<Rightarrow> TextChunk list" where
  "chunkBySize_loop text options position chunks =
     (if position < length text then
        let chunkEnd = chunkBySize_end text options position;
            chunkContent = trim (substring text position chunkEnd);
            chunks' = (if length chunkContent \<ge> r_minChunkSize options
                       then chunks @ [createChunk chunkContent (length chunks) position chunkEnd
                                        Arbitrary None]
                       else chunks)
        in chunkBySize_loop text options (chunkBySize_next options chunkEnd position) chunks'
      else chunks)"
  by pat_completeness auto
termination
  by (relation "measure (\<lambda>(text, options, position, chunks). length text - position)")
     (auto simp: chunkBySize_next_def)

declare chunkBySize_loop.simps [simp del]

definition chunkBySize :: "jsstring \<Rightarrow> RequiredChunkOptions \<Rightarrow> TextChunk list" where
  "chunkBySize text options = chunkBySize_loop text options 0 []"

text \<open>\<open>chunks.map((chunk, index) => ...)\<close>: a map that also sees the position.\<close>

definition map_index :: "('a \<Rightarrow> nat \<Rightarrow> 'b) \<Rightarrow> 'a list \<Rightarrow> 'b list" where
  "map_index f xs = map (\<lambda>(x, i). f x i) (zip xs [0..<length xs])"

definition postProcessChunks :: "TextChunk list \<Rightarrow> RequiredChunkOptions \<Rightarrow> TextChunk list" where
  "postProcessChunks chunks options =
     map_index (\<lambda>chunk index. chunk\<lparr>chunk_index := index, content := trim (content chunk)\<rparr>)
       (filter (\<lambda>chunk. length (trim (content chunk)) \<ge> r_minChunkSize options) chunks)"

definition chunkText :: "jsstring \<Rightarrow> ChunkOptions \<Rightarrow> TextChunk list" where
  "chunkText text options =
     (let opts = spread_options defaultOptions options in
      if text = [] \<or> length (trim text) = 0 then []
      else
        let cleanedText = preprocessText text;
            chunks = (if r_preserveParagraphs opts then chunkByParagraphs cleanedText opts
                      else if r_preserveSentences opts then chunkBySentences cleanedText opts
                      else chunkBySize cleanedText opts);
            chunks' = postProcessChunks chunks opts
        in map_index (\<lambda>chunk index. chunk\<lparr>chunk_index := index,
                                            content_tokens := estimateTokens (content chunk)\<rparr>)
             chunks')"

section \<open>EmbeddingService (services/EmbeddingService.ts)\<close>

text \<open>
  An embedding is a list of numbers. Numbers that the code computes with (costs, similarity
  scores) are modelled as exact rationals; token counts, sizes and delays in milliseconds as
  natural numbers. In the code these numbers are IEEE doubles, so a cost or a score of the
  model is the exact value that the code's double approximates; the properties below use
  a cost only through \<open>calculateCost\<close> and through whether it is zero. The elapsed-time
  fields (\<open>processingTime\<close>, \<open>processing_time_ms\<close>) and the log output are left out.
\<close>

type_synonym vector = "rat list"

text \<open>
  The embedding provider (\<open>openai.embeddings.create\<close>) is outside the repository. It is a
  parameter: given how many calls were made before, the model name and the inputs, it
  either throws (\<open>Inl\<close> the error message) or answers with \<open>response.data\<close> (one embedding
  per item) and \<open>response.usage.total_tokens\<close>.
\<close>

record embedding_response =
  data :: "vector list"
  total_tokens :: nat

type_synonym provider = "nat \<Rightarrow> string \<Rightarrow> jsstring list \<Rightarrow> string + embedding_response"

text \<open>What the service does to the outside world: provider calls and \<open>delay(ms)\<close>.\<close>

datatype event = ProviderCall string "jsstring list" | Delay nat

fun is_call :: "event \<Rightarrow> bool" where
  "is_call (ProviderCall m xs) = True"
| "is_call (Delay ms) = False"

definition n_calls :: "event list \<Rightarrow> nat" where
  "n_calls tr = length (filter is_call tr)"

definition call_provider ::
  "provider \<Rightarrow> string \<Rightarrow> jsstring list \<Rightarrow> event list \<Rightarrow>
   (string + embedding_response) \<times> event list" where
  "call_provider P model inputs tr = (P (n_calls tr) model inputs, tr @ [ProviderCall model inputs])"

record EmbeddingResult =
  embedding :: vector
  tokens :: nat
  index :: nat

record BatchEmbeddingResult =
  embeddings :: "EmbeddingResult list"
  totalTokens :: nat
  cost :: rat

record EmbeddingOptions =
  eo_batchSize :: "nat option"
  eo_model :: "string option"
  eo_retryAttempts :: "nat option"
  eo_retryDelay :: "nat option"

definition defaultModel :: string where
  "defaultModel = ''text-embedding-ada-002''"

definition maxBatchSize :: nat where
  "maxBatchSize = 100"

definition maxInputLength :: nat where
  "maxInputLength = 8191"

definition costPerToken :: rat where
  "costPerToken = 1 / 10000000"

definition calculateCost :: "nat \<Rightarrow> rat" where
  "calculateCost toks = of_nat toks * costPerToken"

definition validateAndTruncateText :: "jsstring \<Rightarrow> string + jsstring" where
  "validateAndTruncateText text =
     (if text = [] \<or> length (trim text) = 0 then Inl ''Text content cannot be empty''
      else
        let estimatedTokens = (length text + 3) div 4 in
        if estimatedTokens \<le> maxInputLength then Inr (trim text)
        else Inr (trim (substring text 0 (maxInputLength * 4))))"

text \<open>A chunk handed to the service is \<open>{ content, chunk_index }\<close>.\<close>

type_synonym chunk_input = "jsstring \<times> nat"

text \<open>
  \<open>validateChunks\<close> keeps the chunks with non-blank content, so that
  \<open>validateAndTruncateText\<close> cannot throw on them.
\<close>

definition validateChunks :: "chunk_input list \<Rightarrow> chunk_input list" where
  "validateChunks chunks =
     map (\<lambda>(c, i). (case validateAndTruncateText c of Inr t \<Rightarrow> t | Inl e \<Rightarrow> c, i))
       (filter (\<lambda>(c, i). c \<noteq> [] \<and> length (trim c) > 0) chunks)"

text \<open>\<open>array.map(f)\<close> where \<open>f\<close> may throw: the first exception ends the map.\<close>

fun map_throwing :: "('a \<Rightarrow> string + 'b) \<Rightarrow> 'a list \<Rightarrow> string + 'b list" where
  "map_throwing f [] = Inr []"
| "map_throwing f (x # xs) =
     (case f x of
        Inl e \<Rightarrow> Inl e
      | Inr y \<Rightarrow> (case map_throwing f xs of Inl e \<Rightarrow> Inl e | Inr ys \<Rightarrow> Inr (y # ys)))"

text \<open>\<open>Math.round(a / b)\<close> for natural numbers \<open>a\<close> and \<open>b > 0\<close>.\<close>

definition round_div :: "nat \<Rightarrow> nat \<Rightarrow> nat" where
  "round_div a b = (2 * a + b) div (2 * b)"

text \<open>
  The body of the \<open>try\<close> block in \<open>processBatch\<close>: one attempt. Reading
  \<open>chunks[index].chunk_index\<close> for an item of \<open>response.data\<close> beyond the batch throws a
  \<open>TypeError\<close>.
\<close>

definition processBatch_attempt ::
  "provider \<Rightarrow> chunk_input list \<Rightarrow> string \<Rightarrow> event list \<Rightarrow>
   (string + (EmbeddingResult list \<times> nat)) \<times> event list" where
  "processBatch_attempt P chunks model tr =
     (case map_throwing (\<lambda>(c, i). validateAndTruncateText c) chunks of
        Inl e \<Rightarrow> (Inl e, tr)
      | Inr inputs \<Rightarrow>
          (case call_provider P model inputs tr of
             (Inl e, tr') \<Rightarrow> (Inl e, tr')
           | (Inr response, tr') \<Rightarrow>
               if length (data response) > length chunks
               then (Inl ''Cannot read properties of undefined (reading 'chunk_index')'', tr')
               else (Inr (map (\<lambda>(item, (c, i)).
                                  \<lparr> embedding = item,
                                    tokens = round_div (total_tokens response) (length chunks),
                                    index = i \<rparr>)
                            (zip (data response) chunks),
                          total_tokens response), tr')))"

text \<open>
  The \<open>for (attempt = 1; attempt <= retryAttempts; attempt++)\<close> loop of \<open>processBatch\<close>.
  \<open>lastError\<close> starts as \<open>null\<close> (\<open>None\<close>) and is thrown after the loop.
\<close>

function processBatch_loop ::
  "provider \<Rightarrow> chunk_input list \<Rightarrow> string \<Rightarrow> nat \<Rightarrow> nat \<Rightarrow> nat \<Rightarrow> string option \<Rightarrow>
   event list \<Rightarrow> (string option + (EmbeddingResult list \<times> nat)) \<times> event list" where
  "processBatch_loop P chunks model retryAttempts retryDelay attempt lastError tr =
     (if attempt \<le> retryAttempts then
        (case processBatch_attempt P chunks model tr of
           (Inr r, tr') \<Rightarrow> (Inr r, tr')
         | (Inl e, tr') \<Rightarrow>
             processBatch_loop P chunks model retryAttempts retryDelay (attempt + 1) (Some e)
               (if attempt < retryAttempts then tr' @ [Delay (retryDelay * attempt)] else tr'))
      else (Inl lastError, tr))"
  by pat_completeness auto
termination
  by (relation "measure (\<lambda>(P, chunks, model, retryAttempts, retryDelay, attempt, lastError, tr).
                           Suc retryAttempts - attempt)") auto

declare processBatch_loop.simps [simp del]

definition processBatch ::
  "provider \<Rightarrow> chunk_input list \<Rightarrow> string \<Rightarrow> nat \<Rightarrow> nat \<Rightarrow> event list \<Rightarrow>
   (string option + (EmbeddingResult list \<times> nat)) \<times> event list" where
  "processBatch P chunks model retryAttempts retryDelay tr =
     processBatch_loop P chunks model retryAttempts retryDelay 1 None tr"

text \<open>\<open>error instanceof Error ? error.message : String(error)\<close>\<close>

definition error_message :: "string option \<Rightarrow> string" where
  "error_message e = (case e of None \<Rightarrow> ''null'' | Some m \<Rightarrow> m)"

text \<open>
  The \<open>for (i = 0; i < validChunks.length; i += actualBatchSize)\<close> loop of
  \<open>generateEmbeddings\<close>, with the state \<open>(i, allEmbeddings, totalTokens)\<close>. With a batch
  size of zero the index never advances, so the loop need not end: \<open>None\<close> is "does not
  return".
\<close>

partial_function (option) generateEmbeddings_loop ::
  "provider \<Rightarrow> chunk_input list \<Rightarrow> nat \<Rightarrow> string \<Rightarrow> nat \<Rightarrow> nat \<Rightarrow> nat \<Rightarrow>
   EmbeddingResult list \<Rightarrow> nat \<Rightarrow> event list \<Rightarrow>
   ((string option + (EmbeddingResult list \<times> nat)) \<times> event list) option" where
  "generateEmbeddings_loop P validChunks actualBatchSize model retryAttempts retryDelay i
     allEmbeddings totalToks tr =
     (if i < length validChunks then
        (case processBatch P (take actualBatchSize (drop i validChunks)) model retryAttempts
                retryDelay tr of
           (Inl e, tr') \<Rightarrow> Some (Inl e, tr')
         | (Inr (batchEmbeddings, batchTokens), tr') \<Rightarrow>
             generateEmbeddings_loop P validChunks actualBatchSize model retryAttempts retryDelay
               (i + actualBatchSize) (allEmbeddings @ batchEmbeddings) (totalToks + batchTokens)
               (if i + actualBatchSize < length validChunks then tr' @ [Delay 100] else tr'))
      else Some (Inr (allEmbeddings, totalToks), tr))"

definition generateEmbeddings ::
  "provider \<Rightarrow> chunk_input list \<Rightarrow> EmbeddingOptions \<Rightarrow> event list \<Rightarrow>
   ((string + BatchEmbeddingResult) \<times> event list) option" where
  "generateEmbeddings P chunks options tr =
     (let batchSize = (case eo_batchSize options of None \<Rightarrow> 50 | Some v \<Rightarrow> v);
          model = (case eo_model options of None \<Rightarrow> defaultModel | Some v \<Rightarrow> v);
          retryAttempts = (case eo_retryAttempts options of None \<Rightarrow> 3 | Some v \<Rightarrow> v);
          retryDelay = (case eo_retryDelay options of None \<Rightarrow> 1000 | Some v \<Rightarrow> v);
          actualBatchSize = min batchSize maxBatchSize;
          validChunks = validateChunks chunks
      in if length validChunks = 0
         then Some (Inl ''No valid chunks provided for embedding generation'', tr)
         else
           (case generateEmbeddings_loop P validChunks actualBatchSize model retryAttempts
                   retryDelay 0 [] 0 tr of
              None \<Rightarrow> None
            | Some (Inl e, tr') \<Rightarrow>
                Some (Inl (''Embedding generation failed: '' @ error_message e), tr')
            | Some (Inr (allEmbeddings, totalToks), tr') \<Rightarrow>
                Some (Inr \<lparr> embeddings = allEmbeddings, totalTokens = totalToks,
                            cost = calculateCost totalToks \<rparr>, tr')))"

definition estimateCost :: "jsstring list \<Rightarrow> nat \<times> rat" where
  "estimateCost chunks =
     (let estimatedTokens = foldl (\<lambda>total c. total + (length c + 3) div 4) 0 chunks
      in (estimatedTokens, calculateCost estimatedTokens))"

text \<open>
  \<open>generateQueryEmbedding\<close>: one provider call with the single query string;
  \<open>response.data[0].embedding\<close> throws a \<open>TypeError\<close> when \<open>data\<close> is empty.
\<close>

definition generateQueryEmbedding ::
  "provider \<Rightarrow> jsstring \<Rightarrow> string \<Rightarrow> event list \<Rightarrow> (string + vector) \<times> event list" where
  "generateQueryEmbedding P query model tr =
     (case validateAndTruncateText query of
        Inl e \<Rightarrow> (Inl (''Query embedding generation failed: '' @ e), tr)
      | Inr validatedQuery \<Rightarrow>
          (case call_provider P model [validatedQuery] tr of
             (Inl e, tr') \<Rightarrow> (Inl (''Query embedding generation failed: '' @ e), tr')
           | (Inr response, tr') \<Rightarrow>
               (case data response of
                  [] \<Rightarrow> (Inl (''Query embedding generation failed: '' @
                              ''Cannot read properties of undefined (reading 'embedding')''), tr')
                | v # vs \<Rightarrow> (Inr v, tr'))))"

section \<open>The database (utils/database.ts)\<close>

text \<open>
  The two tables of the pipeline, each a list of rows in insertion order. Row ids are
  generated by the database; here they come from a counter. Timestamps are left out.
  Every statement is taken to succeed: connection failures are not modelled.
\<close>

datatype processing_status = pending | processing | completed | failed

record Document =
  d_id :: nat
  d_user_id :: string
  d_title :: string
  d_filename :: string
  d_file_path :: string
  d_file_type :: string
  d_file_size :: nat
  d_content_hash :: string
  d_processing_status :: processing_status
  d_chunk_count :: nat

record DocumentChunk =
  dc_id :: nat
  dc_document_id :: nat
  dc_chunk_index :: nat
  dc_content :: jsstring
  dc_content_tokens :: nat
  dc_embedding :: "vector option"
  dc_metadata :: chunk_metadata

record database =
  documents :: "Document list"
  document_chunks :: "DocumentChunk list"
  next_id :: nat

text \<open>\<open>db.insert('documents', data)\<close>: the row gets a fresh id and is returned.\<close>

definition insert_document :: "Document \<Rightarrow> database \<Rightarrow> Document \<times> database" where
  "insert_document row db =
     (let r = row\<lparr>d_id := next_id db\<rparr>
      in (r, db\<lparr>documents := documents db @ [r], next_id := Suc (next_id db)\<rparr>))"

text \<open>\<open>db.update('documents', id, data)\<close>: \<open>UPDATE documents SET ... WHERE id = $1\<close>\<close>

definition update_document :: "nat \<Rightarrow> (Document \<Rightarrow> Document) \<Rightarrow> database \<Rightarrow> database" where
  "update_document i f db =
     db\<lparr>documents := map (\<lambda>d. if d_id d = i then f d else d) (documents db)\<rparr>"

text \<open>\<open>db.update('document_chunks', id, data)\<close>\<close>

definition update_chunk :: "nat \<Rightarrow> (DocumentChunk \<Rightarrow> DocumentChunk) \<Rightarrow> database \<Rightarrow> database" where
  "update_chunk i f db =
     db\<lparr>document_chunks := map (\<lambda>c. if dc_id c = i then f c else c) (document_chunks db)\<rparr>"

text \<open>\<open>db.batchInsert('document_chunks', rows)\<close>: the rows get consecutive fresh ids.\<close>

definition batchInsert_chunks :: "DocumentChunk list \<Rightarrow> database \<Rightarrow> database" where
  "batchInsert_chunks rows db =
     db\<lparr>document_chunks :=
          document_chunks db @ map_index (\<lambda>r k. r\<lparr>dc_id := next_id db + k\<rparr>) rows,
        next_id := next_id db + length rows\<rparr>"

text \<open>\<open>db.findById('documents', id)\<close>\<close>

definition findById :: "database \<Rightarrow> nat \<Rightarrow> Document option" where
  "findById db i = find (\<lambda>d. d_id d = i) (documents db)"

text \<open>
  \<open>SELECT * FROM document_chunks WHERE document_id = $1 ORDER BY chunk_index\<close>; rows
  with equal keys stay in table order.
\<close>

definition getDocumentChunks :: "database \<Rightarrow> nat \<Rightarrow> DocumentChunk list" where
  "getDocumentChunks db documentId =
     sort_key dc_chunk_index (filter (\<lambda>c. dc_document_id c = documentId) (document_chunks db))"

section \<open>DocumentService (services/DocumentService.ts)\<close>

record ExtractionOptions =
  xo_preserveFormatting :: "bool option"
  xo_maxLength :: "nat option"

record ExtractionResult =
  er_content :: jsstring
  er_wordCount :: nat

text \<open>
  What lies outside the modelled code is a parameter: the file system, the SHA-256 digest,
  \<open>path.parse(name).name\<close>, the text extractor with its PDF and DOCX libraries, the
  embedding provider, \<open>String.prototype.toLowerCase\<close>, and the operators that the SQL of
  the search service uses: pgvector's cosine distance \<open><=>\<close> and PostgreSQL's full-text
  match \<open>@@\<close> and rank \<open>ts_rank_cd\<close> against \<open>to_tsquery('english', q)\<close>.
\<close>

record env =
  readFile :: "string \<Rightarrow> string + nat list"
  sha256_hex :: "nat list \<Rightarrow> string"
  path_name :: "string \<Rightarrow> string"
  extractText :: "string \<Rightarrow> string \<Rightarrow> ExtractionOptions \<Rightarrow> string + ExtractionResult"
  embedding_provider :: provider
  toLowerCase :: "jsstring \<Rightarrow> jsstring"
  cosine_distance :: "vector \<Rightarrow> vector \<Rightarrow> rat"
  ts_match :: "jsstring \<Rightarrow> jsstring \<Rightarrow> bool"
  ts_rank_cd :: "jsstring \<Rightarrow> jsstring \<Rightarrow> rat"

text \<open>The \<open>chunkOptions\<close> of \<open>DocumentProcessingOptions\<close> have these four fields only.\<close>

record ProcessingChunkOptions =
  pco_maxChunkSize :: "nat option"
  pco_chunkOverlap :: "nat option"
  pco_preserveSentences :: "bool option"
  pco_preserveParagraphs :: "bool option"

record DocumentProcessingOptions =
  po_generateEmbeddings :: "bool option"
  po_chunkOptions :: "ProcessingChunkOptions option"
  po_extractionOptions :: "ExtractionOptions option"

record DocumentProcessingResult =
  res_document :: "Document option"
  res_chunks :: "DocumentChunk list option"
  res_extraction_result :: "(nat \<times> nat) option"
  res_embedding_result :: "BatchEmbeddingResult option"
  res_success :: bool
  res_error :: "string option"

definition calculateFileHash :: "env \<Rightarrow> string \<Rightarrow> string + string" where
  "calculateFileHash E filePath =
     (case readFile E filePath of Inl e \<Rightarrow> Inl e | Inr buffer \<Rightarrow> Inr (sha256_hex E buffer))"

text \<open>
  \<open>SELECT * FROM documents WHERE content_hash = $1 AND user_id = $2\<close>, then the first row
  if there is one.
\<close>

definition findDocumentByHash :: "database \<Rightarrow> string \<Rightarrow> string \<Rightarrow> Document option" where
  "findDocumentByHash db hash userId =
     (case filter (\<lambda>d. d_content_hash d = hash \<and> d_user_id d = userId) (documents db) of
        [] \<Rightarrow> None
      | d # ds \<Rightarrow> Some d)"

definition createDocumentRecord ::
  "env \<Rightarrow> string \<Rightarrow> string \<Rightarrow> string \<Rightarrow> string \<Rightarrow> nat \<Rightarrow> string \<Rightarrow> string option \<Rightarrow>
   database \<Rightarrow> Document \<times> database" where
  "createDocumentRecord E filePath originalName userId mimeType fileSize contentHash title db =
     (let documentTitle = (case title of
                             None \<Rightarrow> path_name E originalName
                           | Some t \<Rightarrow> if t = [] then path_name E originalName else t)
      in insert_document
           \<lparr> d_id = 0, d_user_id = userId, d_title = documentTitle, d_filename = originalName,
             d_file_path = filePath, d_file_type = mimeType, d_file_size = fileSize,
             d_content_hash = contentHash, d_processing_status = pending,
             d_chunk_count = 0 \<rparr> db)"

definition updateDocumentStatus :: "nat \<Rightarrow> processing_status \<Rightarrow> database \<Rightarrow> database" where
  "updateDocumentStatus documentId status db =
     update_document documentId (\<lambda>d. d\<lparr>d_processing_status := status\<rparr>) db"

definition updateDocumentProcessing ::
  "nat \<Rightarrow> processing_status \<Rightarrow> nat \<Rightarrow> database \<Rightarrow> database" where
  "updateDocumentProcessing documentId status n db =
     update_document documentId (\<lambda>d. d\<lparr>d_processing_status := status, d_chunk_count := n\<rparr>) db"

definition storeChunksWithoutEmbeddings :: "nat \<Rightarrow> TextChunk list \<Rightarrow> database \<Rightarrow> database" where
  "storeChunksWithoutEmbeddings documentId chunks db =
     batchInsert_chunks
       (map (\<lambda>chunk. \<lparr> dc_id = 0, dc_document_id = documentId,
                        dc_chunk_index = chunk_index chunk, dc_content = content chunk,
                        dc_content_tokens = content_tokens chunk, dc_embedding = None,
                        dc_metadata = metadata chunk \<rparr>) chunks) db"

text \<open>
  \<open>EmbeddingService.storeEmbeddings\<close>: throws when the two arrays differ in length,
  otherwise one batch insert with \<open>embeddings[index].embedding\<close> on the row of chunk
  \<open>index\<close>.
\<close>

definition storeEmbeddings ::
  "nat \<Rightarrow> TextChunk list \<Rightarrow> EmbeddingResult list \<Rightarrow> database \<Rightarrow> string + database" where
  "storeEmbeddings documentId chunks embs db =
     (if length chunks \<noteq> length embs
      then Inl ''Chunks and embeddings arrays must have the same length''
      else Inr (batchInsert_chunks
                  (map (\<lambda>(chunk, e). \<lparr> dc_id = 0, dc_document_id = documentId,
                                         dc_chunk_index = chunk_index chunk,
                                         dc_content = content chunk,
                                         dc_content_tokens = content_tokens chunk,
                                         dc_embedding = Some (embedding e),
                                         dc_metadata = metadata chunk \<rparr>) (zip chunks embs)) db))"

text \<open>
  The chunk options that \<open>processDocument\<close> hands to \<open>chunkText\<close>:
  \<open>{ maxChunkSize: 1000, chunkOverlap: 100, preserveSentences: true,
  preserveParagraphs: true, ...chunkOptions }\<close>.
\<close>

definition processing_chunk_options :: "ProcessingChunkOptions option \<Rightarrow> ChunkOptions" where
  "processing_chunk_options chunkOptions =
     \<lparr> maxChunkSize = Some (case Option.bind chunkOptions pco_maxChunkSize of
                               None \<Rightarrow> 1000 | Some v \<Rightarrow> v),
       chunkOverlap = Some (case Option.bind chunkOptions pco_chunkOverlap of
                              None \<Rightarrow> 100 | Some v \<Rightarrow> v),
       preserveSentences = Some (case Option.bind chunkOptions pco_preserveSentences of
                                   None \<Rightarrow> True | Some v \<Rightarrow> v),
       preserveParagraphs = Some (case Option.bind chunkOptions pco_preserveParagraphs of
                                    None \<Rightarrow> True | Some v \<Rightarrow> v),
       minChunkSize = None, separators = None \<rparr>"

definition no_embedding_options :: EmbeddingOptions where
  "no_embedding_options =
     \<lparr> eo_batchSize = None, eo_model = None, eo_retryAttempts = None, eo_retryDelay = None \<rparr>"

text \<open>Steps 9 and 10 of \<open>processDocument\<close> and its successful return.\<close>

definition processDocument_complete ::
  "Document \<Rightarrow> TextChunk list \<Rightarrow> ExtractionResult \<Rightarrow> BatchEmbeddingResult option \<Rightarrow>
   database \<Rightarrow> DocumentProcessingResult \<times> database" where
  "processDocument_complete document textChunks extractionResult embeddingResult db =
     (let db' = updateDocumentProcessing (d_id document) completed (length textChunks) db;
          finalDocument = findById db' (d_id document);
          storedChunks = getDocumentChunks db' (d_id document)
      in (\<lparr> res_document = finalDocument, res_chunks = Some storedChunks,
             res_extraction_result =
               Some (length (er_content extractionResult), er_wordCount extractionResult),
             res_embedding_result = embeddingResult, res_success = True,
             res_error = None \<rparr>, db'))"

text \<open>
  Steps 5 to 10 of \<open>processDocument\<close>, inside the \<open>try\<close> block after the document row
  exists. \<open>Inl\<close> is a thrown exception with its message; the database and the provider
  trace are returned as the exception left them.
\<close>

definition processDocument_pipeline ::
  "env \<Rightarrow> Document \<Rightarrow> string \<Rightarrow> string \<Rightarrow> DocumentProcessingOptions \<Rightarrow> database \<Rightarrow>
   event list \<Rightarrow> ((string + DocumentProcessingResult) \<times> database \<times> event list) option" where
  "processDocument_pipeline E document filePath mimeType options db tr =
     (let generateEmbeddingsFlag = (case po_generateEmbeddings options of
                                      None \<Rightarrow> True | Some b \<Rightarrow> b);
          extractionOptions = (case po_extractionOptions options of
                                 None \<Rightarrow> \<lparr> xo_preserveFormatting = None, xo_maxLength = None \<rparr>
                               | Some x \<Rightarrow> x)
      in case extractText E filePath mimeType extractionOptions of
           Inl e \<Rightarrow> Some (Inl e, db, tr)
         | Inr extractionResult \<Rightarrow>
             if er_content extractionResult = [] \<or>
                length (trim (er_content extractionResult)) = 0
             then Some (Inl ''No text content could be extracted from the document'', db, tr)
             else
               let textChunks = chunkText (er_content extractionResult)
                                  (processing_chunk_options (po_chunkOptions options))
               in if length textChunks = 0
                  then Some (Inl ''Document could not be chunked - content may be too short'',
                             db, tr)
                  else if generateEmbeddingsFlag then
                    (case generateEmbeddings (embedding_provider E)
                            (map (\<lambda>chunk. (content chunk, chunk_index chunk)) textChunks)
                            no_embedding_options tr of
                       None \<Rightarrow> None
                     | Some (Inl e, tr') \<Rightarrow> Some (Inl e, db, tr')
                     | Some (Inr embeddingResult, tr') \<Rightarrow>
                         (case storeEmbeddings (d_id document) textChunks
                                 (embeddings embeddingResult) db of
                            Inl e \<Rightarrow> Some (Inl e, db, tr')
                          | Inr db' \<Rightarrow>
                              (case processDocument_complete document textChunks
                                      extractionResult (Some embeddingResult) db' of
                                 (r, db'') \<Rightarrow> Some (Inr r, db'', tr'))))
                  else
                    (case processDocument_complete document textChunks extractionResult None
                            (storeChunksWithoutEmbeddings (d_id document) textChunks db) of
                       (r, db'') \<Rightarrow> Some (Inr r, db'', tr)))"

text \<open>The result that the \<open>catch\<close> block of \<open>processDocument\<close> returns.\<close>

definition failure_result :: "Document option \<Rightarrow> string \<Rightarrow> DocumentProcessingResult" where
  "failure_result document errorMessage =
     \<lparr> res_document = document, res_chunks = None, res_extraction_result = None,
       res_embedding_result = None, res_success = False, res_error = Some errorMessage \<rparr>"

definition processDocument ::
  "env \<Rightarrow> string \<Rightarrow> string \<Rightarrow> string \<Rightarrow> string \<Rightarrow> nat \<Rightarrow> string option \<Rightarrow>
   DocumentProcessingOptions \<Rightarrow> database \<Rightarrow> event list \<Rightarrow>
   (DocumentProcessingResult \<times> database \<times> event list) option" where
  "processDocument E filePath originalName userId mimeType fileSize title options db tr =
     (case calculateFileHash E filePath of
        Inl e \<Rightarrow> Some (failure_result None e, db, tr)
      | Inr contentHash \<Rightarrow>
          (case findDocumentByHash db contentHash userId of
             Some existingDoc \<Rightarrow>
               Some (\<lparr> res_document = Some existingDoc, res_chunks = None,
                        res_extraction_result = None, res_embedding_result = None,
                        res_success = True, res_error = None \<rparr>, db, tr)
           | None \<Rightarrow>
               (case createDocumentRecord E filePath originalName userId mimeType fileSize
                       contentHash title db of
                  (document, db1) \<Rightarrow>
                    (case processDocument_pipeline E document filePath mimeType options
                            (updateDocumentStatus (d_id document) processing db1) tr of
                       None \<Rightarrow> None
                     | Some (Inr r, db2, tr') \<Rightarrow> Some (r, db2, tr')
                     | Some (Inl errorMessage, db2, tr') \<Rightarrow>
                         Some (failure_result (Some document) errorMessage,
                               updateDocumentStatus (d_id document) failed db2, tr')))))"

text \<open>
  The loop of \<open>updateEmbeddings\<close> that writes \<open>batchResult.embeddings[i].embedding\<close> to
  chunk \<open>i\<close> of the selection; reading it beyond the end of \<open>embeddings\<close> throws.
\<close>

fun updateEmbeddings_loop ::
  "DocumentChunk list \<Rightarrow> EmbeddingResult list \<Rightarrow> database \<Rightarrow> string option \<times> database" where
  "updateEmbeddings_loop [] embs db = (None, db)"
| "updateEmbeddings_loop (chunk # rest) [] db =
     (Some ''Cannot read properties of undefined (reading 'embedding')'', db)"
| "updateEmbeddings_loop (chunk # rest) (e # embs) db =
     updateEmbeddings_loop rest embs
       (update_chunk (dc_id chunk) (\<lambda>c. c\<lparr>dc_embedding := Some (embedding e)\<rparr>) db)"

text \<open>A chunk row lacks an embedding: \<open>!chunk.embedding || chunk.embedding.length === 0\<close>\<close>

definition lacks_embedding :: "DocumentChunk \<Rightarrow> bool" where
  "lacks_embedding chunk \<longleftrightarrow> (case dc_embedding chunk of None \<Rightarrow> True | Some v \<Rightarrow> length v = 0)"

definition updateEmbeddings ::
  "env \<Rightarrow> nat \<Rightarrow> bool \<Rightarrow> database \<Rightarrow> event list \<Rightarrow>
   ((string + (nat \<times> rat)) \<times> database \<times> event list) option" where
  "updateEmbeddings E documentId forceRegenerate db tr =
     (let chunks = getDocumentChunks db documentId in
      if length chunks = 0 then Some (Inr (0, 0), db, tr)
      else
        let chunksToUpdate = (if forceRegenerate then chunks else filter lacks_embedding chunks)
        in if length chunksToUpdate = 0 then Some (Inr (0, 0), db, tr)
           else
             (case generateEmbeddings (embedding_provider E)
                     (map (\<lambda>chunk. (dc_content chunk, dc_chunk_index chunk)) chunksToUpdate)
                     no_embedding_options tr of
                None \<Rightarrow> None
              | Some (Inl e, tr') \<Rightarrow> Some (Inl (''Failed to update embeddings: '' @ e), db, tr')
              | Some (Inr batchResult, tr') \<Rightarrow>
                  (case updateEmbeddings_loop chunksToUpdate (embeddings batchResult) db of
                     (Some e, db') \<Rightarrow>
                       Some (Inl (''Failed to update embeddings: '' @ e), db', tr')
                   | (None, db') \<Rightarrow>
                       Some (Inr (length chunksToUpdate, cost batchResult), db', tr'))))"

text \<open>
  \<open>reprocessDocument\<close> returns \<open>{ success: true, cost, chunks_updated }\<close>, here the pair
  \<open>(cost, chunks_updated)\<close>, or throws.
\<close>

definition reprocessDocument ::
  "env \<Rightarrow> nat \<Rightarrow> string \<Rightarrow> bool \<Rightarrow> database \<Rightarrow> event list \<Rightarrow>
   ((string + (rat \<times> nat)) \<times> database \<times> event list) option" where
  "reprocessDocument E documentId userId force db tr =
     (case filter (\<lambda>d. d_id d = documentId \<and> d_user_id d = userId) (documents db) of
        [] \<Rightarrow> Some (Inl ''Document not found or access denied'', db, tr)
      | d # ds \<Rightarrow>
          if d_processing_status d \<noteq> completed \<and> \<not> force
          then Some (Inl ''Document must be in completed status to reprocess'', db, tr)
          else
            (case updateEmbeddings E documentId force db tr of
               None \<Rightarrow> None
             | Some (Inl e, db', tr') \<Rightarrow> Some (Inl e, db', tr')
             | Some (Inr (updatedChunks, c), db', tr') \<Rightarrow>
                 Some (Inr (c, updatedChunks), db', tr')))"

section \<open>VectorSearchService (services/VectorSearchService.ts)\<close>

record SearchOptions =
  so_limit :: "nat option"
  so_similarity_threshold :: "rat option"
  so_include_metadata :: "bool option"
  so_filter_document_ids :: "nat list option"
  so_exclude_document_ids :: "nat list option"

record HybridSearchOptions = SearchOptions +
  so_keyword_weight :: "rat option"
  so_semantic_weight :: "rat option"
  so_keyword_boost :: "rat option"

record SearchResult =
  sr_chunk_id :: nat
  sr_document_id :: nat
  sr_document_title :: string
  sr_document_filename :: string
  sr_chunk_index :: nat
  sr_content :: jsstring
  sr_similarity_score :: rat
  sr_metadata :: "chunk_metadata option"

datatype search_type = semantic | hybrid | keyword

record SearchResponse =
  results :: "SearchResult list"
  total_results :: nat
  query :: jsstring
  search_type :: search_type
  similarity_threshold :: rat

text \<open>
  \<open>Math.round(score * 10000) / 10000\<close>, with \<open>Math.round(x)\<close> as \<open>\<lfloor>x + 1/2\<rfloor>\<close>: the score
  rounded to four decimal places. The product is exact here, where the code rounds the
  double product, so the two can differ for a score within a double's rounding error of a
  rounding boundary.
\<close>

definition formatSearchResult :: "SearchResult \<Rightarrow> SearchResult" where
  "formatSearchResult result =
     result\<lparr>sr_similarity_score :=
              of_int \<lfloor>sr_similarity_score result * 10000 + 1 / 2\<rfloor> / 10000\<rparr>"

text \<open>
  The rows of \<open>document_chunks dc JOIN documents d ON dc.document_id = d.id\<close> with
  \<open>d.user_id = $2 AND d.processing_status = 'completed'\<close>, in table order.
\<close>

definition owned_completed_chunks ::
  "database \<Rightarrow> string \<Rightarrow> (DocumentChunk \<times> Document) list" where
  "owned_completed_chunks db userId =
     [(dc, d). dc \<leftarrow> document_chunks db, d \<leftarrow> documents db,
               dc_document_id dc = d_id d \<and> d_user_id d = userId \<and>
               d_processing_status d = completed]"

text \<open>
  Those of them with \<open>dc.embedding IS NOT NULL\<close>, as a result row whose score is
  \<open>1 - (dc.embedding <=> $1::vector)\<close>, paired with that distance.
\<close>

definition scored_rows ::
  "env \<Rightarrow> database \<Rightarrow> vector \<Rightarrow> string \<Rightarrow> bool \<Rightarrow> (SearchResult \<times> rat) list" where
  "scored_rows E db queryEmbedding userId include_metadata =
     [(\<lparr> sr_chunk_id = dc_id dc, sr_document_id = dc_document_id dc,
          sr_document_title = d_title d, sr_document_filename = d_filename d,
          sr_chunk_index = dc_chunk_index dc, sr_content = dc_content dc,
          sr_similarity_score = 1 - cosine_distance E v queryEmbedding,
          sr_metadata = (if include_metadata then Some (dc_metadata dc) else None) \<rparr>,
        cosine_distance E v queryEmbedding).
        (dc, d) \<leftarrow> owned_completed_chunks db userId,
        v \<leftarrow> (case dc_embedding dc of None \<Rightarrow> [] | Some v \<Rightarrow> [v])]"

text \<open>
  The two optional conditions on the document id:
  \<open>document_id = ANY($n)\<close> and \<open>document_id != ALL($n)\<close>, each added only for a
  non-empty list.
\<close>

definition document_id_filters :: "nat list option \<Rightarrow> nat list option \<Rightarrow> nat \<Rightarrow> bool" where
  "document_id_filters filter_ids exclude_ids i \<longleftrightarrow>
     (case filter_ids of None \<Rightarrow> True | Some ids \<Rightarrow> length ids > 0 \<longrightarrow> i \<in> set ids) \<and>
     (case exclude_ids of None \<Rightarrow> True | Some ids \<Rightarrow> length ids > 0 \<longrightarrow> i \<notin> set ids)"

text \<open>
  The query of \<open>semanticSearch\<close>: the conditions, \<open>ORDER BY dc.embedding <=> $1\<close> and
  \<open>LIMIT\<close>. PostgreSQL leaves the order of rows with equal keys open; here they stay in
  table order.
\<close>

definition semantic_query ::
  "env \<Rightarrow> database \<Rightarrow> vector \<Rightarrow> string \<Rightarrow> bool \<Rightarrow> nat list option \<Rightarrow> nat list option \<Rightarrow>
   rat \<Rightarrow> nat \<Rightarrow> SearchResult list" where
  "semantic_query E db queryEmbedding userId include_metadata filter_ids exclude_ids
     threshold limit =
     map fst
       (take limit
          (sort_key snd
             (filter (\<lambda>(r, dist). document_id_filters filter_ids exclude_ids (sr_document_id r) \<and>
                                   1 - dist \<ge> threshold)
                (scored_rows E db queryEmbedding userId include_metadata))))"

definition semanticSearch ::
  "env \<Rightarrow> database \<Rightarrow> jsstring \<Rightarrow> string \<Rightarrow> SearchOptions \<Rightarrow> event list \<Rightarrow>
   (string + SearchResponse) \<times> event list" where
  "semanticSearch E db q userId options tr =
     (let limit = (case so_limit options of None \<Rightarrow> 10 | Some v \<Rightarrow> v);
          threshold = (case so_similarity_threshold options of None \<Rightarrow> 7 / 10 | Some v \<Rightarrow> v);
          include_metadata = (case so_include_metadata options of None \<Rightarrow> True | Some v \<Rightarrow> v)
      in case generateQueryEmbedding (embedding_provider E) q defaultModel tr of
           (Inl e, tr') \<Rightarrow> (Inl (''Semantic search failed: '' @ e), tr')
         | (Inr queryEmbedding, tr') \<Rightarrow>
             let rows = semantic_query E db queryEmbedding userId include_metadata
                          (so_filter_document_ids options) (so_exclude_document_ids options)
                          threshold limit
             in (Inr \<lparr> results = map formatSearchResult rows, total_results = length rows,
                       query = q, search_type = semantic,
                       similarity_threshold = threshold \<rparr>, tr'))"

definition is_word_char :: "nat \<Rightarrow> bool" where
  "is_word_char c \<longleftrightarrow>
     (48 \<le> c \<and> c \<le> 57) \<or> (65 \<le> c \<and> c \<le> 90) \<or> c = 95 \<or> (97 \<le> c \<and> c \<le> 122)"

definition stopWords :: "jsstring list" where
  "stopWords = map js
     [''the'', ''a'', ''an'', ''and'', ''or'', ''but'', ''in'', ''on'', ''at'', ''to'', ''for'',
      ''of'', ''with'', ''by'', ''is'', ''are'', ''was'', ''were'', ''be'', ''been'', ''have'',
      ''has'', ''had'', ''do'', ''does'', ''did'', ''will'', ''would'', ''could'', ''should'']"

definition isStopWord :: "jsstring \<Rightarrow> bool" where
  "isStopWord word \<longleftrightarrow> word \<in> set stopWords"

definition extractKeywords :: "env \<Rightarrow> jsstring \<Rightarrow> jsstring list" where
  "extractKeywords E q =
     filter (\<lambda>word. \<not> isStopWord word)
       (filter (\<lambda>word. length word > 2)
          (split_re match_spaces []
             (map (\<lambda>c. if \<not> is_word_char c \<and> \<not> is_space c then 32 else c)
                (toLowerCase E q))))"

fun join_or :: "jsstring list \<Rightarrow> jsstring" where
  "join_or [] = []"
| "join_or [k] = k"
| "join_or (k # ks) = k @ js '' | '' @ join_or ks"

definition buildTsQuery :: "jsstring list \<Rightarrow> jsstring" where
  "buildTsQuery keywords =
     (if length keywords = 0 then [] else join_or (map (\<lambda>k. k @ js '':*'') keywords))"

text \<open>
  The common table expression \<open>keyword_scores\<close>: chunk id and
  \<open>ts_rank_cd(...) * $4\<close> for the owned, completed chunks that match the query.
\<close>

definition keyword_scores ::
  "env \<Rightarrow> database \<Rightarrow> jsstring \<Rightarrow> string \<Rightarrow> rat \<Rightarrow> (nat \<times> rat) list" where
  "keyword_scores E db tsQuery userId keyword_boost =
     [(dc_id dc, ts_rank_cd E tsQuery (dc_content dc) * keyword_boost).
        (dc, d) \<leftarrow> owned_completed_chunks db userId, ts_match E tsQuery (dc_content dc)]"

text \<open>
  \<open>semantic_scores s LEFT JOIN keyword_scores k ON s.chunk_id = k.chunk_id\<close>: every
  semantic row once for each keyword row of its chunk id, or once with \<open>NULL\<close> when there
  is none.
\<close>

definition left_join_keyword ::
  "(SearchResult \<times> rat) list \<Rightarrow> (nat \<times> rat) list \<Rightarrow> (SearchResult \<times> rat option) list" where
  "left_join_keyword ss ks =
     concat (map (\<lambda>(s, dist).
                    (case filter (\<lambda>(i, score). i = sr_chunk_id s) ks of
                       [] \<Rightarrow> [(s, None)]
                     | m # ms \<Rightarrow> map (\<lambda>(i, score). (s, Some score)) (m # ms))) ss)"

text \<open>
  The query of \<open>hybridSearch\<close>: the threshold on the semantic score and the document id
  conditions, the blended score
  \<open>(s.semantic_score * $5) + (COALESCE(k.keyword_score, 0) * $6)\<close>,
  \<open>ORDER BY similarity_score DESC\<close> and \<open>LIMIT\<close>.
\<close>

definition hybrid_query ::
  "env \<Rightarrow> database \<Rightarrow> vector \<Rightarrow> jsstring \<Rightarrow> string \<Rightarrow> bool \<Rightarrow> nat list option \<Rightarrow>
   nat list option \<Rightarrow> rat \<Rightarrow> rat \<Rightarrow> rat \<Rightarrow> rat \<Rightarrow> nat \<Rightarrow> SearchResult list" where
  "hybrid_query E db queryEmbedding tsQuery userId include_metadata filter_ids exclude_ids
     keyword_boost semantic_weight keyword_weight threshold limit =
     take limit
       (sort_key (\<lambda>r. - sr_similarity_score r)
          (map (\<lambda>(s, k). s\<lparr>sr_similarity_score :=
                              sr_similarity_score s * semantic_weight +
                              (case k of None \<Rightarrow> 0 | Some score \<Rightarrow> score) * keyword_weight\<rparr>)
             (filter (\<lambda>(s, k). sr_similarity_score s \<ge> threshold \<and>
                                document_id_filters filter_ids exclude_ids (sr_document_id s))
                (left_join_keyword
                   (scored_rows E db queryEmbedding userId include_metadata)
                   (keyword_scores E db tsQuery userId keyword_boost)))))"

definition hybridSearch ::
  "env \<Rightarrow> database \<Rightarrow> jsstring \<Rightarrow> string \<Rightarrow> HybridSearchOptions \<Rightarrow> event list \<Rightarrow>
   (string + SearchResponse) \<times> event list" where
  "hybridSearch E db q userId options tr =
     (let limit = (case so_limit options of None \<Rightarrow> 10 | Some v \<Rightarrow> v);
          threshold = (case so_similarity_threshold options of None \<Rightarrow> 1 / 2 | Some v \<Rightarrow> v);
          keyword_weight = (case so_keyword_weight options of None \<Rightarrow> 3 / 10 | Some v \<Rightarrow> v);
          semantic_weight = (case so_semantic_weight options of None \<Rightarrow> 7 / 10 | Some v \<Rightarrow> v);
          keyword_boost = (case so_keyword_boost options of None \<Rightarrow> 12 / 10 | Some v \<Rightarrow> v);
          include_metadata = (case so_include_metadata options of None \<Rightarrow> True | Some v \<Rightarrow> v)
      in case generateQueryEmbedding (embedding_provider E) q defaultModel tr of
           (Inl e, tr') \<Rightarrow> (Inl (''Hybrid search failed: '' @ e), tr')
         | (Inr queryEmbedding, tr') \<Rightarrow>
             let tsQuery = buildTsQuery (extractKeywords E q);
                 rows = hybrid_query E db queryEmbedding tsQuery userId include_metadata
                          (so_filter_document_ids options) (so_exclude_document_ids options)
                          keyword_boost semantic_weight keyword_weight threshold limit
             in (Inr \<lparr> results = map formatSearchResult rows, total_results = length rows,
                       query = q, search_type = hybrid,
                       similarity_threshold = threshold \<rparr>, tr'))"

section \<open>LLMService (services/LLMService.ts)\<close>

text \<open>
  The chat service computes its cost from a table of rates per model, \<open>costPerToken\<close>,
  with an input and an output rate for each model it knows.
\<close>

definition llm_costPerToken :: "string \<Rightarrow> (rat \<times> rat) option" where
  "llm_costPerToken model =
     (if model = ''gpt-4'' then Some (3 / 100000, 6 / 100000)
      else if model = ''gpt-4-turbo'' then Some (1 / 100000, 3 / 100000)
      else if model = ''gpt-3.5-turbo'' then Some (15 / 10000000, 2 / 1000000)
      else if model = ''gpt-3.5-turbo-16k'' then Some (3 / 1000000, 4 / 1000000)
      else None)"

text \<open>
  The table is an object literal, so the lookup \<open>this.costPerToken[model]\<close> also finds the
  properties that every object inherits from \<open>Object.prototype\<close>.
\<close>

definition object_prototype_properties :: "string list" where
  "object_prototype_properties =
     [''constructor'', ''hasOwnProperty'', ''isPrototypeOf'', ''propertyIsEnumerable'',
      ''toLocaleString'', ''toString'', ''valueOf'', ''__proto__'', ''__defineGetter__'',
      ''__defineSetter__'', ''__lookupGetter__'', ''__lookupSetter__'']"

text \<open>
  \<open>LLMService.calculateCost\<close>: the rates of the model times the token counts; for a model
  without an entry a warning is logged and the cost is zero. An inherited property has no
  rates, which makes the result \<open>NaN\<close>: that is \<open>None\<close> here.
\<close>

definition llm_calculateCost :: "string \<Rightarrow> nat \<Rightarrow> nat \<Rightarrow> rat option" where
  "llm_calculateCost model promptTokens completionTokens =
     (case llm_costPerToken model of
        Some (input, output) \<Rightarrow>
          Some (of_nat promptTokens * input + of_nat completionTokens * output)
      | None \<Rightarrow> if model \<in> set object_prototype_properties then None else Some 0)"

section \<open>Notions used to state the properties\<close>

text \<open>
  \<open>getAvailableModels\<close> of the embedding service: the model names it knows.
\<close>

definition getAvailableModels :: "string list" where
  "getAvailableModels =
     [''text-embedding-ada-002'', ''text-embedding-3-small'', ''text-embedding-3-large'']"

text \<open>
  What a retried batch call should look like from outside, in the words of the
  specification: \<open>n\<close> attempts, the first one numbered \<open>attempt\<close>, each a provider call
  with the same inputs, and between attempt \<open>k\<close> and the next a delay of
  \<open>retryDelay * k\<close>.
\<close>

fun retry_trace :: "string \<Rightarrow> jsstring list \<Rightarrow> nat \<Rightarrow> nat \<Rightarrow> nat \<Rightarrow> event list" where
  "retry_trace model inputs retryDelay attempt 0 = []"
| "retry_trace model inputs retryDelay attempt (Suc 0) = [ProviderCall model inputs]"
| "retry_trace model inputs retryDelay attempt (Suc (Suc n)) =
     ProviderCall model inputs # Delay (retryDelay * attempt) #
     retry_trace model inputs retryDelay (Suc attempt) (Suc n)"

text \<open>
  The state \<open>(i, allEmbeddings, totalTokens, trace)\<close> of the batch loop of
  \<open>generateEmbeddings\<close> once \<open>k\<close> batches have succeeded, if the loop gets that far: each
  successful batch appends its embeddings, adds its token count and moves on by the batch
  size.
\<close>

fun loop_state ::
  "provider \<Rightarrow> chunk_input list \<Rightarrow> nat \<Rightarrow> string \<Rightarrow> nat \<Rightarrow> nat \<Rightarrow> event list \<Rightarrow> nat \<Rightarrow>
   (nat \<times> EmbeddingResult list \<times> nat \<times> event list) option" where
  "loop_state P vc bs m ra rd tr0 0 = Some (0, [], 0, tr0)"
| "loop_state P vc bs m ra rd tr0 (Suc k) =
     (case loop_state P vc bs m ra rd tr0 k of
        None \<Rightarrow> None
      | Some (i, acc, tot, tr) \<Rightarrow>
          if i < length vc then
            (case processBatch P (take bs (drop i vc)) m ra rd tr of
               (Inl e, tr1) \<Rightarrow> None
             | (Inr (es, t), tr1) \<Rightarrow>
                 Some (i + bs, acc @ es, tot + t,
                       if i + bs < length vc then tr1 @ [Delay 100] else tr1))
          else None)"

text \<open>
  The provider throws on each of the \<open>n\<close> calls that follow \<open>c\<close> earlier calls, when asked
  for the embeddings of \<open>inputs\<close> under the model \<open>model\<close>.
\<close>

fun provider_fails :: "provider \<Rightarrow> string \<Rightarrow> jsstring list \<Rightarrow> nat \<Rightarrow> nat \<Rightarrow> bool" where
  "provider_fails P model inputs c 0 = True"
| "provider_fails P model inputs c (Suc n) =
     (isl (P c model inputs) \<and> provider_fails P model inputs (Suc c) n)"

text \<open>
  The error of the last of these \<open>n\<close> calls; \<open>None\<close> (JavaScript's \<open>null\<close>) when there was
  no call.
\<close>

definition last_error :: "provider \<Rightarrow> string \<Rightarrow> jsstring list \<Rightarrow> nat \<Rightarrow> nat \<Rightarrow> string option" where
  "last_error P model inputs c n =
     (if n = 0 then None
      else (case P (c + (n - 1)) model inputs of Inl e \<Rightarrow> Some e | Inr response \<Rightarrow> None))"

text \<open>A provider that answers its first call and fails every later one.\<close>

definition once_provider :: provider where
  "once_provider n model inputs =
     (if n = 0 then Inr \<lparr> data = map (\<lambda>x. [1]) inputs, total_tokens = 7 \<rparr>
      else Inl ''rate limit exceeded'')"

text \<open>
  The integrity constraints of the two tables: ids are primary keys handed out by the
  database, and every chunk row refers to a document id that was handed out.
\<close>

definition wf_database :: "database \<Rightarrow> bool" where
  "wf_database db \<longleftrightarrow>
     distinct (map d_id (documents db)) \<and>
     distinct (map dc_id (document_chunks db)) \<and>
     list_all (\<lambda>d. d_id d < next_id db) (documents db) \<and>
     list_all (\<lambda>c. dc_id c < next_id db \<and> dc_document_id c < next_id db) (document_chunks db)"

text \<open>A provider that fails its first two calls and answers every later one.\<close>

definition flaky_provider :: provider where
  "flaky_provider n model inputs =
     (if n < 2 then Inl ''rate limit exceeded''
      else Inr \<lparr> data = map (\<lambda>x. [1]) inputs, total_tokens = 7 \<rparr>)"

text \<open>A provider that answers every call.\<close>

definition steady_provider :: provider where
  "steady_provider n model inputs =
     Inr \<lparr> data = map (\<lambda>x. [1]) inputs, total_tokens = 1000 \<rparr>"

text \<open>The columns of a document row that no update of the pipeline writes.\<close>

definition doc_key :: "Document \<Rightarrow> nat \<times> string \<times> string" where
  "doc_key d = (d_id d, d_user_id d, d_content_hash d)"

text \<open>
  The chunk rows that belong to the text chunks of one document: the same indices and
  contents in the same order, under the document's id.
\<close>

definition chunk_rows_of :: "nat \<Rightarrow> TextChunk list \<Rightarrow> DocumentChunk list \<Rightarrow> bool" where
  "chunk_rows_of documentId textChunks rows \<longleftrightarrow>
     map dc_chunk_index rows = map chunk_index textChunks \<and>
     map dc_content rows = map content textChunks \<and>
     list_all (\<lambda>r. dc_document_id r = documentId) rows"

text \<open>A provider that fails every call.\<close>

definition failing_provider :: provider where
  "failing_provider n model inputs = Inl ''service unavailable''"

text \<open>
  A small world to run the pipeline in: every file holds the same three bytes, the digest
  of a file is its bytes read as characters, the extractor returns the given text, and the
  distance of two one-dimensional vectors is the distance of their numbers.
\<close>

definition test_env :: "provider \<Rightarrow> jsstring \<Rightarrow> env" where
  "test_env P text =
     \<lparr> readFile = (\<lambda>p. Inr [1, 2, 3]),
       sha256_hex = map char_of,
       path_name = (\<lambda>name. name),
       extractText = (\<lambda>p m xo. Inr \<lparr> er_content = text, er_wordCount = 1 \<rparr>),
       embedding_provider = P,
       toLowerCase = (\<lambda>q. q),
       cosine_distance = (\<lambda>v w. case (v, w) of ([a], [b]) \<Rightarrow> \<bar>a - b\<bar> | _ \<Rightarrow> 1),
       ts_match = (\<lambda>q c. False),
       ts_rank_cd = (\<lambda>q c. 0) \<rparr>"

definition empty_database :: database where
  "empty_database = \<lparr> documents = [], document_chunks = [], next_id = 0 \<rparr>"

text \<open>A text of one hundred letters \<open>a\<close>.\<close>

definition hundred_letters :: jsstring where
  "hundred_letters = replicate 100 97"

definition no_processing_options :: DocumentProcessingOptions where
  "no_processing_options =
     \<lparr> po_generateEmbeddings = None, po_chunkOptions = None, po_extractionOptions = None \<rparr>"

text \<open>
  A database with one completed document of the owner \<open>alice\<close> and its two chunks, both
  embedded.
\<close>

definition sample_database :: database where
  "sample_database =
     \<lparr> documents =
         [\<lparr> d_id = 0, d_user_id = ''alice'', d_title = ''Notes'', d_filename = ''notes.txt'',
            d_file_path = ''upload-1.txt'', d_file_type = ''text/plain'', d_file_size = 200,
            d_content_hash = ''abc'', d_processing_status = completed, d_chunk_count = 2 \<rparr>],
       document_chunks =
         [\<lparr> dc_id = 1, dc_document_id = 0, dc_chunk_index = 0, dc_content = js ''hello'',
            dc_content_tokens = 2, dc_embedding = Some [9 / 10],
            dc_metadata = \<lparr> word_count = 1, character_count = 5, paragraph_index = Some 0,
                            chunk_type = Paragraph \<rparr> \<rparr>,
          \<lparr> dc_id = 2, dc_document_id = 0, dc_chunk_index = 1, dc_content = js ''world'',
            dc_content_tokens = 2, dc_embedding = Some [17501 / 25000],
            dc_metadata = \<lparr> word_count = 1, character_count = 5, paragraph_index = Some 1,
                            chunk_type = Paragraph \<rparr> \<rparr>],
       next_id = 3 \<rparr>"

text \<open>
  The chunk rows that \<open>reprocessDocument\<close> selects: those of the document, all of them
  when forced and otherwise the ones that lack an embedding.
\<close>

definition selected_for_update :: "nat \<Rightarrow> bool \<Rightarrow> DocumentChunk \<Rightarrow> bool" where
  "selected_for_update documentId force c \<longleftrightarrow>
     dc_document_id c = documentId \<and> (force \<or> lacks_embedding c)"

text \<open>
  A text of two paragraphs, 600 letters \<open>a\<close> and 600 letters \<open>b\<close> with an empty line
  between them.
\<close>

definition two_paragraphs :: jsstring where
  "two_paragraphs = replicate 600 97 @ [10, 10] @ replicate 600 98"

text \<open>
  A database that already holds a completed document of the owner \<open>bob\<close> with one chunk;
  the content hash of the document is the digest that the small world gives every file.
\<close>

definition bobs_database :: database where
  "bobs_database =
     \<lparr> documents =
         [\<lparr> d_id = 0, d_user_id = ''bob'', d_title = ''Notes'', d_filename = ''notes.txt'',
            d_file_path = ''upload-0.txt'', d_file_type = ''text/plain'', d_file_size = 100,
            d_content_hash = map char_of [1, 2, 3 :: nat], d_processing_status = completed,
            d_chunk_count = 1 \<rparr>],
       document_chunks =
         [\<lparr> dc_id = 1, dc_document_id = 0, dc_chunk_index = 0, dc_content = hundred_letters,
            dc_content_tokens = 25, dc_embedding = Some [1],
            dc_metadata = \<lparr> word_count = 1, character_count = 100, paragraph_index = Some 0,
                            chunk_type = Paragraph \<rparr> \<rparr>],
       next_id = 2 \<rparr>"

section \<open>Properties of the chunker\<close>

lemma trim_blank:
  assumes "\<forall>c\<in>set s. is_space c"
  shows "trim s = []"
proof -
  from assms have "dropWhile is_space s = []" by simp
  then show ?thesis unfolding trim_def by (simp only: rev.simps dropWhile.simps)
qed

lemma length_map_index [simp]: "length (map_index f xs) = length xs"
  by (simp add: map_index_def)

lemma chunkText_chunk_index:
  "map chunk_index (chunkText text options) = [0..<length (chunkText text options)]"
proof -
  have renumber: "map chunk_index
      (map_index (\<lambda>chunk i. chunk\<lparr>chunk_index := i,
                                    content_tokens := estimateTokens (content chunk)\<rparr>) xs) =
      [0..<length xs]" for xs
    by (simp add: map_index_def comp_def case_prod_unfold)
  show ?thesis
    by (simp add: chunkText_def Let_def renumber)
qed

subsection \<open>The text \<open>A. B. C.\<close>\<close>

lemma js_abc: "js ''A. B. C.'' = [65, 46, 32, 66, 46, 32, 67, 46]"
  by (simp add: js_def)

lemma trim_abc: "trim [65, 46, 32, 66, 46, 32, 67, 46] = [65, 46, 32, 66, 46, 32, 67, 46]"
  by (simp add: trim_def is_space_def)

lemma preprocessText_abc:
  "preprocessText [65, 46, 32, 66, 46, 32, 67, 46] = [65, 46, 32, 66, 46, 32, 67, 46]"
  by (simp add: preprocessText_def replace_cr_def is_blank_def trim_abc)

lemma split_paragraphs_abc:
  "split_re match_paragraph_break [] [65, 46, 32, 66, 46, 32, 67, 46] =
   [[65, 46, 32, 66, 46, 32, 67, 46]]"
  by (simp add: match_paragraph_break_def)

lemma findTextPosition_abc:
  "findTextPosition [65, 46, 32, 66, 46, 32, 67, 46] [65, 46, 32, 66, 46, 32, 67, 46] = 0"
  by (simp add: findTextPosition_def indexOf_def substring_def starts_with_def)

lemma chunkByParagraphs_abc:
  "chunkByParagraphs [65, 46, 32, 66, 46, 32, 67, 46] opts =
   (if r_minChunkSize opts \<le> 8
    then [createChunk [65, 46, 32, 66, 46, 32, 67, 46] 0 0 8 Paragraph (Some 0)]
    else [])"
  by (simp add: chunkByParagraphs_def split_paragraphs_abc trim_abc findTextPosition_abc
        del: split_re.simps)
     (simp add: eval_nat_numeral)

text \<open>
  C8, as the claim states it: with \<open>maxChunkSize = 1000\<close>, \<open>preserveSentences = true\<close> and
  every other option at its default, \<open>chunkText\<close> returns no chunk at all for the text
  \<open>A. B. C.\<close>, not one chunk: the default \<open>minChunkSize\<close> is 100 and the text has eight
  characters.
\<close>

theorem chunkText_abc_defaults_empty:
  "chunkText (js ''A. B. C.'')
     \<lparr> maxChunkSize = Some 1000, chunkOverlap = None, preserveSentences = Some True,
       preserveParagraphs = None, minChunkSize = None, separators = None \<rparr> = []"
  by (simp add: chunkText_def js_abc trim_abc preprocessText_abc chunkByParagraphs_abc
        spread_options_def defaultOptions_def postProcessChunks_def map_index_def)

text \<open>
  C8, amended: with \<open>maxChunkSize = 1000\<close>, \<open>preserveSentences = true\<close> and the other
  options at their defaults, \<open>chunkText\<close> applied to \<open>A. B. C.\<close> returns exactly one chunk,
  whose content is the whole text with its three sentences, when a \<open>minChunkSize\<close> of at
  most 8 is passed as well; with a larger \<open>minChunkSize\<close>, or with the default of 100, it
  returns no chunk.
\<close>

theorem chunkText_abc_minChunkSize:
  "map content
     (chunkText (js ''A. B. C.'')
        \<lparr> maxChunkSize = Some 1000, chunkOverlap = None, preserveSentences = Some True,
          preserveParagraphs = None, minChunkSize = m, separators = None \<rparr>) =
   (if (case m of None \<Rightarrow> 100 | Some k \<Rightarrow> k) \<le> 8 then [js ''A. B. C.''] else [])"
  by (simp add: chunkText_def js_abc trim_abc preprocessText_abc chunkByParagraphs_abc
        spread_options_def defaultOptions_def postProcessChunks_def map_index_def
        createChunk_def split: option.splits)

theorem chunkText_abc_minChunkSize_witness:
  "map content
     (chunkText (js ''A. B. C.'')
        \<lparr> maxChunkSize = Some 1000, chunkOverlap = None, preserveSentences = Some True,
          preserveParagraphs = None, minChunkSize = Some 8, separators = None \<rparr>) =
   [js ''A. B. C.'']"
  using chunkText_abc_minChunkSize [of "Some 8"] by simp

section \<open>Properties of the embedding service\<close>

lemma retry_trace_Suc:
  "0 < n \<Longrightarrow> retry_trace m xs rd a (Suc n) = ProviderCall m xs # Delay (rd * a) # retry_trace m xs rd (Suc a) n"
  by (cases n) auto

lemma processBatch_attempt_trace:
  assumes "map_throwing (\<lambda>(c, i). validateAndTruncateText c) chunks = Inr inputs"
  shows "snd (processBatch_attempt P chunks model tr) = tr @ [ProviderCall model inputs]"
  using assms
  by (auto simp: processBatch_attempt_def call_provider_def split: sum.splits prod.splits)

lemma processBatch_loop_trace:
  assumes "map_throwing (\<lambda>(c, i). validateAndTruncateText c) chunks = Inr inputs"
    and "processBatch_loop P chunks model ra rd a le tr = (res, tr')"
    and "a \<le> Suc ra"
  shows "\<exists>n. n \<le> Suc ra - a \<and> tr' = tr @ retry_trace model inputs rd a n \<and>
             (case res of Inl e \<Rightarrow> n = Suc ra - a | Inr r \<Rightarrow> 0 < n)"
  using assms
proof (induction P chunks model ra rd a le tr rule: processBatch_loop.induct)
  case (1 P chunks model ra rd a le tr)
  show ?case
  proof (cases "a \<le> ra")
    case False
    with "1.prems" have "res = Inl le" "tr' = tr" "a = Suc ra"
      by (auto simp: processBatch_loop.simps[of P chunks model ra rd a])
    then show ?thesis by (intro exI[of _ 0]) simp
  next
    case True
    obtain r1 tr1 where att: "processBatch_attempt P chunks model tr = (r1, tr1)"
      by (cases "processBatch_attempt P chunks model tr")
    have tr1: "tr1 = tr @ [ProviderCall model inputs]"
      using processBatch_attempt_trace[OF "1.prems"(1), of P model tr] att by simp
    show ?thesis
    proof (cases r1)
      case (Inr r)
      with True att "1.prems" have "res = Inr r" "tr' = tr1"
        by (auto simp: processBatch_loop.simps[of P chunks model ra rd a])
      with tr1 True show ?thesis by (intro exI[of _ 1]) auto
    next
      case (Inl e)
      let ?tr2 = "if a < ra then tr1 @ [Delay (rd * a)] else tr1"
      from True att Inl "1.prems"
      have rec: "processBatch_loop P chunks model ra rd (a + 1) (Some e) ?tr2 = (res, tr')"
        by (simp add: processBatch_loop.simps[of P chunks model ra rd a])
      from "1.IH"[OF True att[symmetric] Inl "1.prems"(1) rec] True
      obtain n where n: "n \<le> Suc ra - (a + 1)" "tr' = ?tr2 @ retry_trace model inputs rd (a + 1) n"
        "(case res of Inl e \<Rightarrow> n = Suc ra - (a + 1) | Inr r \<Rightarrow> 0 < n)"
        by auto
      show ?thesis
      proof (cases "a < ra")
        case lt: True
        with n(3) have "0 < n" by (cases res) auto
        with n lt tr1 show ?thesis
          by (intro exI[of _ "Suc n"]) (auto simp: retry_trace_Suc split: sum.splits)
      next
        case False
        with True have "a = ra" by simp
        with n have "n = 0" by simp
        with n \<open>a = ra\<close> tr1 show ?thesis
          by (intro exI[of _ 1]) (auto split: sum.splits)
      qed
    qed
  qed
qed


lemma generateEmbeddings_loop_batch_fails:
  assumes "i < length vc"
    and "processBatch P (take bs (drop i vc)) model ra rd tr = (Inl e, tr1)"
  shows "generateEmbeddings_loop P vc bs model ra rd i acc tot tr = Some (Inl e, tr1)"
  using assms by (subst generateEmbeddings_loop.simps) simp

lemma generateEmbeddings_loop_batch_succeeds:
  assumes "i < length vc"
    and "processBatch P (take bs (drop i vc)) model ra rd tr = (Inr (es, t), tr1)"
  shows "generateEmbeddings_loop P vc bs model ra rd i acc tot tr =
         generateEmbeddings_loop P vc bs model ra rd (i + bs) (acc @ es) (tot + t)
           (if i + bs < length vc then tr1 @ [Delay 100] else tr1)"
  using assms by (subst generateEmbeddings_loop.simps) simp

lemma generateEmbeddings_loop_done:
  "\<not> i < length vc \<Longrightarrow>
   generateEmbeddings_loop P vc bs model ra rd i acc tot tr = Some (Inr (acc, tot), tr)"
  by (subst generateEmbeddings_loop.simps) simp

lemma n_calls_append [simp]: "n_calls (tr @ evs) = n_calls tr + n_calls evs"
  by (simp add: n_calls_def)

lemma n_calls_simps [simp]:
  "n_calls [] = 0" "n_calls (ProviderCall m xs # tr) = Suc (n_calls tr)"
  "n_calls (Delay ms # tr) = n_calls tr"
  by (simp_all add: n_calls_def)

lemma processBatch_loop_retry:
  assumes "a \<le> ra" and "processBatch_attempt P chunks model tr = (Inl e, tr1)"
  shows "processBatch_loop P chunks model ra rd a le tr =
         processBatch_loop P chunks model ra rd (a + 1) (Some e)
           (if a < ra then tr1 @ [Delay (rd * a)] else tr1)"
  using assms by (subst processBatch_loop.simps) simp

lemma processBatch_loop_success:
  assumes "a \<le> ra" and "processBatch_attempt P chunks model tr = (Inr r, tr1)"
  shows "processBatch_loop P chunks model ra rd a le tr = (Inr r, tr1)"
  using assms by (subst processBatch_loop.simps) simp

lemma processBatch_third_attempt:
  assumes valid: "map_throwing (\<lambda>(c, i). validateAndTruncateText c) chunks = Inr inputs"
    and f1: "P (n_calls tr) model inputs = Inl e1"
    and f2: "P (Suc (n_calls tr)) model inputs = Inl e2"
    and ok: "P (Suc (Suc (n_calls tr))) model inputs = Inr response"
    and len: "length (data response) \<le> length chunks"
  shows "processBatch P chunks model 3 rd tr =
         (Inr (map (\<lambda>(item, (c, i)). \<lparr> embedding = item,
                      tokens = round_div (total_tokens response) (length chunks), index = i \<rparr>)
                 (zip (data response) chunks), total_tokens response),
          tr @ retry_trace model inputs rd 1 3)"
proof -
  let ?c = "ProviderCall model inputs"
  let ?r = "(map (\<lambda>(item, (c, i)). \<lparr> embedding = item,
                      tokens = round_div (total_tokens response) (length chunks), index = i \<rparr>)
                 (zip (data response) chunks), total_tokens response)"
  let ?tr1 = "tr @ [?c]"
  let ?tr2 = "(tr @ [?c]) @ [Delay (rd * 1)]"
  let ?tr3 = "?tr2 @ [?c]"
  let ?tr4 = "?tr3 @ [Delay (rd * 2)]"
  have a1: "processBatch_attempt P chunks model tr = (Inl e1, ?tr1)"
    using valid f1 by (simp add: processBatch_attempt_def call_provider_def)
  have a2: "processBatch_attempt P chunks model ?tr2 = (Inl e2, ?tr3)"
    using valid f2 by (simp add: processBatch_attempt_def call_provider_def)
  have a3: "processBatch_attempt P chunks model ?tr4 = (Inr ?r, ?tr4 @ [?c])"
    using valid ok len by (simp add: processBatch_attempt_def call_provider_def)
  have "processBatch P chunks model 3 rd tr = processBatch_loop P chunks model 3 rd 2 (Some e1) ?tr2"
    unfolding processBatch_def using processBatch_loop_retry[where a=1 and ra=3 and rd=rd and le=None, OF _ a1] by (simp add: eval_nat_numeral)
  also have "\<dots> = processBatch_loop P chunks model 3 rd 3 (Some e2) ?tr4"
    using processBatch_loop_retry[where a=2 and ra=3 and rd=rd and le="Some e1", OF _ a2] by (simp add: eval_nat_numeral)
  also have "\<dots> = (Inr ?r, ?tr4 @ [?c])"
    using processBatch_loop_success[where a=3 and ra=3 and rd=rd and le="Some e2", OF _ a3] by (simp add: eval_nat_numeral)
  finally show ?thesis by (simp add: eval_nat_numeral)
qed


lemma generateEmbeddings_third_attempt:
  assumes vc: "validateChunks chunks \<noteq> []" "length (validateChunks chunks) \<le> 50"
    and valid: "map_throwing (\<lambda>(c, i). validateAndTruncateText c) (validateChunks chunks) = Inr inputs"
    and f1: "P (n_calls tr) m inputs = Inl e1"
    and f2: "P (Suc (n_calls tr)) m inputs = Inl e2"
    and ok: "P (Suc (Suc (n_calls tr))) m inputs = Inr response"
    and len: "length (data response) \<le> length (validateChunks chunks)"
  shows "generateEmbeddings P chunks
           \<lparr> eo_batchSize = None, eo_model = Some m, eo_retryAttempts = Some 3,
             eo_retryDelay = Some rd \<rparr> tr =
         Some (Inr \<lparr> embeddings =
                       map (\<lambda>(item, (c, i)).
                              \<lparr> embedding = item,
                                tokens = round_div (total_tokens response)
                                           (length (validateChunks chunks)),
                                index = i \<rparr>)
                         (zip (data response) (validateChunks chunks)),
                     totalTokens = total_tokens response,
                     cost = calculateCost (total_tokens response) \<rparr>,
               tr @ retry_trace m inputs rd 1 3)"
proof -
  let ?vc = "validateChunks chunks"
  have pb: "processBatch P (take 50 (drop 0 ?vc)) m 3 rd tr =
        (Inr (map (\<lambda>(item, (c, i)). \<lparr> embedding = item,
                      tokens = round_div (total_tokens response) (length ?vc), index = i \<rparr>)
                 (zip (data response) ?vc), total_tokens response),
          tr @ retry_trace m inputs rd 1 3)"
    using processBatch_third_attempt[where P=P and tr=tr and model=m and rd=rd, OF valid f1 f2 ok len] vc(2) by simp
  have "0 < length ?vc" using vc(1) by simp
  from generateEmbeddings_loop_batch_succeeds[OF this pb, of "[]" 0] vc(2)
  have "generateEmbeddings_loop P ?vc 50 m 3 rd 0 [] 0 tr =
        Some (Inr (map (\<lambda>(item, (c, i)). \<lparr> embedding = item,
                      tokens = round_div (total_tokens response) (length ?vc), index = i \<rparr>)
                 (zip (data response) ?vc), total_tokens response),
              tr @ retry_trace m inputs rd 1 3)"
    by (simp add: generateEmbeddings_loop_done)
  then show ?thesis
    using vc(1) by (simp add: generateEmbeddings_def maxBatchSize_def calculateCost_def)
qed

subsection \<open>The text \<open>hello\<close>\<close>

lemma js_hello: "js ''hello'' = [104, 101, 108, 108, 111]"
  by (simp add: js_def)

lemma trim_hello: "trim [104, 101, 108, 108, 111] = [104, 101, 108, 108, 111]"
  by (simp add: trim_def is_space_def)

lemma validateAndTruncateText_hello:
  "validateAndTruncateText [104, 101, 108, 108, 111] = Inr [104, 101, 108, 108, 111]"
  by (simp add: validateAndTruncateText_def trim_hello maxInputLength_def)

lemma validateChunks_hello:
  "validateChunks [([104, 101, 108, 108, 111], k)] = [([104, 101, 108, 108, 111], k)]"
  by (simp add: validateChunks_def trim_hello validateAndTruncateText_hello)

lemma map_throwing_hello:
  "map_throwing (\<lambda>(c, i). validateAndTruncateText c) [([104, 101, 108, 108, 111], k)] =
   Inr [[104, 101, 108, 108, 111]]"
  by (simp add: validateAndTruncateText_hello)

lemma retry_trace_three:
  "retry_trace m xs rd (Suc 0) 3 =
   [ProviderCall m xs, Delay rd, ProviderCall m xs, Delay (rd * 2), ProviderCall m xs]"
  by (simp add: numeral_3_eq_3)

lemma retry_trace_two:
  "retry_trace m xs rd (Suc 0) 2 = [ProviderCall m xs, Delay rd, ProviderCall m xs]"
  by (simp add: numeral_2_eq_2)

text \<open>Two failed attempts out of two: the batch is given up.\<close>

lemma processBatch_flaky_two_attempts:
  "processBatch flaky_provider [([104, 101, 108, 108, 111], 0)] m 2 rd [] =
   (Inl (Some ''rate limit exceeded''),
    [ProviderCall m [[104, 101, 108, 108, 111]], Delay rd,
     ProviderCall m [[104, 101, 108, 108, 111]]])"
proof -
  let ?c = "ProviderCall m [[104, 101, 108, 108, 111]]"
  have a1: "processBatch_attempt flaky_provider [([104, 101, 108, 108, 111], 0)] m [] =
            (Inl ''rate limit exceeded'', [?c])"
    by (simp add: processBatch_attempt_def validateAndTruncateText_hello call_provider_def
          flaky_provider_def)
  have a2: "processBatch_attempt flaky_provider [([104, 101, 108, 108, 111], 0)] m [?c, Delay rd] =
            (Inl ''rate limit exceeded'', [?c, Delay rd, ?c])"
    by (simp add: processBatch_attempt_def validateAndTruncateText_hello call_provider_def
          flaky_provider_def)
  have "processBatch flaky_provider [([104, 101, 108, 108, 111], 0)] m 2 rd [] =
        processBatch_loop flaky_provider [([104, 101, 108, 108, 111], 0)] m 2 rd 2
          (Some ''rate limit exceeded'') [?c, Delay rd]"
    unfolding processBatch_def
    using processBatch_loop_retry[where a=1 and ra=2 and rd=rd and le=None, OF _ a1]
    by (simp add: eval_nat_numeral)
  also have "\<dots> = processBatch_loop flaky_provider [([104, 101, 108, 108, 111], 0)] m 2 rd 3
          (Some ''rate limit exceeded'') [?c, Delay rd, ?c]"
    using processBatch_loop_retry[where a=2 and ra=2 and rd=rd
        and le="Some ''rate limit exceeded''", OF _ a2]
    by (simp add: eval_nat_numeral)
  also have "\<dots> = (Inl (Some ''rate limit exceeded''), [?c, Delay rd, ?c])"
    by (subst processBatch_loop.simps) simp
  finally show ?thesis .
qed

lemma loop_state_invariant:
  "loop_state P vc bs m ra rd tr0 k = Some (i, acc, tot, tr) \<Longrightarrow>
   generateEmbeddings_loop P vc bs m ra rd 0 [] 0 tr0 =
   generateEmbeddings_loop P vc bs m ra rd i acc tot tr"
proof (induction k arbitrary: i acc tot tr)
  case 0
  then show ?case by simp
next
  case (Suc k)
  from Suc.prems obtain i' acc' tot' tr' es t tr1 where
    prev: "loop_state P vc bs m ra rd tr0 k = Some (i', acc', tot', tr')"
    and lt: "i' < length vc"
    and pb: "processBatch P (take bs (drop i' vc)) m ra rd tr' = (Inr (es, t), tr1)"
    and now: "i = i' + bs" "acc = acc' @ es" "tot = tot' + t"
      "tr = (if i' + bs < length vc then tr1 @ [Delay 100] else tr1)"
    by (auto split: option.splits if_splits prod.splits sum.splits)
  from Suc.IH[OF prev] generateEmbeddings_loop_batch_succeeds[OF lt pb, of acc' tot'] now
  show ?case by simp
qed

lemma generateEmbeddings_defaults:
  "generateEmbeddings P chunks
     \<lparr> eo_batchSize = None, eo_model = None, eo_retryAttempts = None, eo_retryDelay = None \<rparr> tr =
   generateEmbeddings P chunks
     \<lparr> eo_batchSize = Some 50, eo_model = Some defaultModel, eo_retryAttempts = Some 3,
       eo_retryDelay = Some 1000 \<rparr> tr"
  by (simp add: generateEmbeddings_def)

lemma generateEmbeddings_batch_fails:
  assumes "loop_state P (validateChunks chunks) (min b maxBatchSize) m ra rd tr k =
           Some (i, acc, tot, tr_i)"
    and "i < length (validateChunks chunks)"
    and "processBatch P (take (min b maxBatchSize) (drop i (validateChunks chunks))) m ra rd tr_i =
         (Inl e, tr1)"
  shows "generateEmbeddings P chunks
           \<lparr> eo_batchSize = Some b, eo_model = Some m, eo_retryAttempts = Some ra,
             eo_retryDelay = Some rd \<rparr> tr =
         Some (Inl (''Embedding generation failed: '' @ error_message e), tr1)"
proof -
  from assms(2) have ne: "validateChunks chunks \<noteq> []" by auto
  from loop_state_invariant[OF assms(1)] generateEmbeddings_loop_batch_fails[OF assms(2,3)]
  have "generateEmbeddings_loop P (validateChunks chunks) (min b maxBatchSize) m ra rd 0 [] 0 tr =
        Some (Inl e, tr1)" by simp
  with ne show ?thesis by (simp add: generateEmbeddings_def)
qed

lemma generateEmbeddings_all_batches_succeed:
  assumes "loop_state P (validateChunks chunks) (min b maxBatchSize) m ra rd tr k =
           Some (i, acc, tot, tr_i)"
    and "\<not> i < length (validateChunks chunks)"
    and ne: "validateChunks chunks \<noteq> []"
  shows "generateEmbeddings P chunks
           \<lparr> eo_batchSize = Some b, eo_model = Some m, eo_retryAttempts = Some ra,
             eo_retryDelay = Some rd \<rparr> tr =
         Some (Inr \<lparr> embeddings = acc, totalTokens = tot,
                     cost = calculateCost tot \<rparr>, tr_i)"
proof -
  from loop_state_invariant[OF assms(1)] generateEmbeddings_loop_done[OF assms(2)]
  have "generateEmbeddings_loop P (validateChunks chunks) (min b maxBatchSize) m ra rd 0 [] 0 tr =
        Some (Inr (acc, tot), tr_i)" by simp
  with ne show ?thesis by (simp add: generateEmbeddings_def calculateCost_def)
qed

lemma last_error_Suc:
  "last_error P model inputs c (Suc (Suc n)) = last_error P model inputs (Suc c) (Suc n)"
  by (simp add: last_error_def)

lemma processBatch_loop_all_fail:
  assumes valid: "map_throwing (\<lambda>(c, i). validateAndTruncateText c) chunks = Inr inputs"
    and "a + n = Suc ra"
    and "provider_fails P model inputs (n_calls tr) n"
  shows "processBatch_loop P chunks model ra rd a le tr =
         (Inl (if n = 0 then le else last_error P model inputs (n_calls tr) n),
          tr @ retry_trace model inputs rd a n)"
  using assms(2,3)
proof (induction n arbitrary: a le tr)
  case 0
  then have "\<not> a \<le> ra" by simp
  then show ?case by (subst processBatch_loop.simps) simp
next
  case (Suc n)
  let ?c = "ProviderCall model inputs"
  from Suc.prems(1) have le: "a \<le> ra" by simp
  from Suc.prems(2) obtain e where e: "P (n_calls tr) model inputs = Inl e"
    and rest: "provider_fails P model inputs (Suc (n_calls tr)) n"
    by (cases "P (n_calls tr) model inputs") auto
  have att: "processBatch_attempt P chunks model tr = (Inl e, tr @ [?c])"
    using valid e by (simp add: processBatch_attempt_def call_provider_def)
  let ?tr2 = "if a < ra then (tr @ [?c]) @ [Delay (rd * a)] else tr @ [?c]"
  have calls: "n_calls ?tr2 = Suc (n_calls tr)" by simp
  have step: "processBatch_loop P chunks model ra rd a le tr =
              processBatch_loop P chunks model ra rd (a + 1) (Some e) ?tr2"
    by (rule processBatch_loop_retry[OF le att])
  have "a + 1 + n = Suc ra" using Suc.prems(1) by simp
  from Suc.IH[OF this, of ?tr2 "Some e"] rest calls
  have ih: "processBatch_loop P chunks model ra rd (a + 1) (Some e) ?tr2 =
            (Inl (if n = 0 then Some e else last_error P model inputs (Suc (n_calls tr)) n),
             ?tr2 @ retry_trace model inputs rd (a + 1) n)"
    by simp
  show ?case
  proof (cases n)
    case 0
    with Suc.prems(1) have "a = ra" by simp
    with 0 step ih e show ?thesis by (simp add: last_error_def)
  next
    case (Suc n')
    with Suc.prems(1) have "a < ra" by simp
    with Suc step ih show ?thesis by (simp add: last_error_Suc)
  qed
qed

lemma processBatch_loop_first_success:
  assumes valid: "map_throwing (\<lambda>(c, i). validateAndTruncateText c) chunks = Inr inputs"
    and len: "length (data response) \<le> length chunks"
    and "a + j \<le> ra"
    and "provider_fails P model inputs (n_calls tr) j"
    and "P (n_calls tr + j) model inputs = Inr response"
  shows "processBatch_loop P chunks model ra rd a le tr =
         (Inr (map (\<lambda>(item, (c, i)).
                      \<lparr> embedding = item,
                        tokens = round_div (total_tokens response) (length chunks),
                        index = i \<rparr>)
                 (zip (data response) chunks), total_tokens response),
          tr @ retry_trace model inputs rd a (Suc j))"
  using assms(3,4,5)
proof (induction j arbitrary: a le tr)
  case 0
  let ?c = "ProviderCall model inputs"
  from 0 have le: "a \<le> ra" and ok: "P (n_calls tr) model inputs = Inr response" by simp_all
  have "processBatch_attempt P chunks model tr =
        (Inr (map (\<lambda>(item, (c, i)).
                      \<lparr> embedding = item,
                        tokens = round_div (total_tokens response) (length chunks),
                        index = i \<rparr>)
                 (zip (data response) chunks), total_tokens response), tr @ [?c])"
    using valid ok len by (simp add: processBatch_attempt_def call_provider_def)
  from processBatch_loop_success[OF le this] show ?case by simp
next
  case (Suc j)
  let ?c = "ProviderCall model inputs"
  from Suc.prems(1) have le: "a \<le> ra" and lt: "a < ra" by simp_all
  from Suc.prems(2) obtain e where e: "P (n_calls tr) model inputs = Inl e"
    and rest: "provider_fails P model inputs (Suc (n_calls tr)) j"
    by (cases "P (n_calls tr) model inputs") auto
  have att: "processBatch_attempt P chunks model tr = (Inl e, tr @ [?c])"
    using valid e by (simp add: processBatch_attempt_def call_provider_def)
  let ?tr2 = "(tr @ [?c]) @ [Delay (rd * a)]"
  have step: "processBatch_loop P chunks model ra rd a le tr =
              processBatch_loop P chunks model ra rd (a + 1) (Some e) ?tr2"
    using processBatch_loop_retry[OF le att, of rd le] lt by simp
  have "a + 1 + j \<le> ra" using Suc.prems(1) by simp
  moreover have "provider_fails P model inputs (n_calls ?tr2) j" using rest by simp
  moreover have "P (n_calls ?tr2 + j) model inputs = Inr response" using Suc.prems(3) by simp
  ultimately have "processBatch_loop P chunks model ra rd (a + 1) (Some e) ?tr2 =
         (Inr (map (\<lambda>(item, (c, i)).
                      \<lparr> embedding = item,
                        tokens = round_div (total_tokens response) (length chunks),
                        index = i \<rparr>)
                 (zip (data response) chunks), total_tokens response),
          ?tr2 @ retry_trace model inputs rd (a + 1) (Suc j))"
    by (rule Suc.IH)
  with step show ?case by simp
qed

lemma processBatch_all_fail:
  assumes "map_throwing (\<lambda>(c, i). validateAndTruncateText c) chunks = Inr inputs"
    and "provider_fails P model inputs (n_calls tr) ra"
  shows "processBatch P chunks model ra rd tr =
         (Inl (last_error P model inputs (n_calls tr) ra),
          tr @ retry_trace model inputs rd 1 ra)"
  unfolding processBatch_def
  using processBatch_loop_all_fail[OF assms(1) _ assms(2), of 1 ra rd None]
  by (simp add: last_error_def)

lemma processBatch_first_success:
  assumes "map_throwing (\<lambda>(c, i). validateAndTruncateText c) chunks = Inr inputs"
    and "provider_fails P model inputs (n_calls tr) j"
    and "j < ra"
    and "P (n_calls tr + j) model inputs = Inr response"
    and "length (data response) \<le> length chunks"
  shows "processBatch P chunks model ra rd tr =
         (Inr (map (\<lambda>(item, (c, i)).
                      \<lparr> embedding = item,
                        tokens = round_div (total_tokens response) (length chunks),
                        index = i \<rparr>)
                 (zip (data response) chunks), total_tokens response),
          tr @ retry_trace model inputs rd 1 (Suc j))"
  unfolding processBatch_def
  using processBatch_loop_first_success[OF assms(1,5) _ assms(2,4), of 1 ra rd None] assms(3)
  by simp

lemma generateEmbeddings_batch_exhausted:
  assumes ls: "loop_state P (validateChunks chunks) (min b maxBatchSize) m ra rd tr k =
           Some (i, acc, tot, tr_i)"
    and lt: "i < length (validateChunks chunks)"
    and valid: "map_throwing (\<lambda>(c, i). validateAndTruncateText c)
            (take (min b maxBatchSize) (drop i (validateChunks chunks))) = Inr inputs"
    and fails: "provider_fails P m inputs (n_calls tr_i) ra"
  shows "generateEmbeddings P chunks
           \<lparr> eo_batchSize = Some b, eo_model = Some m, eo_retryAttempts = Some ra,
             eo_retryDelay = Some rd \<rparr> tr =
         Some (Inl (''Embedding generation failed: '' @
                    error_message (last_error P m inputs (n_calls tr_i) ra)),
               tr_i @ retry_trace m inputs rd 1 ra)"
  using generateEmbeddings_batch_fails[OF ls lt processBatch_all_fail[OF valid fails]] .

text \<open>
  C4. A batch call on validated inputs, seen from the provider's side.
  (1) It makes at most \<open>retryAttempts\<close> attempts, each one provider call with the same
  inputs, with a delay of \<open>retryDelay * k\<close> after failed attempt \<open>k\<close> when another attempt
  follows; when it fails, all \<open>retryAttempts\<close> attempts were made.
  (2) When the provider throws on each of the \<open>retryAttempts\<close> calls, the batch call
  throws the last error after exactly these attempts and delays.
  (3) When the provider throws on the first \<open>j < retryAttempts\<close> calls and answers the
  next one, the batch call returns that answer's embeddings and token count after
  \<open>j + 1\<close> attempts.
  (4) When, after any number of successful batches, the provider throws on each of the
  \<open>retryAttempts\<close> calls for the batch that the loop of \<open>generateEmbeddings\<close> has
  reached, the whole call throws \<open>Embedding generation failed: ...\<close> with the last
  error: the embeddings and token counts of the earlier batches are not returned.
  (5) When every batch has succeeded the call returns the embeddings of all batches, the
  sum of their token counts and \<open>calculateCost\<close> of that sum.
  (6) With \<open>retryAttempts = 3\<close>, a provider that throws twice and then answers gives a
  successful result whose token count is the provider's, after delays of \<open>retryDelay\<close>
  and \<open>2 * retryDelay\<close>.
  (7) Without options the call runs with batch size 50, three attempts and a retry delay
  of 1000 ms.
\<close>

theorem generateEmbeddings_retry:
  "(map_throwing (\<lambda>(c, i). validateAndTruncateText c) batch = Inr inputs \<longrightarrow>
    processBatch P batch m ra rd tr = (res, tr') \<longrightarrow>
    (\<exists>n. n \<le> ra \<and> tr' = tr @ retry_trace m inputs rd 1 n \<and>
         (case res of Inl e \<Rightarrow> n = ra | Inr r \<Rightarrow> 0 < n))) \<and>
   (map_throwing (\<lambda>(c, i). validateAndTruncateText c) batch = Inr inputs \<longrightarrow>
    provider_fails P m inputs (n_calls tr) ra \<longrightarrow>
    processBatch P batch m ra rd tr =
      (Inl (last_error P m inputs (n_calls tr) ra), tr @ retry_trace m inputs rd 1 ra)) \<and>
   (map_throwing (\<lambda>(c, i). validateAndTruncateText c) batch = Inr inputs \<longrightarrow>
    provider_fails P m inputs (n_calls tr) j \<longrightarrow> j < ra \<longrightarrow>
    P (n_calls tr + j) m inputs = Inr response \<longrightarrow>
    length (data response) \<le> length batch \<longrightarrow>
    processBatch P batch m ra rd tr =
      (Inr (map (\<lambda>(item, (c, i)).
                   \<lparr> embedding = item,
                     tokens = round_div (total_tokens response) (length batch),
                     index = i \<rparr>)
              (zip (data response) batch), total_tokens response),
       tr @ retry_trace m inputs rd 1 (Suc j))) \<and>
   (loop_state P (validateChunks chunks) (min b maxBatchSize) m ra rd tr k =
      Some (i, acc, tot, tr_i) \<longrightarrow>
    i < length (validateChunks chunks) \<longrightarrow>
    map_throwing (\<lambda>(c, i). validateAndTruncateText c)
      (take (min b maxBatchSize) (drop i (validateChunks chunks))) = Inr inputs \<longrightarrow>
    provider_fails P m inputs (n_calls tr_i) ra \<longrightarrow>
    generateEmbeddings P chunks
      \<lparr> eo_batchSize = Some b, eo_model = Some m, eo_retryAttempts = Some ra,
        eo_retryDelay = Some rd \<rparr> tr =
    Some (Inl (''Embedding generation failed: '' @
               error_message (last_error P m inputs (n_calls tr_i) ra)),
          tr_i @ retry_trace m inputs rd 1 ra)) \<and>
   (loop_state P (validateChunks chunks) (min b maxBatchSize) m ra rd tr k =
      Some (i, acc, tot, tr_i) \<longrightarrow>
    \<not> i < length (validateChunks chunks) \<longrightarrow> validateChunks chunks \<noteq> [] \<longrightarrow>
    generateEmbeddings P chunks
      \<lparr> eo_batchSize = Some b, eo_model = Some m, eo_retryAttempts = Some ra,
        eo_retryDelay = Some rd \<rparr> tr =
    Some (Inr \<lparr> embeddings = acc, totalTokens = tot, cost = calculateCost tot \<rparr>, tr_i)) \<and>
   (validateChunks chunks \<noteq> [] \<longrightarrow> length (validateChunks chunks) \<le> 50 \<longrightarrow>
    map_throwing (\<lambda>(c, i). validateAndTruncateText c) (validateChunks chunks) = Inr inputs \<longrightarrow>
    P (n_calls tr) m inputs = Inl e1 \<longrightarrow>
    P (Suc (n_calls tr)) m inputs = Inl e2 \<longrightarrow>
    P (Suc (Suc (n_calls tr))) m inputs = Inr response \<longrightarrow>
    length (data response) \<le> length (validateChunks chunks) \<longrightarrow>
    generateEmbeddings P chunks
      \<lparr> eo_batchSize = None, eo_model = Some m, eo_retryAttempts = Some 3,
        eo_retryDelay = Some rd \<rparr> tr =
    Some (Inr \<lparr> embeddings =
                  map (\<lambda>(item, (c, i)).
                         \<lparr> embedding = item,
                           tokens = round_div (total_tokens response)
                                      (length (validateChunks chunks)),
                           index = i \<rparr>)
                    (zip (data response) (validateChunks chunks)),
                totalTokens = total_tokens response,
                cost = calculateCost (total_tokens response) \<rparr>,
          tr @ retry_trace m inputs rd 1 3)) \<and>
   generateEmbeddings P chunks
     \<lparr> eo_batchSize = None, eo_model = None, eo_retryAttempts = None, eo_retryDelay = None \<rparr> tr =
   generateEmbeddings P chunks
     \<lparr> eo_batchSize = Some 50, eo_model = Some defaultModel, eo_retryAttempts = Some 3,
       eo_retryDelay = Some 1000 \<rparr> tr"
proof (intro conjI impI)
  assume "map_throwing (\<lambda>(c, i). validateAndTruncateText c) batch = Inr inputs"
    and "processBatch P batch m ra rd tr = (res, tr')"
  then show "\<exists>n. n \<le> ra \<and> tr' = tr @ retry_trace m inputs rd 1 n \<and>
         (case res of Inl e \<Rightarrow> n = ra | Inr r \<Rightarrow> 0 < n)"
    using processBatch_loop_trace[of batch inputs P m ra rd 1 None tr res tr']
    by (auto simp: processBatch_def split: sum.splits)
next
  assume "map_throwing (\<lambda>(c, i). validateAndTruncateText c) batch = Inr inputs"
    and "provider_fails P m inputs (n_calls tr) ra"
  then show "processBatch P batch m ra rd tr =
      (Inl (last_error P m inputs (n_calls tr) ra), tr @ retry_trace m inputs rd 1 ra)"
    by (rule processBatch_all_fail)
next
  assume "map_throwing (\<lambda>(c, i). validateAndTruncateText c) batch = Inr inputs"
    and "provider_fails P m inputs (n_calls tr) j" and "j < ra"
    and "P (n_calls tr + j) m inputs = Inr response"
    and "length (data response) \<le> length batch"
  then show "processBatch P batch m ra rd tr =
      (Inr (map (\<lambda>(item, (c, i)).
                   \<lparr> embedding = item,
                     tokens = round_div (total_tokens response) (length batch),
                     index = i \<rparr>)
              (zip (data response) batch), total_tokens response),
       tr @ retry_trace m inputs rd 1 (Suc j))"
    by (rule processBatch_first_success)
next
  assume "loop_state P (validateChunks chunks) (min b maxBatchSize) m ra rd tr k =
      Some (i, acc, tot, tr_i)" "i < length (validateChunks chunks)"
    "map_throwing (\<lambda>(c, i). validateAndTruncateText c)
      (take (min b maxBatchSize) (drop i (validateChunks chunks))) = Inr inputs"
    "provider_fails P m inputs (n_calls tr_i) ra"
  then show "generateEmbeddings P chunks
      \<lparr> eo_batchSize = Some b, eo_model = Some m, eo_retryAttempts = Some ra,
        eo_retryDelay = Some rd \<rparr> tr =
    Some (Inl (''Embedding generation failed: '' @
               error_message (last_error P m inputs (n_calls tr_i) ra)),
          tr_i @ retry_trace m inputs rd 1 ra)"
    by (rule generateEmbeddings_batch_exhausted)
next
  assume "loop_state P (validateChunks chunks) (min b maxBatchSize) m ra rd tr k =
      Some (i, acc, tot, tr_i)" "\<not> i < length (validateChunks chunks)"
    "validateChunks chunks \<noteq> []"
  then show "generateEmbeddings P chunks
      \<lparr> eo_batchSize = Some b, eo_model = Some m, eo_retryAttempts = Some ra,
        eo_retryDelay = Some rd \<rparr> tr =
    Some (Inr \<lparr> embeddings = acc, totalTokens = tot, cost = calculateCost tot \<rparr>, tr_i)"
    by (rule generateEmbeddings_all_batches_succeed)
next
  assume "validateChunks chunks \<noteq> []" "length (validateChunks chunks) \<le> 50"
    "map_throwing (\<lambda>(c, i). validateAndTruncateText c) (validateChunks chunks) = Inr inputs"
    "P (n_calls tr) m inputs = Inl e1"
    "P (Suc (n_calls tr)) m inputs = Inl e2"
    "P (Suc (Suc (n_calls tr))) m inputs = Inr response"
    "length (data response) \<le> length (validateChunks chunks)"
  then show "generateEmbeddings P chunks
      \<lparr> eo_batchSize = None, eo_model = Some m, eo_retryAttempts = Some 3,
        eo_retryDelay = Some rd \<rparr> tr =
    Some (Inr \<lparr> embeddings =
                  map (\<lambda>(item, (c, i)).
                         \<lparr> embedding = item,
                           tokens = round_div (total_tokens response)
                                      (length (validateChunks chunks)),
                           index = i \<rparr>)
                    (zip (data response) (validateChunks chunks)),
                totalTokens = total_tokens response,
                cost = calculateCost (total_tokens response) \<rparr>,
          tr @ retry_trace m inputs rd 1 3)"
    by (rule generateEmbeddings_third_attempt)
next
  show "generateEmbeddings P chunks
     \<lparr> eo_batchSize = None, eo_model = None, eo_retryAttempts = None, eo_retryDelay = None \<rparr> tr =
   generateEmbeddings P chunks
     \<lparr> eo_batchSize = Some 50, eo_model = Some defaultModel, eo_retryAttempts = Some 3,
       eo_retryDelay = Some 1000 \<rparr> tr"
    by (rule generateEmbeddings_defaults)
qed

subsection \<open>Runs on one and on two chunks\<close>

lemma validateChunks_hello2:
  "validateChunks [([104, 101, 108, 108, 111], k), ([104, 101, 108, 108, 111], l)] =
   [([104, 101, 108, 108, 111], k), ([104, 101, 108, 108, 111], l)]"
  by (simp add: validateChunks_def trim_hello validateAndTruncateText_hello)

lemma processBatch_steady_hello:
  "processBatch steady_provider [([104, 101, 108, 108, 111], k)] m 3 rd tr =
   (Inr ([\<lparr> embedding = [1], tokens = 1000, index = k \<rparr>], 1000),
    tr @ [ProviderCall m [[104, 101, 108, 108, 111]]])"
proof -
  have att: "processBatch_attempt steady_provider [([104, 101, 108, 108, 111], k)] m tr =
             (Inr ([\<lparr> embedding = [1], tokens = 1000, index = k \<rparr>], 1000),
              tr @ [ProviderCall m [[104, 101, 108, 108, 111]]])"
    by (simp add: processBatch_attempt_def validateAndTruncateText_hello call_provider_def
          steady_provider_def round_div_def)
  show ?thesis
    unfolding processBatch_def
    using processBatch_loop_success[where a=1 and ra=3, OF _ att] by simp
qed

lemma processBatch_once_first:
  "processBatch once_provider [([104, 101, 108, 108, 111], k)] m (Suc 0) rd [] =
   (Inr ([\<lparr> embedding = [1], tokens = 7, index = k \<rparr>], 7),
    [ProviderCall m [[104, 101, 108, 108, 111]]])"
proof -
  have att: "processBatch_attempt once_provider [([104, 101, 108, 108, 111], k)] m [] =
             (Inr ([\<lparr> embedding = [1], tokens = 7, index = k \<rparr>], 7),
              [ProviderCall m [[104, 101, 108, 108, 111]]])"
    by (simp add: processBatch_attempt_def validateAndTruncateText_hello call_provider_def
          once_provider_def round_div_def)
  show ?thesis
    unfolding processBatch_def
    using processBatch_loop_success[where a=1 and ra=1, OF _ att] by simp
qed

lemma processBatch_once_second:
  "processBatch once_provider [([104, 101, 108, 108, 111], k)] m (Suc 0) rd
     [ProviderCall m [[104, 101, 108, 108, 111]], Delay 100] =
   (Inl (Some ''rate limit exceeded''),
    [ProviderCall m [[104, 101, 108, 108, 111]], Delay 100,
     ProviderCall m [[104, 101, 108, 108, 111]]])"
proof -
  let ?c = "ProviderCall m [[104, 101, 108, 108, 111]]"
  have att: "processBatch_attempt once_provider [([104, 101, 108, 108, 111], k)] m [?c, Delay 100] =
             (Inl ''rate limit exceeded'', [?c, Delay 100, ?c])"
    by (simp add: processBatch_attempt_def validateAndTruncateText_hello call_provider_def
          once_provider_def)
  have "processBatch once_provider [([104, 101, 108, 108, 111], k)] m (Suc 0) rd [?c, Delay 100] =
        processBatch_loop once_provider [([104, 101, 108, 108, 111], k)] m (Suc 0) rd 2
          (Some ''rate limit exceeded'') [?c, Delay 100, ?c]"
    unfolding processBatch_def
    using processBatch_loop_retry[where a=1 and ra=1 and rd=rd and le=None, OF _ att]
    by (simp add: eval_nat_numeral)
  also have "\<dots> = (Inl (Some ''rate limit exceeded''), [?c, Delay 100, ?c])"
    by (subst processBatch_loop.simps) simp
  finally show ?thesis .
qed

lemma processBatch_once_first_of_two:
  "processBatch once_provider [([104, 101, 108, 108, 111], k)] m 2 rd [] =
   (Inr ([\<lparr> embedding = [1], tokens = 7, index = k \<rparr>], 7),
    [ProviderCall m [[104, 101, 108, 108, 111]]])"
proof -
  have att: "processBatch_attempt once_provider [([104, 101, 108, 108, 111], k)] m [] =
             (Inr ([\<lparr> embedding = [1], tokens = 7, index = k \<rparr>], 7),
              [ProviderCall m [[104, 101, 108, 108, 111]]])"
    by (simp add: processBatch_attempt_def validateAndTruncateText_hello call_provider_def
          once_provider_def round_div_def)
  show ?thesis
    unfolding processBatch_def
    using processBatch_loop_success[where a=1 and ra=2, OF _ att] by simp
qed

theorem generateEmbeddings_retry_witness:
  "(\<exists>n. n \<le> 2 \<and>
        [ProviderCall defaultModel [js ''hello''], Delay 1000,
         ProviderCall defaultModel [js ''hello'']] =
        [] @ retry_trace defaultModel [js ''hello''] 1000 1 n \<and> n = 2) \<and>
   provider_fails flaky_provider defaultModel [js ''hello''] 0 2 \<and>
   processBatch flaky_provider [(js ''hello'', 0)] defaultModel 2 1000 [] =
     (Inl (Some ''rate limit exceeded''),
      [ProviderCall defaultModel [js ''hello''], Delay 1000,
       ProviderCall defaultModel [js ''hello'']]) \<and>
   processBatch flaky_provider [(js ''hello'', 0)] defaultModel 5 1000 [] =
     (Inr ([\<lparr> embedding = [1], tokens = 7, index = 0 \<rparr>], 7),
      [ProviderCall defaultModel [js ''hello''], Delay 1000,
       ProviderCall defaultModel [js ''hello''], Delay 2000,
       ProviderCall defaultModel [js ''hello'']]) \<and>
   provider_fails once_provider defaultModel [js ''hello''] 1 2 \<and>
   generateEmbeddings once_provider [(js ''hello'', 0), (js ''hello'', 1)]
     \<lparr> eo_batchSize = Some 1, eo_model = Some defaultModel, eo_retryAttempts = Some 2,
       eo_retryDelay = Some 1000 \<rparr> [] =
     Some (Inl ''Embedding generation failed: rate limit exceeded'',
           [ProviderCall defaultModel [js ''hello''], Delay 100,
            ProviderCall defaultModel [js ''hello''], Delay 1000,
            ProviderCall defaultModel [js ''hello'']]) \<and>
   generateEmbeddings steady_provider [(js ''hello'', 0), (js ''hello'', 1)]
     \<lparr> eo_batchSize = Some 1, eo_model = Some defaultModel, eo_retryAttempts = Some 3,
       eo_retryDelay = Some 1000 \<rparr> [] =
     Some (Inr \<lparr> embeddings = [\<lparr> embedding = [1], tokens = 1000, index = 0 \<rparr>,
                               \<lparr> embedding = [1], tokens = 1000, index = 1 \<rparr>],
                 totalTokens = 2000, cost = calculateCost 2000 \<rparr>,
           [ProviderCall defaultModel [js ''hello''], Delay 100,
            ProviderCall defaultModel [js ''hello'']]) \<and>
   generateEmbeddings flaky_provider [(js ''hello'', 0)]
     \<lparr> eo_batchSize = None, eo_model = Some defaultModel, eo_retryAttempts = Some 3,
       eo_retryDelay = Some 1000 \<rparr> [] =
     Some (Inr \<lparr> embeddings = [\<lparr> embedding = [1], tokens = 7, index = 0 \<rparr>],
                 totalTokens = 7, cost = calculateCost 7 \<rparr>,
           [ProviderCall defaultModel [js ''hello''], Delay 1000,
            ProviderCall defaultModel [js ''hello''], Delay 2000,
            ProviderCall defaultModel [js ''hello'']])"
proof -
  let ?h = "[104, 101, 108, 108, 111] :: jsstring"
  let ?c = "ProviderCall defaultModel [?h]"
  let ?e0 = "\<lparr> embedding = [1], tokens = 7, index = 0 \<rparr>"
  let ?s0 = "\<lparr> embedding = [1], tokens = 1000, index = 0 \<rparr>"
  let ?s1 = "\<lparr> embedding = [1], tokens = 1000, index = 1 \<rparr>"
  let ?resp = "\<lparr> data = [[1]], total_tokens = 7 \<rparr>"
  have pb: "processBatch flaky_provider [(?h, 0)] defaultModel 2 1000 [] =
            (Inl (Some ''rate limit exceeded''), [?c, Delay 1000, ?c])"
    by (rule processBatch_flaky_two_attempts)
  have c1: "\<exists>n. n \<le> 2 \<and> [?c, Delay 1000, ?c] = [] @ retry_trace defaultModel [?h] 1000 1 n \<and> n = 2"
    using generateEmbeddings_retry[where batch="[(?h, 0)]" and inputs="[?h]"
        and P=flaky_provider and m=defaultModel and ra=2 and rd=1000 and tr="[]"
        and res="Inl (Some ''rate limit exceeded'')" and tr'="[?c, Delay 1000, ?c]",
        THEN conjunct1, rule_format, OF map_throwing_hello pb]
    by (simp add: retry_trace_two)
  have pf2: "provider_fails flaky_provider defaultModel [?h] (n_calls []) 2"
    by (simp add: numeral_2_eq_2 flaky_provider_def)
  have c2: "processBatch flaky_provider [(?h, 0)] defaultModel 2 1000 [] =
            (Inl (Some ''rate limit exceeded''), [?c, Delay 1000, ?c])"
    using generateEmbeddings_retry[where batch="[(?h, 0)]" and inputs="[?h]"
        and P=flaky_provider and m=defaultModel and ra=2 and rd=1000 and tr="[]",
        THEN conjunct2, THEN conjunct1, rule_format, OF map_throwing_hello pf2]
    by (simp add: retry_trace_two last_error_def flaky_provider_def)
  have ok5: "flaky_provider (n_calls [] + 2) defaultModel [?h] = Inr ?resp"
    by (simp add: flaky_provider_def)
  have len5: "length (data ?resp) \<le> length [(?h, 0 :: nat)]" by simp
  have c3: "processBatch flaky_provider [(?h, 0)] defaultModel 5 1000 [] =
            (Inr ([?e0], 7), [?c, Delay 1000, ?c, Delay 2000, ?c])"
    using generateEmbeddings_retry[where batch="[(?h, 0)]" and inputs="[?h]"
        and P=flaky_provider and m=defaultModel and ra=5 and rd=1000 and tr="[]" and j=2
        and response="?resp",
        THEN conjunct2, THEN conjunct2, THEN conjunct1, rule_format,
        OF map_throwing_hello pf2 _ ok5 len5]
    by (simp add: retry_trace_three round_div_def numeral_3_eq_3[symmetric])
  have ls2: "loop_state once_provider (validateChunks [(?h, 0), (?h, 1)]) (min 1 maxBatchSize)
               defaultModel 2 1000 [] 1 = Some (1, [?e0], 7, [?c, Delay 100])"
    by (simp add: validateChunks_hello2 maxBatchSize_def processBatch_once_first_of_two)
  have lt2: "1 < length (validateChunks [(?h, 0), (?h, 1)])"
    by (simp add: validateChunks_hello2)
  have v2: "map_throwing (\<lambda>(c, i). validateAndTruncateText c)
              (take (min 1 maxBatchSize) (drop 1 (validateChunks [(?h, 0), (?h, 1)]))) = Inr [?h]"
    by (simp add: validateChunks_hello2 maxBatchSize_def validateAndTruncateText_hello)
  have pf1: "provider_fails once_provider defaultModel [?h] (n_calls [?c, Delay 100]) 2"
    by (simp add: numeral_2_eq_2 once_provider_def)
  have c4: "generateEmbeddings once_provider [(?h, 0), (?h, 1)]
     \<lparr> eo_batchSize = Some 1, eo_model = Some defaultModel, eo_retryAttempts = Some 2,
       eo_retryDelay = Some 1000 \<rparr> [] =
     Some (Inl ''Embedding generation failed: rate limit exceeded'',
           [?c, Delay 100, ?c, Delay 1000, ?c])"
    using generateEmbeddings_retry[where P=once_provider and chunks="[(?h, 0), (?h, 1)]"
        and b=1 and m=defaultModel and ra=2 and rd=1000 and tr="[]" and k=1 and i=1
        and acc="[?e0]" and tot=7 and tr_i="[?c, Delay 100]" and inputs="[?h]",
        THEN conjunct2, THEN conjunct2, THEN conjunct2, THEN conjunct1, rule_format,
        OF ls2 lt2 v2 pf1]
    by (simp add: error_message_def last_error_def once_provider_def retry_trace_two)
  have ls3: "loop_state steady_provider (validateChunks [(?h, 0), (?h, 1)]) (min 1 maxBatchSize)
               defaultModel 3 1000 [] 2 = Some (2, [?s0, ?s1], 2000, [?c, Delay 100, ?c])"
    by (simp add: validateChunks_hello2 maxBatchSize_def processBatch_steady_hello
          numeral_2_eq_2)
  have ge3: "\<not> 2 < length (validateChunks [(?h, 0), (?h, 1)])"
    and ne3: "validateChunks [(?h, 0), (?h, 1)] \<noteq> []"
    by (simp_all add: validateChunks_hello2)
  have c5: "generateEmbeddings steady_provider [(?h, 0), (?h, 1)]
     \<lparr> eo_batchSize = Some 1, eo_model = Some defaultModel, eo_retryAttempts = Some 3,
       eo_retryDelay = Some 1000 \<rparr> [] =
     Some (Inr \<lparr> embeddings = [?s0, ?s1], totalTokens = 2000, cost = calculateCost 2000 \<rparr>,
           [?c, Delay 100, ?c])"
    using generateEmbeddings_retry[where P=steady_provider and chunks="[(?h, 0), (?h, 1)]"
        and b=1 and m=defaultModel and ra=3 and rd=1000 and tr="[]" and k=2 and i=2
        and acc="[?s0, ?s1]" and tot=2000 and tr_i="[?c, Delay 100, ?c]",
        THEN conjunct2, THEN conjunct2, THEN conjunct2, THEN conjunct2, THEN conjunct1,
        rule_format, OF ls3 ge3 ne3]
    by simp
  have v1: "validateChunks [(?h, 0)] \<noteq> []" and v2': "length (validateChunks [(?h, 0)]) \<le> 50"
    by (simp_all add: validateChunks_hello)
  have v3: "map_throwing (\<lambda>(c, i). validateAndTruncateText c) (validateChunks [(?h, 0)]) = Inr [?h]"
    by (simp only: validateChunks_hello map_throwing_hello)
  have f1: "flaky_provider (n_calls []) defaultModel [?h] = Inl ''rate limit exceeded''"
    and f2: "flaky_provider (Suc (n_calls [])) defaultModel [?h] = Inl ''rate limit exceeded''"
    and ok: "flaky_provider (Suc (Suc (n_calls []))) defaultModel [?h] = Inr ?resp"
    by (simp_all add: flaky_provider_def)
  have len: "length (data ?resp) \<le> length (validateChunks [(?h, 0)])"
    by (simp add: validateChunks_hello)
  have c6: "generateEmbeddings flaky_provider [(?h, 0)]
     \<lparr> eo_batchSize = None, eo_model = Some defaultModel, eo_retryAttempts = Some 3,
       eo_retryDelay = Some 1000 \<rparr> [] =
     Some (Inr \<lparr> embeddings = [?e0], totalTokens = 7, cost = calculateCost 7 \<rparr>,
           [?c, Delay 1000, ?c, Delay 2000, ?c])"
    using generateEmbeddings_retry[where P=flaky_provider and chunks="[(?h, 0)]"
        and inputs="[?h]" and m=defaultModel and rd=1000 and tr="[]"
        and ?e1.0="''rate limit exceeded''" and ?e2.0="''rate limit exceeded''"
        and response="?resp",
        THEN conjunct2, THEN conjunct2, THEN conjunct2, THEN conjunct2, THEN conjunct2,
        THEN conjunct1, rule_format, OF v1 v2' v3 f1 f2 ok len]
    by (simp add: validateChunks_hello round_div_def retry_trace_three)
  have pf2': "provider_fails flaky_provider defaultModel [?h] 0 2" using pf2 by simp
  have pf1': "provider_fails once_provider defaultModel [?h] 1 2" using pf1 by simp
  show ?thesis
    using c1 c2 c3 c4 c5 c6 pf2' pf1' by (simp only: js_hello)
qed

lemma generateEmbeddings_steady_hello:
  "generateEmbeddings steady_provider [(js ''hello'', 0)]
     \<lparr> eo_batchSize = None, eo_model = Some m, eo_retryAttempts = None,
       eo_retryDelay = None \<rparr> [] =
   Some (Inr \<lparr> embeddings = [\<lparr> embedding = [1], tokens = 1000, index = 0 \<rparr>],
               totalTokens = 1000, cost = calculateCost 1000 \<rparr>,
         [ProviderCall m [js ''hello'']])"
proof -
  let ?h = "[104, 101, 108, 108, 111] :: jsstring"
  have att: "processBatch_attempt steady_provider [(?h, 0)] m [] =
             (Inr ([\<lparr> embedding = [1], tokens = 1000, index = 0 \<rparr>], 1000), [ProviderCall m [?h]])"
    by (simp add: processBatch_attempt_def validateAndTruncateText_hello call_provider_def
          steady_provider_def round_div_def)
  have pb: "processBatch steady_provider (take 50 (drop 0 [(?h, 0)])) m 3 1000 [] =
            (Inr ([\<lparr> embedding = [1], tokens = 1000, index = 0 \<rparr>], 1000), [ProviderCall m [?h]])"
    unfolding processBatch_def
    using processBatch_loop_success[where a=1 and ra=3, OF _ att] by simp
  have "generateEmbeddings_loop steady_provider [(?h, 0)] 50 m 3 1000 0 [] 0 [] =
        Some (Inr ([\<lparr> embedding = [1], tokens = 1000, index = 0 \<rparr>], 1000), [ProviderCall m [?h]])"
    using generateEmbeddings_loop_batch_succeeds[OF _ pb, of "[]" 0]
    by (simp add: generateEmbeddings_loop_done)
  then show ?thesis
    by (simp add: generateEmbeddings_def js_hello validateChunks_hello maxBatchSize_def)
qed

lemma calculateCost_eq_0_iff: "calculateCost toks = 0 \<longleftrightarrow> toks = 0"
  by (simp add: calculateCost_def costPerToken_def)

lemma generateEmbeddings_cost_any_model:
  "generateEmbeddings P chunks options tr = Some (Inr r, tr') \<Longrightarrow>
   cost r = calculateCost (totalTokens r)"
  by (auto simp: generateEmbeddings_def Let_def
      split: if_splits option.splits sum.splits prod.splits)

text \<open>
  C7. The claim asks for a per-token rate keyed by the model and for a cost estimate of
  zero under a model name that the service does not know. \<open>calculateCost\<close> takes the token
  count only, so every model gets the one rate \<open>costPerToken\<close>: the model name
  \<open>my-custom-model\<close> is none of \<open>getAvailableModels\<close>, the provider reports 1000 tokens,
  and the call succeeds with the cost \<open>calculateCost 1000\<close>, which is not zero; the same
  call under the default model returns the same cost. The chat service does what the claim
  says: its \<open>calculateCost\<close> has no rates for this model name and returns zero.
\<close>

theorem generateEmbeddings_unknown_model_cost:
  "''my-custom-model'' \<notin> set getAvailableModels \<and>
   generateEmbeddings steady_provider [(js ''hello'', 0)]
     \<lparr> eo_batchSize = None, eo_model = Some ''my-custom-model'', eo_retryAttempts = None,
       eo_retryDelay = None \<rparr> [] =
   Some (Inr \<lparr> embeddings = [\<lparr> embedding = [1], tokens = 1000, index = 0 \<rparr>],
               totalTokens = 1000, cost = calculateCost 1000 \<rparr>,
         [ProviderCall ''my-custom-model'' [js ''hello'']]) \<and>
   calculateCost 1000 \<noteq> 0 \<and>
   defaultModel \<in> set getAvailableModels \<and>
   generateEmbeddings steady_provider [(js ''hello'', 0)]
     \<lparr> eo_batchSize = None, eo_model = Some defaultModel, eo_retryAttempts = None,
       eo_retryDelay = None \<rparr> [] =
   Some (Inr \<lparr> embeddings = [\<lparr> embedding = [1], tokens = 1000, index = 0 \<rparr>],
               totalTokens = 1000, cost = calculateCost 1000 \<rparr>,
         [ProviderCall defaultModel [js ''hello'']]) \<and>
   llm_costPerToken ''my-custom-model'' = None \<and>
   llm_calculateCost ''my-custom-model'' 1000 0 = Some 0"
  by (simp add: generateEmbeddings_steady_hello getAvailableModels_def defaultModel_def
        calculateCost_eq_0_iff llm_calculateCost_def llm_costPerToken_def
        object_prototype_properties_def)

section \<open>Properties of the document service\<close>

subsection \<open>The pipeline always returns\<close>

lemma generateEmbeddings_loop_returns:
  assumes "0 < bs"
  shows "\<exists>r. generateEmbeddings_loop P vc bs m ra rd i acc tot tr = Some r"
proof (induction "length vc - i" arbitrary: i acc tot tr rule: less_induct)
  case less
  show ?case
  proof (cases "i < length vc")
    case False
    then show ?thesis by (simp add: generateEmbeddings_loop_done)
  next
    case True
    obtain res tr1 where pb: "processBatch P (take bs (drop i vc)) m ra rd tr = (res, tr1)"
      by (cases "processBatch P (take bs (drop i vc)) m ra rd tr")
    show ?thesis
    proof (cases res)
      case (Inl e)
      with generateEmbeddings_loop_batch_fails[OF True] pb show ?thesis by simp
    next
      case (Inr r)
      obtain es t where r: "r = (es, t)" by (cases r)
      have "length vc - (i + bs) < length vc - i" using True assms by simp
      from less[OF this] generateEmbeddings_loop_batch_succeeds[OF True, of P bs m ra rd tr es t tr1 acc tot]
        pb Inr r
      show ?thesis by simp
    qed
  qed
qed

lemma generateEmbeddings_returns:
  "eo_batchSize options \<noteq> Some 0 \<Longrightarrow> \<exists>r. generateEmbeddings P chunks options tr = Some r"
proof -
  assume a: "eo_batchSize options \<noteq> Some 0"
  let ?bs = "min (case eo_batchSize options of None \<Rightarrow> 50 | Some v \<Rightarrow> v) maxBatchSize"
  have "0 < ?bs" using a by (auto simp: maxBatchSize_def split: option.splits)
  from generateEmbeddings_loop_returns[OF this]
  obtain r where "generateEmbeddings_loop P (validateChunks chunks) ?bs
      (case eo_model options of None \<Rightarrow> defaultModel | Some v \<Rightarrow> v)
      (case eo_retryAttempts options of None \<Rightarrow> 3 | Some v \<Rightarrow> v)
      (case eo_retryDelay options of None \<Rightarrow> 1000 | Some v \<Rightarrow> v) 0 [] 0 tr = Some r"
    by blast
  then show ?thesis
    by (cases r) (auto simp: generateEmbeddings_def Let_def split: sum.splits prod.splits)
qed

lemma generateEmbeddings_defaults_return [simp]:
  "generateEmbeddings P chunks no_embedding_options tr \<noteq> None"
  using generateEmbeddings_returns[of no_embedding_options P chunks tr]
  by (auto simp: no_embedding_options_def)

lemma processDocument_pipeline_returns [simp]:
  "processDocument_pipeline E document filePath mimeType options db tr \<noteq> None"
  unfolding processDocument_pipeline_def Let_def
  by (auto split: sum.splits option.splits prod.splits)

lemma processDocument_returns:
  "processDocument E filePath originalName userId mimeType fileSize title options db tr \<noteq> None"
  unfolding processDocument_def
  by (auto split: sum.splits option.splits prod.splits)


subsection \<open>Database operations\<close>

lemma update_document_simps [simp]:
  "documents (update_document i f db) = map (\<lambda>d. if d_id d = i then f d else d) (documents db)"
  "document_chunks (update_document i f db) = document_chunks db"
  "next_id (update_document i f db) = next_id db"
  by (simp_all add: update_document_def)

lemma update_chunk_simps [simp]:
  "documents (update_chunk i f db) = documents db"
  "document_chunks (update_chunk i f db) =
     map (\<lambda>c. if dc_id c = i then f c else c) (document_chunks db)"
  "next_id (update_chunk i f db) = next_id db"
  by (simp_all add: update_chunk_def)

lemma batchInsert_chunks_simps [simp]:
  "documents (batchInsert_chunks rows db) = documents db"
  "document_chunks (batchInsert_chunks rows db) =
     document_chunks db @ map_index (\<lambda>r k. r\<lparr>dc_id := next_id db + k\<rparr>) rows"
  "next_id (batchInsert_chunks rows db) = next_id db + length rows"
  by (simp_all add: batchInsert_chunks_def)

lemma createDocumentRecord_simps:
  "createDocumentRecord E filePath originalName userId mimeType fileSize contentHash title db =
     (document, db1) \<Longrightarrow>
   d_id document = next_id db \<and> d_user_id document = userId \<and>
   d_content_hash document = contentHash \<and> d_processing_status document = pending \<and>
   d_chunk_count document = 0 \<and>
   documents db1 = documents db @ [document] \<and> document_chunks db1 = document_chunks db \<and>
   next_id db1 = Suc (next_id db)"
  by (auto simp: createDocumentRecord_def insert_document_def Let_def)

lemma map_index_map: "map_index f (map g xs) = map_index (\<lambda>x. f (g x)) xs"
  by (simp add: map_index_def zip_map1 case_prod_unfold)

lemma map_map_index: "map h (map_index f xs) = map_index (\<lambda>x k. h (f x k)) xs"
  by (simp add: map_index_def case_prod_unfold)

lemma map_fst_zip_eq: "length xs = length ys \<Longrightarrow> map (\<lambda>p. f (fst p)) (zip xs ys) = map f xs"
  by (induction xs ys rule: list_induct2) auto

lemma map_index_no_index: "map_index (\<lambda>x k. f x) xs = map f xs"
  by (simp add: map_index_def case_prod_unfold map_fst_zip_eq)

text \<open>
  What a successful pipeline has done to the database: one batch insert of a row per text
  chunk, with the chunk's index and the document's id, and one update of the document row.
\<close>

lemma storeChunksWithoutEmbeddings_rows:
  "\<exists>rows. storeChunksWithoutEmbeddings i cs db = batchInsert_chunks rows db \<and>
          chunk_rows_of i cs rows"
  unfolding storeChunksWithoutEmbeddings_def chunk_rows_of_def
  by (intro exI conjI, rule refl) (simp_all add: comp_def list_all_iff)

lemma storeEmbeddings_rows:
  "storeEmbeddings i cs embs db = Inr db' \<Longrightarrow>
   \<exists>rows. db' = batchInsert_chunks rows db \<and> chunk_rows_of i cs rows"
  unfolding storeEmbeddings_def chunk_rows_of_def
  apply (simp split: if_splits)
  apply (intro exI conjI, erule sym)
    apply (simp_all add: comp_def list_all_iff case_prod_unfold map_fst_zip_eq)
  done

lemma processDocument_pipeline_Inl:
  "processDocument_pipeline E document filePath mimeType options db tr = Some (Inl e, db', tr') \<Longrightarrow>
   db' = db"
  unfolding processDocument_pipeline_def Let_def processDocument_complete_def
  by (auto split: sum.splits option.splits prod.splits if_splits)

lemma processDocument_pipeline_Inr_stored:
  assumes "processDocument_pipeline E document filePath mimeType options db tr =
           Some (Inr r, db', tr')"
  shows "\<exists>textChunks db1.
           textChunks \<noteq> [] \<and>
           map chunk_index textChunks = [0..<length textChunks] \<and>
           (db1 = storeChunksWithoutEmbeddings (d_id document) textChunks db \<or>
            (\<exists>embs. storeEmbeddings (d_id document) textChunks embs db = Inr db1)) \<and>
           db' = updateDocumentProcessing (d_id document) completed (length textChunks) db1 \<and>
           res_document r = findById db' (d_id document) \<and>
           res_chunks r = Some (getDocumentChunks db' (d_id document)) \<and>
           res_success r \<and> res_error r = None"
proof -
  let ?xo = "case po_extractionOptions options of
               None \<Rightarrow> \<lparr> xo_preserveFormatting = None, xo_maxLength = None \<rparr> | Some x \<Rightarrow> x"
  from assms obtain er where er: "extractText E filePath mimeType ?xo = Inr er"
    unfolding processDocument_pipeline_def Let_def
    by (auto split: sum.splits)
  let ?tc = "chunkText (er_content er) (processing_chunk_options (po_chunkOptions options))"
  from assms er have ne: "?tc \<noteq> []"
    unfolding processDocument_pipeline_def Let_def
    by (auto split: if_splits)
  from assms er ne
  have "(\<exists>db1. (db1 = storeChunksWithoutEmbeddings (d_id document) ?tc db \<or>
            (\<exists>embs. storeEmbeddings (d_id document) ?tc embs db = Inr db1)) \<and>
           db' = updateDocumentProcessing (d_id document) completed (length ?tc) db1) \<and>
           res_document r = findById db' (d_id document) \<and>
           res_chunks r = Some (getDocumentChunks db' (d_id document)) \<and>
           res_success r \<and> res_error r = None"
    unfolding processDocument_pipeline_def Let_def processDocument_complete_def
    by (auto split: sum.splits option.splits prod.splits if_splits)
  with ne chunkText_chunk_index[of "er_content er" "processing_chunk_options (po_chunkOptions options)"]
  show ?thesis by blast
qed

lemma processDocument_pipeline_Inr:
  assumes "processDocument_pipeline E document filePath mimeType options db tr =
           Some (Inr r, db', tr')"
  shows "\<exists>rows textChunks.
           textChunks \<noteq> [] \<and> chunk_rows_of (d_id document) textChunks rows \<and>
           map chunk_index textChunks = [0..<length textChunks] \<and>
           db' = updateDocumentProcessing (d_id document) completed (length textChunks)
                   (batchInsert_chunks rows db) \<and>
           res_document r = findById db' (d_id document) \<and>
           res_chunks r = Some (getDocumentChunks db' (d_id document)) \<and>
           res_success r \<and> res_error r = None"
proof -
  from processDocument_pipeline_Inr_stored[OF assms]
  obtain textChunks db1 where
    tc: "textChunks \<noteq> []" "map chunk_index textChunks = [0..<length textChunks]"
    and st: "db1 = storeChunksWithoutEmbeddings (d_id document) textChunks db \<or>
            (\<exists>embs. storeEmbeddings (d_id document) textChunks embs db = Inr db1)"
    and rest: "db' = updateDocumentProcessing (d_id document) completed (length textChunks) db1"
      "res_document r = findById db' (d_id document)"
      "res_chunks r = Some (getDocumentChunks db' (d_id document))"
      "res_success r" "res_error r = None"
    by blast
  from st obtain rows where "db1 = batchInsert_chunks rows db"
    "chunk_rows_of (d_id document) textChunks rows"
    using storeChunksWithoutEmbeddings_rows[of "d_id document" textChunks db]
      storeEmbeddings_rows[of "d_id document" textChunks _ db db1]
    by blast
  with tc rest show ?thesis by blast
qed


subsection \<open>Deduplication by content hash\<close>

lemma findDocumentByHash_key:
  "map_option doc_key (findDocumentByHash db h u) =
   (case filter (\<lambda>k. snd (snd k) = h \<and> fst (snd k) = u) (map doc_key (documents db)) of
      [] \<Rightarrow> None | k # ks \<Rightarrow> Some k)"
  by (simp add: findDocumentByHash_def filter_map comp_def doc_key_def split: list.splits)

lemma findDocumentByHash_mem:
  "findDocumentByHash db h u = Some d \<Longrightarrow> d \<in> set (documents db)"
proof -
  assume "findDocumentByHash db h u = Some d"
  then obtain ds where "filter (\<lambda>d. d_content_hash d = h \<and> d_user_id d = u) (documents db) = d # ds"
    unfolding findDocumentByHash_def by (auto split: list.splits)
  then have "d \<in> set (filter (\<lambda>d. d_content_hash d = h \<and> d_user_id d = u) (documents db))"
    by simp
  then show ?thesis by simp
qed

lemma updateDocumentStatus_keys [simp]:
  "map doc_key (documents (updateDocumentStatus i st db)) = map doc_key (documents db)"
  by (simp add: updateDocumentStatus_def doc_key_def comp_def)

lemma updateDocumentProcessing_keys [simp]:
  "map doc_key (documents (updateDocumentProcessing i st n db)) = map doc_key (documents db)"
  by (simp add: updateDocumentProcessing_def doc_key_def comp_def)

lemma processDocument_pipeline_keys:
  assumes "processDocument_pipeline E document filePath mimeType options db tr = Some (res, db', tr')"
  shows "map doc_key (documents db') = map doc_key (documents db)"
proof (cases res)
  case (Inl e)
  with assms processDocument_pipeline_Inl show ?thesis by blast
next
  case (Inr r)
  with assms processDocument_pipeline_Inr[of E document filePath mimeType options db tr r db' tr']
  show ?thesis by auto
qed

lemma findById_Some:
  "i \<in> d_id ` set (documents db) \<Longrightarrow> \<exists>d. findById db i = Some d \<and> d_id d = i"
  unfolding findById_def
  by (cases "find (\<lambda>d. d_id d = i) (documents db)") (auto simp: find_None_iff dest: find_Some_iff[THEN iffD1])

lemma processDocument_dedup:
  assumes "calculateFileHash E filePath = Inr h" and "findDocumentByHash db h userId = Some d"
  shows "processDocument E filePath originalName userId mimeType fileSize title options db tr =
         Some (\<lparr> res_document = Some d, res_chunks = None, res_extraction_result = None,
                  res_embedding_result = None, res_success = True, res_error = None \<rparr>, db, tr)"
  using assms by (simp add: processDocument_def)

lemma processDocument_fresh:
  assumes h: "calculateFileHash E filePath = Inr h"
    and none: "findDocumentByHash db h userId = None"
    and run: "processDocument E filePath originalName userId mimeType fileSize title options db tr =
              Some (r, db1, tr1)"
  shows "map doc_key (documents db1) = map doc_key (documents db) @ [(next_id db, userId, h)] \<and>
         (\<exists>d. res_document r = Some d \<and> d_id d = next_id db)"
proof -
  obtain document db0 where cr:
    "createDocumentRecord E filePath originalName userId mimeType fileSize h title db = (document, db0)"
    by (cases "createDocumentRecord E filePath originalName userId mimeType fileSize h title db")
  note c = createDocumentRecord_simps[OF cr]
  let ?db0 = "updateDocumentStatus (d_id document) processing db0"
  have k0: "map doc_key (documents ?db0) = map doc_key (documents db) @ [(next_id db, userId, h)]"
    using c by (simp add: doc_key_def)
  obtain res db2 tr2 where p:
    "processDocument_pipeline E document filePath mimeType options ?db0 tr = Some (res, db2, tr2)"
    using processDocument_pipeline_returns[of E document filePath mimeType options ?db0 tr]
    by (cases "processDocument_pipeline E document filePath mimeType options ?db0 tr") auto
  note k2 = processDocument_pipeline_keys[OF p]
  show ?thesis
  proof (cases res)
    case (Inl e)
    with run h none cr p have "r = failure_result (Some document) e"
      "db1 = updateDocumentStatus (d_id document) failed db2"
      by (simp_all add: processDocument_def)
    with k0 k2 c show ?thesis by (simp add: failure_result_def)
  next
    case (Inr r')
    with run h none cr p have eq: "r = r'" "db1 = db2"
      by (simp_all add: processDocument_def)
    from processDocument_pipeline_Inr[OF p[unfolded Inr]]
    have rd: "res_document r' = findById db2 (d_id document)" by blast
    have "d_id document \<in> d_id ` set (documents db2)"
    proof -
      have "d_id document \<in> set (map fst (map doc_key (documents db2)))"
        unfolding k2 k0 using c by simp
      then show ?thesis by (auto simp: doc_key_def)
    qed
    from findById_Some[OF this] rd eq k0 k2 c show ?thesis by auto
  qed
qed

subsection \<open>Text without whitespace\<close>

lemma is_space_simps [simp]: "is_space 10" "is_space 13" "is_space 32" "is_space 9"
  by (simp_all add: is_space_def)

lemma trim_no_space:
  assumes "\<forall>c\<in>set s. \<not> is_space c"
  shows "trim s = s"
proof -
  have d: "dropWhile is_space t = t" if "\<forall>c\<in>set t. \<not> is_space c" for t
    using that by (cases t) auto
  have "dropWhile is_space (rev s) = rev s" using assms by (intro d) simp
  with d[OF assms] show ?thesis by (simp add: trim_def)
qed

lemma replace_crlf_no_cr: "13 \<notin> set s \<Longrightarrow> replace_crlf s = s"
  by (induction s rule: replace_crlf.induct) auto

lemma collapse_blanks_none: "\<forall>c\<in>set s. \<not> is_blank c \<Longrightarrow> collapse_blanks s = s"
  by (induction s) auto

lemma collapse_newlines_none: "10 \<notin> set s \<Longrightarrow> collapse_newlines s = s"
  by (induction s) auto

lemma preprocessText_no_space:
  assumes "\<forall>c\<in>set s. \<not> is_space c"
  shows "preprocessText s = s"
proof -
  have a: "13 \<notin> set s" "10 \<notin> set s" "\<forall>c\<in>set s. \<not> is_blank c"
    using assms by (auto simp: is_blank_def)
  have "replace_cr s = s" using a(1) unfolding replace_cr_def by (induction s) auto
  with a show ?thesis
    by (simp add: preprocessText_def replace_crlf_no_cr collapse_blanks_none
        collapse_newlines_none trim_no_space[OF assms])
qed

lemma split_paragraphs_no_newline:
  "10 \<notin> set s \<Longrightarrow> split_re match_paragraph_break cur s = [cur @ s]"
  by (induction s arbitrary: cur) (auto simp: match_paragraph_break_def)

lemma findTextPosition_self: "s \<noteq> [] \<Longrightarrow> findTextPosition s s = 0"
  by (cases s) (auto simp: findTextPosition_def indexOf_def substring_def starts_with_def min_def)

lemma chunkByParagraphs_no_space:
  assumes "\<forall>c\<in>set s. \<not> is_space c" and "s \<noteq> []"
  shows "chunkByParagraphs s opts =
         (if r_minChunkSize opts \<le> length s
          then [createChunk s 0 0 (length s) Paragraph (Some 0)] else [])"
proof -
  have "10 \<notin> set s" using assms(1) by auto
  then show ?thesis
    using assms(2)
    by (simp add: chunkByParagraphs_def split_paragraphs_no_newline trim_no_space[OF assms(1)]
        findTextPosition_self del: split_re.simps)
qed

lemma spread_preserveParagraphs:
  "r_preserveParagraphs (spread_options defaultOptions (processing_chunk_options None))"
  "r_minChunkSize (spread_options defaultOptions (processing_chunk_options None)) = 100"
  by (simp_all add: spread_options_def defaultOptions_def processing_chunk_options_def)

lemma chunkText_no_space:
  assumes "\<forall>c\<in>set s. \<not> is_space c" and "100 \<le> length s"
  shows "chunkText s (processing_chunk_options None) =
         [(createChunk s 0 0 (length s) Paragraph (Some 0))
            \<lparr>content_tokens := estimateTokens s\<rparr>]"
proof -
  from assms(2) have ne: "s \<noteq> []" by auto
  show ?thesis
    using ne assms(2)
    by (simp add: chunkText_def Let_def trim_no_space[OF assms(1)]
        preprocessText_no_space[OF assms(1)] chunkByParagraphs_no_space[OF assms(1) ne]
        spread_preserveParagraphs postProcessChunks_def map_index_def createChunk_def)
qed

subsection \<open>Outcomes of \<open>processDocument\<close> for a new document\<close>

lemma chunkText_blank_content:
  "text = [] \<or> length (trim text) = 0 \<Longrightarrow> chunkText text options = []"
  by (auto simp: chunkText_def Let_def)

lemma find_SomeD: "find P xs = Some x \<Longrightarrow> P x \<and> x \<in> set xs"
  by (induction xs) (auto split: if_splits)

lemma d_id_in_keys:
  assumes "map doc_key ds = ks" and "i \<in> fst ` set ks"
  shows "i \<in> d_id ` set ds"
proof -
  have "map d_id ds = map fst (map doc_key ds)" by (simp add: doc_key_def comp_def)
  then have "set (map d_id ds) = set (map fst ks)" using assms(1) by simp
  with assms(2) show ?thesis by simp
qed

lemma findById_updated:
  assumes "findById (update_document i f db) i = Some d" and "\<And>x. d_id (f x) = d_id x"
  shows "\<exists>d0. d = f d0 \<and> d_id d0 = i \<and> d0 \<in> set (documents db)"
proof -
  from assms(1) have "d \<in> set (map (\<lambda>d. if d_id d = i then f d else d) (documents db))"
    and "d_id d = i"
    unfolding findById_def by (auto dest!: find_SomeD simp del: set_map)
  then obtain d0 where "d0 \<in> set (documents db)" "d = (if d_id d0 = i then f d0 else d0)"
    by auto
  with \<open>d_id d = i\<close> show ?thesis by (auto split: if_splits)
qed

lemma findById_updateDocumentStatus:
  "findById (updateDocumentStatus i st db) i = Some d \<Longrightarrow> d_processing_status d = st"
  unfolding updateDocumentStatus_def by (drule findById_updated) auto

lemma findById_updateDocumentProcessing:
  "findById (updateDocumentProcessing i st n db) i = Some d \<Longrightarrow>
   d_processing_status d = st \<and> d_chunk_count d = n"
  unfolding updateDocumentProcessing_def by (drule findById_updated) auto

lemma updateDocumentStatus_chunks [simp]:
  "document_chunks (updateDocumentStatus i st db) = document_chunks db"
  "next_id (updateDocumentStatus i st db) = next_id db"
  by (simp_all add: updateDocumentStatus_def)

lemma updateDocumentProcessing_chunks [simp]:
  "document_chunks (updateDocumentProcessing i st n db) = document_chunks db"
  "next_id (updateDocumentProcessing i st n db) = next_id db"
  by (simp_all add: updateDocumentProcessing_def)

text \<open>A failed ingestion of a new document: what is returned and what is stored.\<close>

lemma processDocument_fresh_failure:
  assumes h: "calculateFileHash E filePath = Inr h"
    and none: "findDocumentByHash db h userId = None"
    and p: "\<And>document db0.
              createDocumentRecord E filePath originalName userId mimeType fileSize h title db =
                (document, db0) \<Longrightarrow>
              processDocument_pipeline E document filePath mimeType options
                (updateDocumentStatus (d_id document) processing db0) tr = Some (Inl e, db2 document db0, tr')"
  shows "\<exists>r db'. processDocument E filePath originalName userId mimeType fileSize title options db tr =
                    Some (r, db', tr') \<and>
                  \<not> res_success r \<and> res_error r = Some e \<and> res_chunks r = None \<and>
                  (\<exists>d. res_document r = Some d \<and> d_id d = next_id db) \<and>
                  (\<exists>d. findById db' (next_id db) = Some d \<and> d_processing_status d = failed) \<and>
                  document_chunks db' = document_chunks db"
proof -
  obtain document db0 where cr:
    "createDocumentRecord E filePath originalName userId mimeType fileSize h title db = (document, db0)"
    by (cases "createDocumentRecord E filePath originalName userId mimeType fileSize h title db")
  note c = createDocumentRecord_simps[OF cr]
  let ?db1 = "updateDocumentStatus (d_id document) processing db0"
  note pp = p[OF cr]
  from processDocument_pipeline_Inl[OF pp] have db2: "db2 document db0 = ?db1" .
  let ?db' = "updateDocumentStatus (d_id document) failed ?db1"
  have run: "processDocument E filePath originalName userId mimeType fileSize title options db tr =
             Some (failure_result (Some document) e, ?db', tr')"
    using h none cr pp db2 by (simp add: processDocument_def)
  have "next_id db \<in> d_id ` set (documents ?db')"
  proof -
    have "map doc_key (documents ?db') = map doc_key (documents db) @ [(next_id db, userId, h)]"
      using c by (simp add: doc_key_def)
    then show ?thesis by (rule d_id_in_keys) simp
  qed
  from findById_Some[OF this] obtain d where d: "findById ?db' (next_id db) = Some d" by blast
  with findById_updateDocumentStatus[of "d_id document" failed ?db1 d] c
  have "d_processing_status d = failed" by simp
  with run d c show ?thesis by (simp add: failure_result_def)
qed


lemma processDocument_pipeline_no_chunks:
  assumes "extractText E filePath mimeType
             (case po_extractionOptions options of
                None \<Rightarrow> \<lparr> xo_preserveFormatting = None, xo_maxLength = None \<rparr>
              | Some x \<Rightarrow> x) = Inr er"
    and "chunkText (er_content er) (processing_chunk_options (po_chunkOptions options)) = []"
  shows "processDocument_pipeline E document filePath mimeType options db tr =
         Some (Inl (if er_content er = [] \<or> length (trim (er_content er)) = 0
                    then ''No text content could be extracted from the document''
                    else ''Document could not be chunked - content may be too short''), db, tr)"
  using assms by (simp add: processDocument_pipeline_def)

lemma processDocument_pipeline_embedding_fails:
  assumes "extractText E filePath mimeType
             (case po_extractionOptions options of
                None \<Rightarrow> \<lparr> xo_preserveFormatting = None, xo_maxLength = None \<rparr>
              | Some x \<Rightarrow> x) = Inr er"
    and "chunkText (er_content er) (processing_chunk_options (po_chunkOptions options)) \<noteq> []"
    and "po_generateEmbeddings options \<noteq> Some False"
    and "generateEmbeddings (embedding_provider E)
           (map (\<lambda>chunk. (content chunk, chunk_index chunk))
              (chunkText (er_content er) (processing_chunk_options (po_chunkOptions options))))
           no_embedding_options tr = Some (Inl e, tr')"
  shows "processDocument_pipeline E document filePath mimeType options db tr =
         Some (Inl e, db, tr')"
proof -
  from assms(2) chunkText_blank_content
  have "\<not> (er_content er = [] \<or> length (trim (er_content er)) = 0)" by blast
  with assms show ?thesis
    by (auto simp: processDocument_pipeline_def Let_def split: option.splits)
qed

subsection \<open>The integrity constraints are kept\<close>

lemma wf_database_update_document:
  "wf_database db \<Longrightarrow> (\<And>x. d_id (f x) = d_id x) \<Longrightarrow> wf_database (update_document i f db)"
  by (auto simp: wf_database_def comp_def list_all_iff if_distrib[of d_id] cong: if_cong)

lemma wf_database_insert_document:
  "wf_database db \<Longrightarrow> insert_document row db = (r, db') \<Longrightarrow> wf_database db'"
  unfolding wf_database_def insert_document_def Let_def list_all_iff
  by (fastforce simp: less_Suc_eq)

lemma map_index_nth: "map_index f xs = map (\<lambda>k. f (xs ! k) k) [0..<length xs]"
  by (rule nth_equalityI) (simp_all add: map_index_def)

lemma distinct_map_index_ids:
  "distinct (map dc_id (map_index (\<lambda>r k. r\<lparr>dc_id := n + k\<rparr>) rows))"
  by (simp add: map_index_nth comp_def distinct_map inj_on_def)

lemma set_map_index_ids:
  "x \<in> set (map_index (\<lambda>r k. r\<lparr>dc_id := n + k\<rparr>) rows) \<Longrightarrow>
   n \<le> dc_id x \<and> dc_id x < n + length rows \<and> (\<exists>r\<in>set rows. dc_document_id x = dc_document_id r)"
  by (auto simp: map_index_nth)

lemma wf_database_batchInsert_chunks:
  assumes "wf_database db" and "list_all (\<lambda>r. dc_document_id r < next_id db) rows"
  shows "wf_database (batchInsert_chunks rows db)"
  using assms distinct_map_index_ids[of "next_id db" rows]
  by (auto simp: wf_database_def list_all_iff dest!: set_map_index_ids) 


subsection \<open>The four outcomes of \<open>processDocument\<close>\<close>

lemma processDocument_cases [consumes 1, case_names read_error dedup failed completed]:
  assumes run: "processDocument E filePath originalName userId mimeType fileSize title options db tr =
                Some (r, db', tr')"
  obtains
    e where "calculateFileHash E filePath = Inl e" "r = failure_result None e" "db' = db" "tr' = tr"
  | h d where "calculateFileHash E filePath = Inr h" "findDocumentByHash db h userId = Some d"
      "res_document r = Some d" "res_success r" "res_chunks r = None" "db' = db" "tr' = tr"
  | h document db0 e where "calculateFileHash E filePath = Inr h"
      "findDocumentByHash db h userId = None"
      "createDocumentRecord E filePath originalName userId mimeType fileSize h title db =
         (document, db0)"
      "processDocument_pipeline E document filePath mimeType options
         (updateDocumentStatus (d_id document) processing db0) tr =
         Some (Inl e, updateDocumentStatus (d_id document) processing db0, tr')"
      "r = failure_result (Some document) e"
      "db' = updateDocumentStatus (d_id document) failed
               (updateDocumentStatus (d_id document) processing db0)"
  | h document db0 rows textChunks where "calculateFileHash E filePath = Inr h"
      "findDocumentByHash db h userId = None"
      "createDocumentRecord E filePath originalName userId mimeType fileSize h title db =
         (document, db0)"
      "textChunks \<noteq> []" "chunk_rows_of (d_id document) textChunks rows"
      "map chunk_index textChunks = [0..<length textChunks]"
      "db' = updateDocumentProcessing (d_id document) completed (length textChunks)
               (batchInsert_chunks rows (updateDocumentStatus (d_id document) processing db0))"
      "res_document r = findById db' (d_id document)"
      "res_chunks r = Some (getDocumentChunks db' (d_id document))"
      "res_success r" "res_error r = None"
proof (cases "calculateFileHash E filePath")
  case (Inl e)
  with run that(1) show ?thesis by (simp add: processDocument_def)
next
  case (Inr h)
  show ?thesis
  proof (cases "findDocumentByHash db h userId")
    case (Some d)
    from run Inr Some have "res_document r = Some d" "res_success r" "res_chunks r = None"
      "db' = db" "tr' = tr"
      by (auto simp: processDocument_def)
    with Inr Some show ?thesis by (rule that(2))
  next
    case None
    obtain document db0 where cr:
      "createDocumentRecord E filePath originalName userId mimeType fileSize h title db =
         (document, db0)"
      by (cases "createDocumentRecord E filePath originalName userId mimeType fileSize h title db")
    let ?db1 = "updateDocumentStatus (d_id document) processing db0"
    obtain res db2 tr2 where p:
      "processDocument_pipeline E document filePath mimeType options ?db1 tr = Some (res, db2, tr2)"
      using processDocument_pipeline_returns[of E document filePath mimeType options ?db1 tr]
      by (cases "processDocument_pipeline E document filePath mimeType options ?db1 tr") auto
    show ?thesis
    proof (cases res)
      case (Inl e)
      from processDocument_pipeline_Inl[OF p[unfolded Inl]] have "db2 = ?db1" .
      with run Inr None cr p Inl that(3)[of h document db0 e] show ?thesis
        by (simp add: processDocument_def)
    next
      case r': (Inr r')
      from run Inr None cr p r' have eq: "r = r'" "db' = db2" "tr' = tr2"
        by (simp_all add: processDocument_def)
      from processDocument_pipeline_Inr[OF p[unfolded r']] obtain rows textChunks where
        "textChunks \<noteq> []" "chunk_rows_of (d_id document) textChunks rows"
        "map chunk_index textChunks = [0..<length textChunks]"
        "db2 = updateDocumentProcessing (d_id document) completed (length textChunks)
                 (batchInsert_chunks rows ?db1)"
        "res_document r' = findById db2 (d_id document)"
        "res_chunks r' = Some (getDocumentChunks db2 (d_id document))"
        "res_success r'" "res_error r' = None"
        by blast
      with eq Inr None cr that(4)[of h document db0 textChunks rows] show ?thesis by simp
    qed
  qed
qed

lemma wf_database_createDocumentRecord:
  assumes "wf_database db"
    and "createDocumentRecord E filePath originalName userId mimeType fileSize h title db =
           (document, db0)"
  shows "wf_database db0"
  using assms(2) unfolding createDocumentRecord_def Let_def
  by (rule wf_database_insert_document[OF assms(1)])

lemma wf_database_updateDocumentStatus:
  "wf_database db \<Longrightarrow> wf_database (updateDocumentStatus i st db)"
  unfolding updateDocumentStatus_def by (rule wf_database_update_document) auto

lemma wf_database_updateDocumentProcessing:
  "wf_database db \<Longrightarrow> wf_database (updateDocumentProcessing i st n db)"
  unfolding updateDocumentProcessing_def by (rule wf_database_update_document) auto

lemma processDocument_wf_database:
  assumes wf: "wf_database db"
    and run: "processDocument E filePath originalName userId mimeType fileSize title options db tr =
              Some (r, db', tr')"
  shows "wf_database db'"
  using run
proof (cases rule: processDocument_cases)
  case (read_error e)
  with wf show ?thesis by simp
next
  case (dedup h d)
  with wf show ?thesis by simp
next
  case (failed h document db0 e)
  from wf_database_createDocumentRecord[OF wf failed(3)] show ?thesis
    unfolding failed(6) by (intro wf_database_updateDocumentStatus)
next
  case (completed h document db0 rows textChunks)
  note c = createDocumentRecord_simps[OF completed(3)]
  have "wf_database (updateDocumentStatus (d_id document) processing db0)"
    using wf_database_createDocumentRecord[OF wf completed(3)]
    by (rule wf_database_updateDocumentStatus)
  moreover have "list_all (\<lambda>r. dc_document_id r <
       next_id (updateDocumentStatus (d_id document) processing db0)) rows"
    using completed(5) c by (auto simp: chunk_rows_of_def list_all_iff)
  ultimately show ?thesis
    unfolding completed(7)
    by (intro wf_database_updateDocumentProcessing wf_database_batchInsert_chunks)
qed

lemma calculateFileHash_read:
  "readFile E filePath = Inr bytes \<Longrightarrow> calculateFileHash E filePath = Inr (sha256_hex E bytes)"
  by (simp add: calculateFileHash_def)

lemma findDocumentByHash_SomeD:
  assumes "findDocumentByHash db h u = Some d"
  shows "d_content_hash d = h" "d_user_id d = u" "d \<in> set (documents db)"
proof -
  from assms obtain ds where
    "filter (\<lambda>d. d_content_hash d = h \<and> d_user_id d = u) (documents db) = d # ds"
    unfolding findDocumentByHash_def by (auto split: list.splits)
  then have "d \<in> set (filter (\<lambda>d. d_content_hash d = h \<and> d_user_id d = u) (documents db))"
    by simp
  then show "d_content_hash d = h" "d_user_id d = u" "d \<in> set (documents db)" by simp_all
qed

lemma findById_member:
  assumes "wf_database db" and "d \<in> set (documents db)"
  shows "findById db (d_id d) = Some d"
proof -
  from assms(1) have dist: "distinct (map d_id (documents db))" by (simp add: wf_database_def)
  from assms(2) have "d_id d \<in> d_id ` set (documents db)" by simp
  from findById_Some[OF this] obtain d' where d': "findById db (d_id d) = Some d'" "d_id d' = d_id d"
    by blast
  then have "d' \<in> set (documents db)" unfolding findById_def by (auto dest: find_SomeD)
  with dist assms(2) d'(2) have "d' = d" by (auto simp: distinct_map dest: inj_onD)
  with d'(1) show ?thesis by simp
qed

lemma processDocument_completed_chunk_rows:
  assumes run: "processDocument E filePath originalName userId mimeType fileSize title options db tr =
                Some (r, db', tr')"
    and ok: "res_success r" and h: "calculateFileHash E filePath = Inr h"
    and none: "findDocumentByHash db h userId = None"
    and d: "res_document r = Some d"
  shows "length (document_chunks db') = length (document_chunks db) + d_chunk_count d"
  using run
proof (cases rule: processDocument_cases)
  case (read_error e)
  with h show ?thesis by simp
next
  case (dedup h' d')
  with h none show ?thesis by simp
next
  case (failed h' document db0 e)
  with ok show ?thesis by (simp add: failure_result_def)
next
  case (completed h' document db0 rows textChunks)
  note c = createDocumentRecord_simps[OF completed(3)]
  from completed(8) d have "findById db' (d_id document) = Some d" by simp
  from findById_updateDocumentProcessing[OF this[unfolded completed(7)]]
  have n: "d_chunk_count d = length textChunks" by simp
  from completed(5) have "length (map dc_chunk_index rows) = length (map chunk_index textChunks)"
    by (simp only: chunk_rows_of_def)
  then have "length rows = length textChunks" by simp
  with n c show ?thesis unfolding completed(7) by simp
qed

text \<open>
  C1. Two uploads of the same bytes by the same owner, one after the other, whatever their
  file names, types, titles and options. The first call returns a document. The second
  call succeeds without chunks of its own and returns a stored row that carries the id of
  the first call's document, the owner of the call and the content hash of the bytes, and it
  leaves the whole database (document rows and chunk rows) and the provider trace exactly
  as the first call left them. In a database that meets its integrity constraints the
  returned row is the one stored under that id, the first call's document has the same
  owner and content hash, and when the first call succeeded the two calls return the same
  row.
\<close>

theorem processDocument_idempotent:
  assumes "readFile E filePath1 = Inr bytes" and "readFile E filePath2 = Inr bytes"
  shows "\<exists>r1 db1 tr1 d1 r2 d2.
           processDocument E filePath1 name1 userId mime1 size1 title1 options1 db tr =
             Some (r1, db1, tr1) \<and>
           res_document r1 = Some d1 \<and>
           processDocument E filePath2 name2 userId mime2 size2 title2 options2 db1 tr1 =
             Some (r2, db1, tr1) \<and>
           res_document r2 = Some d2 \<and> res_success r2 \<and> res_chunks r2 = None \<and>
           res_error r2 = None \<and>
           d_id d2 = d_id d1 \<and> d2 \<in> set (documents db1) \<and>
           d_user_id d2 = userId \<and> d_content_hash d2 = sha256_hex E bytes \<and>
           (wf_database db \<longrightarrow>
              wf_database db1 \<and> findById db1 (d_id d1) = Some d2 \<and>
              d_user_id d1 = userId \<and> d_content_hash d1 = sha256_hex E bytes \<and>
              (res_success r1 \<longrightarrow> d2 = d1))"
proof -
  let ?h = "sha256_hex E bytes"
  note h1 = calculateFileHash_read[OF assms(1)] and h2 = calculateFileHash_read[OF assms(2)]
  show ?thesis
  proof (cases "findDocumentByHash db ?h userId")
    case (Some d)
    note k = findDocumentByHash_SomeD[OF Some]
    have "wf_database db \<longrightarrow> findById db (d_id d) = Some d"
      using findById_member[OF _ k(3)] by simp
    with processDocument_dedup[OF h1 Some] processDocument_dedup[OF h2 Some] k
    show ?thesis by simp
  next
    case None
    obtain r1 db1 tr1 where run:
      "processDocument E filePath1 name1 userId mime1 size1 title1 options1 db tr =
         Some (r1, db1, tr1)"
      using processDocument_returns[of E filePath1 name1 userId mime1 size1 title1 options1 db tr]
      by (cases "processDocument E filePath1 name1 userId mime1 size1 title1 options1 db tr") auto
    from processDocument_fresh[OF h1 None run] obtain d1 where
      keys: "map doc_key (documents db1) = map doc_key (documents db) @ [(next_id db, userId, ?h)]"
      and d1: "res_document r1 = Some d1" "d_id d1 = next_id db"
      by blast
    from None findDocumentByHash_key[of db ?h userId]
    have "filter (\<lambda>k. snd (snd k) = ?h \<and> fst (snd k) = userId) (map doc_key (documents db)) = []"
      by (simp split: list.splits)
    with keys findDocumentByHash_key[of db1 ?h userId]
    have "map_option doc_key (findDocumentByHash db1 ?h userId) = Some (next_id db, userId, ?h)"
      by simp
    then obtain d2 where d2: "findDocumentByHash db1 ?h userId = Some d2" "d_id d2 = next_id db"
      by (auto simp: doc_key_def)
    note k2 = findDocumentByHash_SomeD[OF d2(1)]
    have second: "processDocument E filePath2 name2 userId mime2 size2 title2 options2 db1 tr1 =
        Some (\<lparr> res_document = Some d2, res_chunks = None, res_extraction_result = None,
                 res_embedding_result = None, res_success = True, res_error = None \<rparr>, db1, tr1)"
      by (rule processDocument_dedup[OF h2 d2(1)])
    have under_wf: "wf_database db1 \<and> findById db1 (d_id d1) = Some d2 \<and>
              d_user_id d1 = userId \<and> d_content_hash d1 = ?h \<and> (res_success r1 \<longrightarrow> d2 = d1)"
      if wf: "wf_database db"
    proof -
      from wf run have wf1: "wf_database db1" by (rule processDocument_wf_database)
      from findById_member[OF wf1 k2(3)] d1(2) d2(2)
      have stored: "findById db1 (d_id d1) = Some d2" by simp
      from run have "d_user_id d1 = userId \<and> d_content_hash d1 = ?h \<and> (res_success r1 \<longrightarrow> d2 = d1)"
      proof (cases rule: processDocument_cases)
        case (read_error e)
        with h1 show ?thesis by simp
      next
        case (dedup h' d)
        with h1 None show ?thesis by simp
      next
        case (failed h' document db0 e)
        note c = createDocumentRecord_simps[OF failed(3)]
        from failed(5) d1(1) have "d1 = document" "\<not> res_success r1"
          by (simp_all add: failure_result_def)
        with c failed(1) h1 show ?thesis by simp
      next
        case (completed h' document db0 rows textChunks)
        note c = createDocumentRecord_simps[OF completed(3)]
        from completed(8) d1 c stored have "d1 = d2" by simp
        with k2 show ?thesis by simp
      qed
      with wf1 stored show ?thesis by simp
    qed
    from run d1 second d2(2) k2 under_wf show ?thesis by simp
  qed
qed

subsection \<open>Runs of the pipeline in the small world\<close>

lemma hundred_letters_no_space: "\<forall>c\<in>set hundred_letters. \<not> is_space c"
  by (simp add: hundred_letters_def is_space_def)

lemma length_hundred_letters [simp]: "length hundred_letters = 100"
  by (simp add: hundred_letters_def)

lemma validateAndTruncateText_no_space:
  assumes "\<forall>c\<in>set s. \<not> is_space c" and "s \<noteq> []" and "length s \<le> 32761"
  shows "validateAndTruncateText s = Inr s"
proof -
  have "(length s + 3) div 4 \<le> 8191" using assms(3) by simp
  with assms(2) show ?thesis
    by (simp add: validateAndTruncateText_def trim_no_space[OF assms(1)] maxInputLength_def)
qed

lemma validateAndTruncateText_hundred_letters:
  "validateAndTruncateText hundred_letters = Inr hundred_letters"
  by (rule validateAndTruncateText_no_space[OF hundred_letters_no_space])
     (auto simp: hundred_letters_def)

lemma validateChunks_hundred_letters:
  "validateChunks [(hundred_letters, k)] = [(hundred_letters, k)]"
proof -
  have "hundred_letters \<noteq> []" by (simp add: hundred_letters_def)
  then show ?thesis
    by (simp add: validateChunks_def trim_no_space[OF hundred_letters_no_space]
          validateAndTruncateText_hundred_letters)
qed

lemma chunkText_hundred_letters:
  "chunkText hundred_letters (processing_chunk_options None) =
   [(createChunk hundred_letters 0 0 100 Paragraph (Some 0))\<lparr>content_tokens := 25\<rparr>]"
  using chunkText_no_space[OF hundred_letters_no_space]
  by (simp add: estimateTokens_def)

lemma chunk_inputs_hundred_letters:
  "map (\<lambda>chunk. (content chunk, chunk_index chunk))
     (chunkText hundred_letters (processing_chunk_options None)) = [(hundred_letters, 0)]"
  by (simp add: chunkText_hundred_letters createChunk_def)

lemma processBatch_failing_provider:
  assumes "map_throwing (\<lambda>(c, i). validateAndTruncateText c) chunks = Inr inputs"
  shows "processBatch failing_provider chunks m 3 rd tr =
         (Inl (Some ''service unavailable''), tr @ retry_trace m inputs rd (Suc 0) 3)"
proof -
  let ?c = "ProviderCall m inputs"
  have att: "processBatch_attempt failing_provider chunks m t =
             (Inl ''service unavailable'', t @ [?c])" for t
    using assms by (simp add: processBatch_attempt_def call_provider_def failing_provider_def)
  have "processBatch failing_provider chunks m 3 rd tr =
        processBatch_loop failing_provider chunks m 3 rd 2 (Some ''service unavailable'')
          ((tr @ [?c]) @ [Delay (rd * 1)])"
    unfolding processBatch_def
    using processBatch_loop_retry[where a=1 and ra=3 and rd=rd and le=None, OF _ att]
    by (simp add: eval_nat_numeral)
  also have "\<dots> = processBatch_loop failing_provider chunks m 3 rd 3 (Some ''service unavailable'')
          ((((tr @ [?c]) @ [Delay (rd * 1)]) @ [?c]) @ [Delay (rd * 2)])"
    using processBatch_loop_retry[where a=2 and ra=3 and rd=rd
        and le="Some ''service unavailable''", OF _ att]
    by (simp add: eval_nat_numeral)
  also have "\<dots> = processBatch_loop failing_provider chunks m 3 rd 4 (Some ''service unavailable'')
          (((((tr @ [?c]) @ [Delay (rd * 1)]) @ [?c]) @ [Delay (rd * 2)]) @ [?c])"
    using processBatch_loop_retry[where a=3 and ra=3 and rd=rd
        and le="Some ''service unavailable''", OF _ att]
    by (simp add: eval_nat_numeral)
  also have "\<dots> = (Inl (Some ''service unavailable''),
          (((((tr @ [?c]) @ [Delay (rd * 1)]) @ [?c]) @ [Delay (rd * 2)]) @ [?c]))"
    by (subst processBatch_loop.simps) simp
  finally show ?thesis by (simp add: retry_trace_three)
qed

lemma generateEmbeddings_failing_hundred_letters:
  "generateEmbeddings failing_provider [(hundred_letters, 0)] no_embedding_options [] =
   Some (Inl ''Embedding generation failed: service unavailable'',
         retry_trace defaultModel [hundred_letters] 1000 (Suc 0) 3)"
proof -
  have valid: "map_throwing (\<lambda>(c, i). validateAndTruncateText c) [(hundred_letters, 0)] =
               Inr [hundred_letters]"
    by (simp add: validateAndTruncateText_hundred_letters)
  have pb: "processBatch failing_provider
              (take (min 50 maxBatchSize) (drop 0 (validateChunks [(hundred_letters, 0)])))
              defaultModel 3 1000 [] =
            (Inl (Some ''service unavailable''),
             [] @ retry_trace defaultModel [hundred_letters] 1000 (Suc 0) 3)"
    unfolding validateChunks_hundred_letters
    using processBatch_failing_provider[OF valid, of defaultModel 1000 "[]"]
    by (simp add: maxBatchSize_def)
  have ls: "loop_state failing_provider (validateChunks [(hundred_letters, 0)])
              (min 50 maxBatchSize) defaultModel 3 1000 [] 0 = Some (0, [], 0, [])"
    by simp
  have "0 < length (validateChunks [(hundred_letters, 0)])"
    by (simp add: validateChunks_hundred_letters)
  from generateEmbeddings_batch_fails[OF ls this pb]
  show ?thesis
    by (simp add: no_embedding_options_def generateEmbeddings_defaults error_message_def)
qed

lemma generateEmbeddings_steady_hundred_letters:
  "generateEmbeddings steady_provider [(hundred_letters, 0)] no_embedding_options [] =
   Some (Inr \<lparr> embeddings = [\<lparr> embedding = [1], tokens = 1000, index = 0 \<rparr>],
               totalTokens = 1000, cost = calculateCost 1000 \<rparr>,
         [ProviderCall defaultModel [hundred_letters]])"
proof -
  have att: "processBatch_attempt steady_provider [(hundred_letters, 0)] defaultModel [] =
             (Inr ([\<lparr> embedding = [1], tokens = 1000, index = 0 \<rparr>], 1000),
              [ProviderCall defaultModel [hundred_letters]])"
    by (simp add: processBatch_attempt_def validateAndTruncateText_hundred_letters
          call_provider_def steady_provider_def round_div_def)
  have pb: "processBatch steady_provider
              (take (min 50 maxBatchSize) (drop 0 (validateChunks [(hundred_letters, 0)])))
              defaultModel 3 1000 [] =
            (Inr ([\<lparr> embedding = [1], tokens = 1000, index = 0 \<rparr>], 1000),
             [ProviderCall defaultModel [hundred_letters]])"
    unfolding validateChunks_hundred_letters processBatch_def
    using processBatch_loop_success[where a=1 and ra=3, OF _ att]
    by (simp add: maxBatchSize_def)
  have ls: "loop_state steady_provider (validateChunks [(hundred_letters, 0)])
              (min 50 maxBatchSize) defaultModel 3 1000 [] 1 =
            Some (50, [\<lparr> embedding = [1], tokens = 1000, index = 0 \<rparr>], 1000,
                  [ProviderCall defaultModel [hundred_letters]])"
    using pb by (simp add: validateChunks_hundred_letters maxBatchSize_def)
  have "\<not> 50 < length (validateChunks [(hundred_letters, 0)])"
    "validateChunks [(hundred_letters, 0)] \<noteq> []"
    by (simp_all add: validateChunks_hundred_letters)
  from generateEmbeddings_all_batches_succeed[OF ls this]
  show ?thesis
    by (simp add: no_embedding_options_def generateEmbeddings_defaults)
qed

lemma test_env_simps [simp]:
  "readFile (test_env P text) p = Inr [1, 2, 3]"
  "extractText (test_env P text) p m xo = Inr \<lparr> er_content = text, er_wordCount = 1 \<rparr>"
  "embedding_provider (test_env P text) = P"
  "calculateFileHash (test_env P text) p = Inr (map char_of [1, 2, 3 :: nat])"
  by (simp_all add: test_env_def calculateFileHash_def)

lemma empty_database_simps [simp]:
  "wf_database empty_database"
  "findDocumentByHash empty_database h u = None"
  "next_id empty_database = 0" "documents empty_database = []"
  "document_chunks empty_database = []"
  by (simp_all add: empty_database_def wf_database_def findDocumentByHash_def)

text \<open>
  C5. A new document, embeddings requested, text extracted and chunked, and the embedding
  call fails: \<open>processDocument\<close> returns a result (it does not throw) with
  \<open>success = false\<close> and the error message, the stored document row has status
  \<open>failed\<close>, the chunk table is as it was, and it holds no row for the document.
\<close>

theorem processDocument_embedding_failure:
  assumes wf: "wf_database db"
    and h: "calculateFileHash E filePath = Inr h"
    and none: "findDocumentByHash db h userId = None"
    and flag: "po_generateEmbeddings options \<noteq> Some False"
    and ex: "extractText E filePath mimeType
               (case po_extractionOptions options of
                  None \<Rightarrow> \<lparr> xo_preserveFormatting = None, xo_maxLength = None \<rparr>
                | Some x \<Rightarrow> x) = Inr er"
    and tc: "chunkText (er_content er) (processing_chunk_options (po_chunkOptions options)) \<noteq> []"
    and emb: "generateEmbeddings (embedding_provider E)
                (map (\<lambda>chunk. (content chunk, chunk_index chunk))
                   (chunkText (er_content er) (processing_chunk_options (po_chunkOptions options))))
                no_embedding_options tr = Some (Inl e, tr')"
  shows "\<exists>r db'. processDocument E filePath originalName userId mimeType fileSize title options
                    db tr = Some (r, db', tr') \<and>
                  \<not> res_success r \<and> res_error r = Some e \<and> res_chunks r = None \<and>
                  (\<exists>d. res_document r = Some d \<and> d_id d = next_id db) \<and>
                  (\<exists>d. findById db' (next_id db) = Some d \<and> d_processing_status d = failed) \<and>
                  document_chunks db' = document_chunks db \<and>
                  filter (\<lambda>c. dc_document_id c = next_id db) (document_chunks db') = []"
proof -
  have "\<exists>r db'. processDocument E filePath originalName userId mimeType fileSize title options
                    db tr = Some (r, db', tr') \<and>
                  \<not> res_success r \<and> res_error r = Some e \<and> res_chunks r = None \<and>
                  (\<exists>d. res_document r = Some d \<and> d_id d = next_id db) \<and>
                  (\<exists>d. findById db' (next_id db) = Some d \<and> d_processing_status d = failed) \<and>
                  document_chunks db' = document_chunks db"
    by (rule processDocument_fresh_failure[where
          ?db2.0="\<lambda>document db0. updateDocumentStatus (d_id document) processing db0",
          OF h none])
       (rule processDocument_pipeline_embedding_fails[OF ex tc flag emb])
  moreover have "filter (\<lambda>c. dc_document_id c = next_id db) (document_chunks db) = []"
    using wf by (auto simp: wf_database_def list_all_iff filter_empty_conv)
  ultimately show ?thesis by auto
qed


lemma no_processing_options_simps [simp]:
  "po_generateEmbeddings no_processing_options = None"
  "po_chunkOptions no_processing_options = None"
  "po_extractionOptions no_processing_options = None"
  by (simp_all add: no_processing_options_def)

theorem processDocument_embedding_failure_witness:
  "wf_database empty_database \<and>
   (\<exists>r db'. processDocument (test_env failing_provider hundred_letters) ''upload-1.txt''
               ''notes.txt'' ''alice'' ''text/plain'' 100 None no_processing_options
               empty_database [] =
               Some (r, db', retry_trace defaultModel [hundred_letters] 1000 (Suc 0) 3) \<and>
             \<not> res_success r \<and>
             res_error r = Some ''Embedding generation failed: service unavailable'' \<and>
             res_chunks r = None \<and>
             (\<exists>d. res_document r = Some d \<and> d_id d = 0) \<and>
             (\<exists>d. findById db' 0 = Some d \<and> d_processing_status d = failed) \<and>
             document_chunks db' = [] \<and>
             filter (\<lambda>c. dc_document_id c = 0) (document_chunks db') = [])"
proof -
  let ?E = "test_env failing_provider hundred_letters"
  let ?er = "\<lparr> er_content = hundred_letters, er_wordCount = 1 \<rparr>"
  have wf: "wf_database empty_database" by simp
  have h: "calculateFileHash ?E ''upload-1.txt'' = Inr (map char_of [1, 2, 3 :: nat])" by simp
  have none: "findDocumentByHash empty_database (map char_of [1, 2, 3 :: nat]) ''alice'' = None"
    by simp
  have flag: "po_generateEmbeddings no_processing_options \<noteq> Some False" by simp
  have ex: "extractText ?E ''upload-1.txt'' ''text/plain''
              (case po_extractionOptions no_processing_options of
                 None \<Rightarrow> \<lparr> xo_preserveFormatting = None, xo_maxLength = None \<rparr>
               | Some x \<Rightarrow> x) = Inr ?er"
    by simp
  have tc: "chunkText (er_content ?er)
              (processing_chunk_options (po_chunkOptions no_processing_options)) \<noteq> []"
    by (simp add: chunkText_hundred_letters)
  have emb: "generateEmbeddings (embedding_provider ?E)
               (map (\<lambda>chunk. (content chunk, chunk_index chunk))
                  (chunkText (er_content ?er)
                     (processing_chunk_options (po_chunkOptions no_processing_options))))
               no_embedding_options [] =
             Some (Inl ''Embedding generation failed: service unavailable'',
                   retry_trace defaultModel [hundred_letters] 1000 (Suc 0) 3)"
    by (simp add: chunk_inputs_hundred_letters generateEmbeddings_failing_hundred_letters)
  from processDocument_embedding_failure[OF wf h none flag ex tc emb,
      of "''notes.txt''" 100 None]
  show ?thesis by simp
qed

lemma chunkText_abc_processing:
  "chunkText (js ''A. B. C.'') (processing_chunk_options None) = []"
  by (simp add: chunkText_def js_abc trim_abc preprocessText_abc chunkByParagraphs_abc
        spread_options_def defaultOptions_def postProcessChunks_def map_index_def
        processing_chunk_options_def)

text \<open>
  C10. For a text that is empty or all whitespace \<open>chunkText\<close> returns the empty list, under
  every combination of options; the function has no failure value, so nothing is thrown.
  An empty list of chunks becomes a failure only in \<open>processDocument\<close>: for a new document
  whose extracted text gives no chunk, it returns \<open>success = false\<close> with an error
  message, sets the document's status to \<open>failed\<close>, calls no provider and stores no chunk
  row.
\<close>

theorem chunkText_blank_input:
  "((\<forall>c\<in>set input. is_space c) \<longrightarrow> chunkText input chunkOptions = []) \<and>
   (calculateFileHash E filePath = Inr h \<longrightarrow> findDocumentByHash db h userId = None \<longrightarrow>
    extractText E filePath mimeType
      (case po_extractionOptions options of
         None \<Rightarrow> \<lparr> xo_preserveFormatting = None, xo_maxLength = None \<rparr>
       | Some x \<Rightarrow> x) = Inr er \<longrightarrow>
    chunkText (er_content er) (processing_chunk_options (po_chunkOptions options)) = [] \<longrightarrow>
    (\<exists>r db'. processDocument E filePath originalName userId mimeType fileSize title options
                db tr = Some (r, db', tr) \<and>
              \<not> res_success r \<and>
              res_error r =
                Some (if er_content er = [] \<or> length (trim (er_content er)) = 0
                      then ''No text content could be extracted from the document''
                      else ''Document could not be chunked - content may be too short'') \<and>
              (\<exists>d. findById db' (next_id db) = Some d \<and> d_processing_status d = failed) \<and>
              document_chunks db' = document_chunks db))"
proof (intro conjI impI)
  assume "\<forall>c\<in>set input. is_space c"
  then show "chunkText input chunkOptions = []"
    by (simp add: chunkText_def trim_blank Let_def)
next
  let ?msg = "if er_content er = [] \<or> length (trim (er_content er)) = 0
              then ''No text content could be extracted from the document''
              else ''Document could not be chunked - content may be too short''"
  assume h: "calculateFileHash E filePath = Inr h"
    and none: "findDocumentByHash db h userId = None"
    and ex: "extractText E filePath mimeType
      (case po_extractionOptions options of
         None \<Rightarrow> \<lparr> xo_preserveFormatting = None, xo_maxLength = None \<rparr>
       | Some x \<Rightarrow> x) = Inr er"
    and tc: "chunkText (er_content er) (processing_chunk_options (po_chunkOptions options)) = []"
  have "\<exists>r db'. processDocument E filePath originalName userId mimeType fileSize title options
                db tr = Some (r, db', tr) \<and>
              \<not> res_success r \<and> res_error r = Some ?msg \<and> res_chunks r = None \<and>
              (\<exists>d. res_document r = Some d \<and> d_id d = next_id db) \<and>
              (\<exists>d. findById db' (next_id db) = Some d \<and> d_processing_status d = failed) \<and>
              document_chunks db' = document_chunks db"
    by (rule processDocument_fresh_failure[where
          ?db2.0="\<lambda>document db0. updateDocumentStatus (d_id document) processing db0",
          OF h none])
       (rule processDocument_pipeline_no_chunks[OF ex tc])
  then show "\<exists>r db'. processDocument E filePath originalName userId mimeType fileSize title options
                db tr = Some (r, db', tr) \<and>
              \<not> res_success r \<and> res_error r = Some ?msg \<and>
              (\<exists>d. findById db' (next_id db) = Some d \<and> d_processing_status d = failed) \<and>
              document_chunks db' = document_chunks db"
    by blast
qed

theorem chunkText_blank_input_witness:
  "list_all is_space [32, 9, 10, 13, 160, 8232] \<and>
   chunkText [32, 9, 10, 13, 160, 8232]
     \<lparr> maxChunkSize = Some 5, chunkOverlap = Some 0, preserveSentences = Some False,
       preserveParagraphs = Some False, minChunkSize = Some 0, separators = Some [] \<rparr> = [] \<and>
   (\<exists>r db'. processDocument (test_env steady_provider (js ''A. B. C.'')) ''upload-1.txt''
               ''notes.txt'' ''alice'' ''text/plain'' 8 None no_processing_options
               empty_database [] = Some (r, db', []) \<and>
             \<not> res_success r \<and>
             res_error r = Some ''Document could not be chunked - content may be too short'' \<and>
             (\<exists>d. findById db' 0 = Some d \<and> d_processing_status d = failed) \<and>
             document_chunks db' = [])"
proof -
  have sp: "\<forall>c\<in>set [32, 9, 10, 13, 160, 8232]. is_space c"
    by (simp add: is_space_def)
  let ?E = "test_env steady_provider (js ''A. B. C.'')"
  let ?er = "\<lparr> er_content = js ''A. B. C.'', er_wordCount = 1 \<rparr>"
  have h: "calculateFileHash ?E ''upload-1.txt'' = Inr (map char_of [1, 2, 3 :: nat])" by simp
  have none: "findDocumentByHash empty_database (map char_of [1, 2, 3 :: nat]) ''alice'' = None"
    by simp
  have ex: "extractText ?E ''upload-1.txt'' ''text/plain''
              (case po_extractionOptions no_processing_options of
                 None \<Rightarrow> \<lparr> xo_preserveFormatting = None, xo_maxLength = None \<rparr>
               | Some x \<Rightarrow> x) = Inr ?er"
    by simp
  have tc: "chunkText (er_content ?er)
              (processing_chunk_options (po_chunkOptions no_processing_options)) = []"
    by (simp add: chunkText_abc_processing)
  have nb: "\<not> (er_content ?er = [] \<or> length (trim (er_content ?er)) = 0)"
    by (simp add: js_abc trim_abc)
  note T = chunkText_blank_input[where E="?E" and filePath="''upload-1.txt''"
      and h="map char_of [1, 2, 3 :: nat]" and db=empty_database and userId="''alice''"
      and mimeType="''text/plain''" and options=no_processing_options and er="?er"
      and input="[32, 9, 10, 13, 160, 8232]" and originalName="''notes.txt''" and fileSize=8
      and title=None and tr="[]"
      and chunkOptions="\<lparr> maxChunkSize = Some 5, chunkOverlap = Some 0,
        preserveSentences = Some False, preserveParagraphs = Some False,
        minChunkSize = Some 0, separators = Some [] \<rparr>"]
  from T[THEN conjunct1, THEN mp, OF sp]
    T[THEN conjunct2, rule_format, OF h none ex tc] sp nb
  show ?thesis by (simp add: list_all_iff)
qed

lemma chunk_rows_of_indices:
  assumes "chunk_rows_of i textChunks rows"
    and "map chunk_index textChunks = [0..<length textChunks]"
  shows "length rows = length textChunks" "map dc_chunk_index rows = [0..<length textChunks]"
    "filter (\<lambda>c. dc_document_id c = i) rows = rows"
proof -
  from assms show "map dc_chunk_index rows = [0..<length textChunks]"
    by (simp add: chunk_rows_of_def)
  from assms(1) have "length (map dc_chunk_index rows) = length (map chunk_index textChunks)"
    by (simp only: chunk_rows_of_def)
  then show "length rows = length textChunks" by simp
  from assms(1) show "filter (\<lambda>c. dc_document_id c = i) rows = rows"
    by (simp add: chunk_rows_of_def list_all_iff)
qed

lemma inserted_rows_of_document:
  assumes "\<forall>c\<in>set old. dc_document_id c \<noteq> i"
    and "chunk_rows_of i textChunks rows"
    and "map chunk_index textChunks = [0..<length textChunks]"
  shows "map dc_chunk_index
           (filter (\<lambda>c. dc_document_id c = i)
              (old @ map_index (\<lambda>r k. r\<lparr>dc_id := n + k\<rparr>) rows)) =
         [0..<length textChunks]"
proof -
  have old: "filter (\<lambda>c. dc_document_id c = i) old = []"
    using assms(1) by (simp add: filter_empty_conv)
  have new: "filter (\<lambda>c. dc_document_id c = i) (map_index (\<lambda>r k. r\<lparr>dc_id := n + k\<rparr>) rows) =
             map_index (\<lambda>r k. r\<lparr>dc_id := n + k\<rparr>) rows"
    using assms(2) by (auto simp: chunk_rows_of_def list_all_iff map_index_nth filter_id_conv)
  have "map dc_chunk_index (map_index (\<lambda>r k. r\<lparr>dc_id := n + k\<rparr>) rows) =
        map dc_chunk_index rows"
    by (simp add: map_map_index map_index_no_index)
  with old new chunk_rows_of_indices(2)[OF assms(2,3)] show ?thesis by simp
qed

text \<open>
  C6. The chunks that \<open>chunkText\<close> returns carry the indices 0, 1, ..., N - 1 in this
  order. When \<open>processDocument\<close> completes the ingestion of a new document in a database
  that meets its integrity constraints, the document row has status \<open>completed\<close>, its
  \<open>chunk_count\<close> is N > 0, the chunk rows stored for the document carry exactly the indices
  0, ..., N - 1 in table order, so do the chunks handed back to the caller, and the
  database still meets its constraints.
\<close>

theorem chunk_indices_contiguous:
  "map chunk_index (chunkText input chunkOptions) = [0..<length (chunkText input chunkOptions)] \<and>
   (wf_database db \<longrightarrow> calculateFileHash E filePath = Inr h \<longrightarrow>
    findDocumentByHash db h userId = None \<longrightarrow>
    processDocument E filePath originalName userId mimeType fileSize title options db tr =
      Some (r, db', tr') \<longrightarrow>
    res_success r \<longrightarrow>
    (\<exists>d. res_document r = Some d \<and> d_id d = next_id db \<and>
         d_processing_status d = completed \<and> 0 < d_chunk_count d \<and>
         map dc_chunk_index
           (filter (\<lambda>c. dc_document_id c = d_id d) (document_chunks db')) =
           [0..<d_chunk_count d] \<and>
         map_option (map dc_chunk_index) (res_chunks r) = Some [0..<d_chunk_count d]) \<and>
    wf_database db')"
proof (intro conjI impI)
  show "map chunk_index (chunkText input chunkOptions) = [0..<length (chunkText input chunkOptions)]"
    by (rule chunkText_chunk_index)
next
  assume wf: "wf_database db" and h: "calculateFileHash E filePath = Inr h"
    and none: "findDocumentByHash db h userId = None"
    and run: "processDocument E filePath originalName userId mimeType fileSize title options db tr =
      Some (r, db', tr')"
    and ok: "res_success r"
  from wf run show "wf_database db'" by (rule processDocument_wf_database)
  from run show "\<exists>d. res_document r = Some d \<and> d_id d = next_id db \<and>
         d_processing_status d = completed \<and> 0 < d_chunk_count d \<and>
         map dc_chunk_index
           (filter (\<lambda>c. dc_document_id c = d_id d) (document_chunks db')) =
           [0..<d_chunk_count d] \<and>
         map_option (map dc_chunk_index) (res_chunks r) = Some [0..<d_chunk_count d]"
  proof (cases rule: processDocument_cases)
    case (read_error e)
    with h show ?thesis by simp
  next
    case (dedup h' d)
    with h none show ?thesis by simp
  next
    case (failed h' document db0 e)
    with ok show ?thesis by (simp add: failure_result_def)
  next
    case (completed h' document db0 rows textChunks)
    note c = createDocumentRecord_simps[OF completed(3)]
    let ?n = "length textChunks"
    have id: "d_id document = next_id db" using c by simp
    have keys: "map doc_key (documents db') = map doc_key (documents db) @ [(next_id db, userId, h')]"
      unfolding completed(7) using c
      by (simp add: doc_key_def)
    have "next_id db \<in> d_id ` set (documents db')"
      using keys by (rule d_id_in_keys) simp
    from findById_Some[OF this] obtain d where d: "findById db' (next_id db) = Some d"
      "d_id d = next_id db" by blast
    from findById_updateDocumentProcessing[of "d_id document" completed ?n _ d] d(1) id
    have st: "d_processing_status d = completed" "d_chunk_count d = ?n"
      unfolding completed(7) by simp_all
    have old: "\<forall>c\<in>set (document_chunks db). dc_document_id c \<noteq> next_id db"
      using wf by (auto simp: wf_database_def list_all_iff)
    have chunks: "document_chunks db' = document_chunks db @
        map_index (\<lambda>r k. r\<lparr>dc_id := next_id db0 + k\<rparr>) rows"
      unfolding completed(7) using c by simp
    have idx: "map dc_chunk_index
                 (filter (\<lambda>c. dc_document_id c = next_id db) (document_chunks db')) = [0..<?n]"
      unfolding chunks
      using inserted_rows_of_document[OF old] completed(5,6) id by simp
    have "sorted (map dc_chunk_index
                 (filter (\<lambda>c. dc_document_id c = next_id db) (document_chunks db')))"
      unfolding idx by simp
    then have "getDocumentChunks db' (next_id db) =
               filter (\<lambda>c. dc_document_id c = next_id db) (document_chunks db')"
      unfolding getDocumentChunks_def by (rule sort_key_id_if_sorted)
    with idx completed(9) id
    have rc: "map_option (map dc_chunk_index) (res_chunks r) = Some [0..<?n]" by simp
    from completed(4) have "0 < ?n" by simp
    with d st idx rc completed(8) id show ?thesis by simp
  qed
qed


lemma hundred_letters_not_blank [simp]:
  "hundred_letters \<noteq> []" "trim hundred_letters \<noteq> []"
proof -
  show "hundred_letters \<noteq> []" by (simp add: hundred_letters_def)
  then show "trim hundred_letters \<noteq> []"
    by (simp add: trim_no_space[OF hundred_letters_no_space])
qed

lemma processDocument_pipeline_steady_hundred_letters:
  "\<exists>r db'. processDocument_pipeline (test_env steady_provider hundred_letters) document
              ''upload-1.txt'' ''text/plain'' no_processing_options db [] =
              Some (Inr r, db', [ProviderCall defaultModel [hundred_letters]])"
proof -
  have ci: "[(content (createChunk hundred_letters 0 0 100 Paragraph (Some 0)),
              chunk_index (createChunk hundred_letters 0 0 100 Paragraph (Some 0)))] =
            [(hundred_letters, 0)]"
    by (simp add: createChunk_def)
  show ?thesis
    by (simp add: processDocument_pipeline_def chunkText_hundred_letters Let_def ci
          generateEmbeddings_steady_hundred_letters storeEmbeddings_def
          processDocument_complete_def)
qed

lemma processDocument_steady_hundred_letters:
  "\<exists>r db'. processDocument (test_env steady_provider hundred_letters) ''upload-1.txt''
              ''notes.txt'' ''alice'' ''text/plain'' 100 None no_processing_options
              empty_database [] =
              Some (r, db', [ProviderCall defaultModel [hundred_letters]]) \<and> res_success r"
proof -
  let ?E = "test_env steady_provider hundred_letters"
  obtain document db0 where cr:
    "createDocumentRecord ?E ''upload-1.txt'' ''notes.txt'' ''alice'' ''text/plain'' 100
       (map char_of [1, 2, 3 :: nat]) None empty_database = (document, db0)"
    by (cases "createDocumentRecord ?E ''upload-1.txt'' ''notes.txt'' ''alice'' ''text/plain'' 100
       (map char_of [1, 2, 3 :: nat]) None empty_database")
  from processDocument_pipeline_steady_hundred_letters[of document
      "updateDocumentStatus (d_id document) processing db0"]
  obtain r db' where p: "processDocument_pipeline ?E document ''upload-1.txt'' ''text/plain''
      no_processing_options (updateDocumentStatus (d_id document) processing db0) [] =
      Some (Inr r, db', [ProviderCall defaultModel [hundred_letters]])"
    by blast
  from processDocument_pipeline_Inr[OF p] have "res_success r" by blast
  with cr p show ?thesis by (simp add: processDocument_def)
qed

subsection \<open>Two paragraphs without whitespace\<close>

lemma trim_ends:
  assumes "s \<noteq> []" and "\<not> is_space (hd s)" and "\<not> is_space (last s)"
  shows "trim s = s"
proof -
  have d: "dropWhile is_space t = t" if "t \<noteq> []" "\<not> is_space (hd t)" for t
    using that by (cases t) auto
  have "dropWhile is_space (rev s) = rev s"
    using assms by (intro d) (simp_all add: hd_rev)
  with d[OF assms(1,2)] show ?thesis by (simp add: trim_def)
qed

lemma trim_two_paragraphs:
  assumes "\<forall>c\<in>set p. \<not> is_space c" and "\<forall>c\<in>set q. \<not> is_space c"
    and "p \<noteq> []" and "q \<noteq> []"
  shows "trim (p @ [10, 10] @ q) = p @ [10, 10] @ q"
proof (rule trim_ends)
  show "p @ [10, 10] @ q \<noteq> []" by simp
  show "\<not> is_space (hd (p @ [10, 10] @ q))" using assms(1,3) by (cases p) auto
  show "\<not> is_space (last (p @ [10, 10] @ q))" using assms(2,4) by simp
qed

lemma collapse_newlines_two:
  assumes "10 \<notin> set p" and "10 \<notin> set q"
  shows "collapse_newlines (p @ [10, 10] @ q) = p @ [10, 10] @ q"
  using assms(1)
proof (induction p)
  case Nil
  have "takeWhile (\<lambda>d. d = 10) q = []" using assms(2) by (cases q) auto
  then show ?case using assms(2) by (simp add: collapse_newlines_none)
next
  case (Cons c p)
  then show ?case by simp
qed

lemma preprocessText_two_paragraphs:
  assumes "\<forall>c\<in>set p. \<not> is_space c" and "\<forall>c\<in>set q. \<not> is_space c"
    and "p \<noteq> []" and "q \<noteq> []"
  shows "preprocessText (p @ [10, 10] @ q) = p @ [10, 10] @ q"
proof -
  let ?s = "p @ [10, 10] @ q"
  have a: "13 \<notin> set ?s" "10 \<notin> set p" "10 \<notin> set q" "\<forall>c\<in>set ?s. \<not> is_blank c"
    using assms(1,2) by (auto simp: is_blank_def)
  have "map (\<lambda>c. if c = 13 then 10 else c) ?s = ?s"
    using a(1) by (intro map_idI) auto
  then have "replace_cr ?s = ?s" by (simp add: replace_cr_def)
  then show ?thesis
    unfolding preprocessText_def replace_crlf_no_cr[OF a(1)]
    by (simp only: collapse_blanks_none[OF a(4)] collapse_newlines_two[OF a(2,3)]
        trim_two_paragraphs[OF assms])
qed

lemma split_re_no_newline_prefix:
  "10 \<notin> set p \<Longrightarrow>
   split_re match_paragraph_break cur (p @ rest) = split_re match_paragraph_break (cur @ p) rest"
  by (induction p arbitrary: cur) (auto simp: match_paragraph_break_def)

lemma match_paragraph_break_two:
  assumes "q \<noteq> []" and "\<not> is_space (hd q)"
  shows "match_paragraph_break (10 # 10 # q) = Some 2"
proof -
  have "takeWhile is_space q = []" using assms by (cases q) auto
  then show ?thesis
    by (simp add: match_paragraph_break_def last_newline_def starts_with_def)
qed

lemma split_two_paragraphs:
  assumes "\<forall>c\<in>set p. \<not> is_space c" and "\<forall>c\<in>set q. \<not> is_space c" and "q \<noteq> []"
  shows "split_re match_paragraph_break [] (p @ [10, 10] @ q) = [p, q]"
proof -
  have a: "10 \<notin> set p" "10 \<notin> set q" "\<not> is_space (hd q)"
    using assms by (auto simp: hd_in_set)
  have "split_re match_paragraph_break [] (p @ [10, 10] @ q) =
        split_re match_paragraph_break p (10 # 10 # q)"
    using split_re_no_newline_prefix[OF a(1), of "[]" "[10, 10] @ q"] by simp
  also have "\<dots> = p # split_re match_paragraph_break [] q"
    by (simp add: match_paragraph_break_two[OF assms(3) a(3)] numeral_2_eq_2)
  also have "\<dots> = [p, q]"
    by (simp add: split_paragraphs_no_newline[OF a(2)])
  finally show ?thesis .
qed

lemma findTextPosition_prefix: "p \<noteq> [] \<Longrightarrow> findTextPosition (p @ rest) p = 0"
  by (cases p) (auto simp: findTextPosition_def indexOf_def substring_def starts_with_def min_def)

lemma indexOf_from_absent: "c \<notin> set s \<Longrightarrow> indexOf_from i s [c] = None"
  by (induction s arbitrary: i) (auto simp: starts_with_def)

lemma search_sentence_from_no_space:
  "\<forall>c\<in>set s. \<not> is_space c \<Longrightarrow> search_sentence_from i s = None"
  by (induction i s rule: search_sentence_from.induct) auto

lemma getOverlapText_no_space:
  assumes "\<forall>c\<in>set p. \<not> is_space c" and "n < length p"
  shows "getOverlapText p n = drop (length p - n) p"
proof -
  let ?o = "drop (length p - n) p"
  have ns: "\<forall>c\<in>set ?o. \<not> is_space c" using assms(1) by (auto dest: in_set_dropD)
  then have "32 \<notin> set ?o" by auto
  then have "indexOf ?o [32] = None" by (simp add: indexOf_def indexOf_from_absent)
  moreover have "search_sentence ?o = None"
    using ns by (simp add: search_sentence_def search_sentence_from_no_space)
  ultimately show ?thesis using assms(2) by (simp add: getOverlapText_def)
qed

text \<open>
  Two paragraphs that do not fit into one chunk: the first chunk is the first paragraph,
  the second chunk is the overlap taken from the end of the first paragraph, an empty line
  and the second paragraph.
\<close>

lemma chunkByParagraphs_two_paragraphs:
  assumes p: "\<forall>c\<in>set p. \<not> is_space c" and q: "\<forall>c\<in>set q. \<not> is_space c"
    and lp: "r_chunkOverlap opts < length p" and lq: "q \<noteq> []"
    and big: "r_maxChunkSize opts < length p + length q + 2"
    and ov: "0 < r_chunkOverlap opts"
    and small: "r_minChunkSize opts \<le> r_chunkOverlap opts + 2 + length q"
  shows "chunkByParagraphs (p @ [10, 10] @ q) opts =
         [createChunk p 0 0 (length p) Paragraph (Some 0),
          createChunk (drop (length p - r_chunkOverlap opts) p @ [10, 10] @ q) 1
            (findTextPosition (p @ [10, 10] @ q) q)
            (findTextPosition (p @ [10, 10] @ q) q + (r_chunkOverlap opts + 2 + length q))
            Paragraph (Some 1)]"
proof -
  let ?t = "p @ [10, 10] @ q"
  let ?o = "drop (length p - r_chunkOverlap opts) p"
  from lp have pne: "p \<noteq> []" by auto
  have one: "drop (length p - r_chunkOverlap opts) p \<noteq> []" using lp ov by simp
  have ons: "\<forall>c\<in>set ?o. \<not> is_space c" using p by (auto dest: in_set_dropD)
  have lo: "length ?o = r_chunkOverlap opts" using lp by simp
  have tp: "trim p = p" and tq: "trim q = q"
    by (rule trim_no_space[OF p], rule trim_no_space[OF q])
  have t2: "trim (?o @ [10, 10] @ q) = ?o @ [10, 10] @ q"
    by (rule trim_two_paragraphs[OF ons q one lq])
  have paras: "filter (\<lambda>x. length (trim x) > 0) (split_re match_paragraph_break [] ?t) = [p, q]"
    unfolding split_two_paragraphs[OF p q lq] using pne lq by (simp add: tp tq)
  have loop: "chunkByParagraphs_loop ?t opts [p, q] ([], [], 0, 0) =
        ([createChunk p 0 0 (length p) Paragraph (Some 0)], ?o @ [10, 10] @ q,
         findTextPosition ?t q, 2)"
    using pne big one
    by (simp add: tp tq Let_def findTextPosition_prefix getOverlapText_no_space[OF p lp])
  show ?thesis
    unfolding chunkByParagraphs_def Let_def paras loop
    using small lp by (simp add: t2[simplified] lo)
qed

lemma chunkText_two_paragraphs_general:
  assumes p: "\<forall>c\<in>set p. \<not> is_space c" and q: "\<forall>c\<in>set q. \<not> is_space c"
    and lp: "100 < length p" and lq: "q \<noteq> []"
    and big: "1000 < length p + length q + 2"
  shows "map (\<lambda>chunk. (content chunk, chunk_index chunk))
           (chunkText (p @ [10, 10] @ q) (processing_chunk_options None)) =
         [(p, 0), (drop (length p - 100) p @ [10, 10] @ q, 1)]"
proof -
  let ?opts = "spread_options defaultOptions (processing_chunk_options None)"
  let ?o = "drop (length p - 100) p"
  have o: "r_chunkOverlap ?opts = 100" "r_maxChunkSize ?opts = 1000" "r_minChunkSize ?opts = 100"
    "r_preserveParagraphs ?opts"
    by (simp_all add: spread_options_def defaultOptions_def processing_chunk_options_def)
  from lp have pne: "p \<noteq> []" by auto
  have one: "?o \<noteq> []" using lp by simp
  have ons: "\<forall>c\<in>set ?o. \<not> is_space c" using p by (auto dest: in_set_dropD)
  have tp: "trim p = p" by (rule trim_no_space[OF p])
  have t2: "trim (?o @ [10, 10] @ q) = ?o @ [10, 10] @ q"
    by (rule trim_two_paragraphs[OF ons q one lq])
  have tt: "trim (p @ [10, 10] @ q) = p @ [10, 10] @ q"
    by (rule trim_two_paragraphs[OF p q pne lq])
  have cb: "chunkByParagraphs (p @ [10, 10] @ q) ?opts =
         [createChunk p 0 0 (length p) Paragraph (Some 0),
          createChunk (?o @ [10, 10] @ q) 1
            (findTextPosition (p @ [10, 10] @ q) q)
            (findTextPosition (p @ [10, 10] @ q) q + (100 + 2 + length q))
            Paragraph (Some 1)]"
    using chunkByParagraphs_two_paragraphs[OF p q _ lq, of ?opts] lp big
    by (simp add: o)
  note pp = preprocessText_two_paragraphs[OF p q pne lq]
  have up: "[0..<2] = [0, Suc 0]" by (simp add: upt_rec)
  show ?thesis
    using lp
    by (simp add: chunkText_def Let_def tt[simplified] pp[simplified] o cb[simplified]
        postProcessChunks_def map_index_def createChunk_def tp t2[simplified] up)
qed

lemma two_paragraphs_chunks:
  "map (\<lambda>chunk. (content chunk, chunk_index chunk))
     (chunkText two_paragraphs (processing_chunk_options None)) =
   [(replicate 600 97, 0), (replicate 100 97 @ [10, 10] @ replicate 600 98, 1)]"
  unfolding two_paragraphs_def
  using chunkText_two_paragraphs_general[of "replicate 600 97" "replicate 600 98"]
  by (simp add: is_space_def)

subsection \<open>The ingestion of two paragraphs\<close>

lemma validateAndTruncateText_trimmed:
  assumes "trim s = s" and "s \<noteq> []" and "length s \<le> 32761"
  shows "validateAndTruncateText s = Inr s"
proof -
  have "(length s + 3) div 4 \<le> 8191" using assms(3) by simp
  with assms(1,2) show ?thesis
    by (simp add: validateAndTruncateText_def maxInputLength_def)
qed

lemma validateChunks_trimmed2:
  assumes "trim s = s" "s \<noteq> []" "length s \<le> 32761"
    and "trim t = t" "t \<noteq> []" "length t \<le> 32761"
  shows "validateChunks [(s, k), (t, l)] = [(s, k), (t, l)]"
  using assms
  by (simp add: validateChunks_def validateAndTruncateText_trimmed)

lemma generateEmbeddings_steady_two_chunks:
  assumes s: "trim s = s" "s \<noteq> []" "length s \<le> 32761"
    and t: "trim t = t" "t \<noteq> []" "length t \<le> 32761"
  shows "generateEmbeddings steady_provider [(s, 0), (t, 1)] no_embedding_options [] =
         Some (Inr \<lparr> embeddings = [\<lparr> embedding = [1], tokens = 500, index = 0 \<rparr>,
                                   \<lparr> embedding = [1], tokens = 500, index = 1 \<rparr>],
                     totalTokens = 1000, cost = calculateCost 1000 \<rparr>,
               [ProviderCall defaultModel [s, t]])"
proof -
  note vc = validateChunks_trimmed2[OF s t]
  let ?resp = "\<lparr> data = [[1], [1]], total_tokens = 1000 \<rparr>"
  have valid: "map_throwing (\<lambda>(c, i). validateAndTruncateText c) [(s, 0 :: nat), (t, 1)] =
               Inr [s, t]"
    by (simp add: validateAndTruncateText_trimmed[OF s] validateAndTruncateText_trimmed[OF t])
  have pf: "provider_fails steady_provider defaultModel [s, t] (n_calls []) 0" by simp
  have ok: "steady_provider (n_calls [] + 0) defaultModel [s, t] = Inr ?resp"
    by (simp add: steady_provider_def)
  have len: "length (data ?resp) \<le> length [(s, 0 :: nat), (t, 1 :: nat)]" by simp
  have pb: "processBatch steady_provider [(s, 0), (t, 1)] defaultModel 3 1000 [] =
            (Inr ([\<lparr> embedding = [1], tokens = 500, index = 0 \<rparr>,
                   \<lparr> embedding = [1], tokens = 500, index = 1 \<rparr>], 1000),
             [ProviderCall defaultModel [s, t]])"
    using processBatch_first_success[OF valid pf _ ok len, of 3 1000]
    by (simp add: round_div_def)
  have ls: "loop_state steady_provider (validateChunks [(s, 0), (t, 1)])
              (min 50 maxBatchSize) defaultModel 3 1000 [] 1 =
            Some (50, [\<lparr> embedding = [1], tokens = 500, index = 0 \<rparr>,
                       \<lparr> embedding = [1], tokens = 500, index = 1 \<rparr>], 1000,
                  [ProviderCall defaultModel [s, t]])"
    using pb by (simp add: vc maxBatchSize_def)
  have "\<not> 50 < length (validateChunks [(s, 0), (t, 1)])"
    "validateChunks [(s, 0), (t, 1)] \<noteq> []"
    by (simp_all add: vc)
  from generateEmbeddings_all_batches_succeed[OF ls this]
  show ?thesis
    by (simp add: no_embedding_options_def generateEmbeddings_defaults)
qed

lemma two_paragraphs_not_blank [simp]:
  "two_paragraphs \<noteq> []" "trim two_paragraphs \<noteq> []"
proof -
  show ne: "two_paragraphs \<noteq> []" by (simp add: two_paragraphs_def)
  have "trim two_paragraphs = two_paragraphs"
    unfolding two_paragraphs_def
    by (rule trim_two_paragraphs) (simp_all add: is_space_def)
  with ne show "trim two_paragraphs \<noteq> []" by simp
qed

lemma length_two_paragraphs_chunks [simp]:
  "length (chunkText two_paragraphs (processing_chunk_options None)) = 2"
proof -
  have "length (map (\<lambda>chunk. (content chunk, chunk_index chunk))
                 (chunkText two_paragraphs (processing_chunk_options None))) = 2"
    unfolding two_paragraphs_chunks by simp
  then show ?thesis by simp
qed

lemma generateEmbeddings_steady_two_paragraphs:
  "generateEmbeddings steady_provider
     [(replicate 600 97, 0), (replicate 100 97 @ [10, 10] @ replicate 600 98, 1)]
     no_embedding_options [] =
   Some (Inr \<lparr> embeddings = [\<lparr> embedding = [1], tokens = 500, index = 0 \<rparr>,
                             \<lparr> embedding = [1], tokens = 500, index = 1 \<rparr>],
               totalTokens = 1000, cost = calculateCost 1000 \<rparr>,
         [ProviderCall defaultModel
            [replicate 600 97, replicate 100 97 @ [10, 10] @ replicate 600 98]])"
proof (rule generateEmbeddings_steady_two_chunks)
  show "trim (replicate 600 97) = replicate 600 97"
    by (rule trim_no_space) (simp add: is_space_def)
  show "trim (replicate 100 97 @ [10, 10] @ replicate 600 98) =
        replicate 100 97 @ [10, 10] @ replicate 600 98"
    by (rule trim_two_paragraphs) (simp_all add: is_space_def)
qed simp_all

text \<open>
  The chunk count that a completed pipeline writes to the document row is the number of
  chunks that \<open>chunkText\<close> returned.
\<close>

lemma processDocument_pipeline_Inr_count:
  assumes "processDocument_pipeline E document filePath mimeType options db tr =
           Some (Inr r, db', tr')"
    and er: "extractText E filePath mimeType
               (case po_extractionOptions options of
                  None \<Rightarrow> \<lparr> xo_preserveFormatting = None, xo_maxLength = None \<rparr>
                | Some x \<Rightarrow> x) = Inr er"
  shows "\<exists>db1. db' = updateDocumentProcessing (d_id document) completed
                       (length (chunkText (er_content er)
                                  (processing_chunk_options (po_chunkOptions options)))) db1"
  using assms
  unfolding processDocument_pipeline_def Let_def processDocument_complete_def
  by (auto split: sum.splits option.splits prod.splits if_splits)

lemma processDocument_pipeline_steady_two_paragraphs:
  "\<exists>r db'. processDocument_pipeline (test_env steady_provider two_paragraphs) document
              ''upload-1.txt'' ''text/plain'' no_processing_options db [] =
              Some (Inr r, db',
                    [ProviderCall defaultModel
                       [replicate 600 97, replicate 100 97 @ [10, 10] @ replicate 600 98]])"
proof -
  have ne: "chunkText two_paragraphs (processing_chunk_options None) \<noteq> []"
    using length_two_paragraphs_chunks by fastforce
  show ?thesis
    by (simp add: processDocument_pipeline_def Let_def two_paragraphs_chunks[simplified] ne
          generateEmbeddings_steady_two_paragraphs[simplified] storeEmbeddings_def
          processDocument_complete_def)
qed

lemma processDocument_steady_two_paragraphs:
  assumes none: "findDocumentByHash db (map char_of [1, 2, 3 :: nat]) ''alice'' = None"
  shows "\<exists>r db' d. processDocument (test_env steady_provider two_paragraphs) ''upload-1.txt''
              ''notes.txt'' ''alice'' ''text/plain'' 1202 None no_processing_options db [] =
              Some (r, db',
                    [ProviderCall defaultModel
                       [replicate 600 97, replicate 100 97 @ [10, 10] @ replicate 600 98]]) \<and>
            res_success r \<and> res_document r = Some d \<and> d_chunk_count d = 2"
proof -
  let ?E = "test_env steady_provider two_paragraphs"
  let ?tr = "[ProviderCall defaultModel
                [replicate 600 97, replicate 100 97 @ [10, 10] @ replicate 600 98]]"
  obtain document db0 where cr:
    "createDocumentRecord ?E ''upload-1.txt'' ''notes.txt'' ''alice'' ''text/plain'' 1202
       (map char_of [1, 2, 3 :: nat]) None db = (document, db0)"
    by (cases "createDocumentRecord ?E ''upload-1.txt'' ''notes.txt'' ''alice'' ''text/plain'' 1202
       (map char_of [1, 2, 3 :: nat]) None db")
  from processDocument_pipeline_steady_two_paragraphs[of document
      "updateDocumentStatus (d_id document) processing db0"]
  obtain r db' where p: "processDocument_pipeline ?E document ''upload-1.txt'' ''text/plain''
      no_processing_options (updateDocumentStatus (d_id document) processing db0) [] =
      Some (Inr r, db', ?tr)"
    by blast
  from processDocument_pipeline_Inr[OF p] have ok: "res_success r"
    and rd: "res_document r = findById db' (d_id document)" by blast+
  have ex: "extractText ?E ''upload-1.txt'' ''text/plain''
              (case po_extractionOptions no_processing_options of
                 None \<Rightarrow> \<lparr> xo_preserveFormatting = None, xo_maxLength = None \<rparr>
               | Some x \<Rightarrow> x) = Inr \<lparr> er_content = two_paragraphs, er_wordCount = 1 \<rparr>"
    by simp
  from processDocument_pipeline_Inr_count[OF p ex] obtain db1 where
    db': "db' = updateDocumentProcessing (d_id document) completed 2 db1"
    by auto
  have run: "processDocument ?E ''upload-1.txt'' ''notes.txt'' ''alice'' ''text/plain'' 1202 None
               no_processing_options db [] = Some (r, db', ?tr)"
    using cr p none by (simp add: processDocument_def)
  have h: "calculateFileHash ?E ''upload-1.txt'' = Inr (map char_of [1, 2, 3 :: nat])" by simp
  from processDocument_fresh[OF h none run] obtain d where
    d: "res_document r = Some d" "d_id d = next_id db" by blast
  from d(1) rd have "findById (updateDocumentProcessing (d_id document) completed 2 db1)
                       (d_id document) = Some d"
    unfolding db' by simp
  from findById_updateDocumentProcessing[OF this] have "d_chunk_count d = 2" by simp
  with run ok d(1) show ?thesis by blast
qed

lemma bobs_database_simps [simp]:
  "wf_database bobs_database"
  "findDocumentByHash bobs_database h ''alice'' = None"
  "next_id bobs_database = 2"
  by (simp_all add: bobs_database_def wf_database_def findDocumentByHash_def)

theorem chunk_indices_contiguous_witness:
  "map chunk_index (chunkText two_paragraphs (processing_chunk_options None)) = [0, 1] \<and>
   wf_database bobs_database \<and>
   (\<exists>r db' d. processDocument (test_env steady_provider two_paragraphs) ''upload-1.txt''
              ''notes.txt'' ''alice'' ''text/plain'' 1202 None no_processing_options
              bobs_database [] =
              Some (r, db',
                    [ProviderCall defaultModel
                       [replicate 600 97, replicate 100 97 @ [10, 10] @ replicate 600 98]]) \<and>
            res_success r \<and>
            res_document r = Some d \<and> d_id d = 2 \<and> d_processing_status d = completed \<and>
            d_chunk_count d = 2 \<and>
            map dc_chunk_index (filter (\<lambda>c. dc_document_id c = 2) (document_chunks db')) =
              [0, 1] \<and>
            map_option (map dc_chunk_index) (res_chunks r) = Some [0, 1] \<and>
            wf_database db')"
proof -
  let ?E = "test_env steady_provider two_paragraphs"
  let ?tr = "[ProviderCall defaultModel
                [replicate 600 97, replicate 100 97 @ [10, 10] @ replicate 600 98]]"
  have none: "findDocumentByHash bobs_database (map char_of [1, 2, 3 :: nat]) ''alice'' = None"
    by simp
  from processDocument_steady_two_paragraphs[OF none] obtain r db' d where
    run: "processDocument ?E ''upload-1.txt'' ''notes.txt'' ''alice'' ''text/plain'' 1202 None
            no_processing_options bobs_database [] = Some (r, db', ?tr)"
    and ok: "res_success r" and d: "res_document r = Some d" "d_chunk_count d = 2"
    by blast
  have wf: "wf_database bobs_database" by simp
  have h: "calculateFileHash ?E ''upload-1.txt'' = Inr (map char_of [1, 2, 3 :: nat])" by simp
  have up: "[0..<2] = [0, Suc 0]" by (simp add: upt_rec)
  note T = chunk_indices_contiguous[where input=two_paragraphs
      and chunkOptions="processing_chunk_options None" and db=bobs_database and E="?E"
      and filePath="''upload-1.txt''" and h="map char_of [1, 2, 3 :: nat]"
      and userId="''alice''" and originalName="''notes.txt''" and mimeType="''text/plain''"
      and fileSize=1202 and title=None and options=no_processing_options and tr="[]"
      and r=r and db'=db' and tr'="?tr"]
  from T[THEN conjunct1]
  have c1: "map chunk_index (chunkText two_paragraphs (processing_chunk_options None)) = [0, 1]"
    by (simp add: up)
  from T[THEN conjunct2, rule_format, OF wf h none run ok] d
  have c2: "d_id d = 2 \<and> d_processing_status d = completed \<and>
            map dc_chunk_index (filter (\<lambda>c. dc_document_id c = 2) (document_chunks db')) =
              [0, 1] \<and>
            map_option (map dc_chunk_index) (res_chunks r) = Some [0, 1] \<and>
            wf_database db'"
    by (auto simp: up)
  from c1 c2 run ok d wf show ?thesis by auto
qed

theorem processDocument_idempotent_witness:
  "readFile (test_env steady_provider two_paragraphs) ''upload-1.txt'' = Inr [1, 2, 3] \<and>
   readFile (test_env steady_provider two_paragraphs) ''upload-2.txt'' = Inr [1, 2, 3] \<and>
   wf_database bobs_database \<and>
   map d_user_id (documents bobs_database) = [''bob''] \<and>
   map d_content_hash (documents bobs_database) = [map char_of [1, 2, 3 :: nat]] \<and>
   (\<exists>r1 db1 tr1 d1 r2 d2.
      processDocument (test_env steady_provider two_paragraphs) ''upload-1.txt'' ''notes.txt''
        ''alice'' ''text/plain'' 1202 None no_processing_options bobs_database [] =
        Some (r1, db1, tr1) \<and>
      res_success r1 \<and> res_document r1 = Some d1 \<and> d_chunk_count d1 = 2 \<and>
      length (document_chunks db1) = 3 \<and>
      processDocument (test_env steady_provider two_paragraphs) ''upload-2.txt'' ''copy.txt''
        ''alice'' ''text/markdown'' 1202 (Some ''Copy'') no_processing_options db1 tr1 =
        Some (r2, db1, tr1) \<and>
      res_document r2 = Some d2 \<and> res_success r2 \<and> res_chunks r2 = None \<and>
      res_error r2 = None \<and>
      d_id d2 = d_id d1 \<and> d2 \<in> set (documents db1) \<and>
      d_user_id d2 = ''alice'' \<and> d_content_hash d2 = map char_of [1, 2, 3 :: nat] \<and>
      wf_database db1 \<and> findById db1 (d_id d1) = Some d2 \<and> d2 = d1 \<and> d_id d2 = 2)"
proof -
  let ?E = "test_env steady_provider two_paragraphs"
  have none: "findDocumentByHash bobs_database (map char_of [1, 2, 3 :: nat]) ''alice'' = None"
    by simp
  from processDocument_steady_two_paragraphs[OF none] obtain r db' d tr' where
    run: "processDocument ?E ''upload-1.txt'' ''notes.txt'' ''alice'' ''text/plain'' 1202 None
            no_processing_options bobs_database [] = Some (r, db', tr')"
    and ok: "res_success r" and d: "res_document r = Some d" "d_chunk_count d = 2"
    by blast
  have h: "calculateFileHash ?E ''upload-1.txt'' = Inr (map char_of [1, 2, 3 :: nat])" by simp
  from processDocument_fresh[OF h none run] d(1) have id: "d_id d = 2" by simp
  have r1: "readFile ?E ''upload-1.txt'' = Inr [1, 2, 3]"
    and r2: "readFile ?E ''upload-2.txt'' = Inr [1, 2, 3]"
    by simp_all
  have sha: "sha256_hex ?E [1, 2, 3] = map char_of [1, 2, 3 :: nat]"
    by (simp add: test_env_def)
  from processDocument_idempotent[OF r1 r2, of "''notes.txt''" "''alice''" "''text/plain''" 1202
      None no_processing_options bobs_database "[]" "''copy.txt''" "''text/markdown''" 1202
      "Some ''Copy''" no_processing_options]
  obtain r1 db1 tr1 d1 r2 d2 where
    a: "processDocument ?E ''upload-1.txt'' ''notes.txt'' ''alice'' ''text/plain'' 1202 None
          no_processing_options bobs_database [] = Some (r1, db1, tr1)"
      "res_document r1 = Some d1"
      "processDocument ?E ''upload-2.txt'' ''copy.txt'' ''alice'' ''text/markdown'' 1202
          (Some ''Copy'') no_processing_options db1 tr1 = Some (r2, db1, tr1)"
      "res_document r2 = Some d2" "res_success r2" "res_chunks r2 = None" "res_error r2 = None"
      "d_id d2 = d_id d1" "d2 \<in> set (documents db1)"
      "d_user_id d2 = ''alice''" "d_content_hash d2 = sha256_hex ?E [1, 2, 3]"
    and b: "wf_database bobs_database \<longrightarrow>
              wf_database db1 \<and> findById db1 (d_id d1) = Some d2 \<and>
              d_user_id d1 = ''alice'' \<and> d_content_hash d1 = sha256_hex ?E [1, 2, 3] \<and>
              (res_success r1 \<longrightarrow> d2 = d1)"
    by blast
  from a(1) run have eq: "r1 = r" "db1 = db'" "tr1 = tr'" by simp_all
  with a(2) d ok id have first: "res_success r1" "d_chunk_count d1 = 2" "d_id d1 = 2" by simp_all
  from processDocument_completed_chunk_rows[OF a(1) first(1) h none a(2)] first(2)
  have rows: "length (document_chunks db1) = 3" by (simp add: bobs_database_def)
  from b first(1) have c: "wf_database db1" "findById db1 (d_id d1) = Some d2" "d2 = d1"
    by simp_all
  have bob: "map d_user_id (documents bobs_database) = [''bob'']"
    "map d_content_hash (documents bobs_database) = [map char_of [1, 2, 3 :: nat]]"
    by (simp_all add: bobs_database_def)
  have wf: "wf_database bobs_database" by simp
  from a first c rows have "\<exists>r1 db1 tr1 d1 r2 d2.
      processDocument ?E ''upload-1.txt'' ''notes.txt''
        ''alice'' ''text/plain'' 1202 None no_processing_options bobs_database [] =
        Some (r1, db1, tr1) \<and>
      res_success r1 \<and> res_document r1 = Some d1 \<and> d_chunk_count d1 = 2 \<and>
      length (document_chunks db1) = 3 \<and>
      processDocument ?E ''upload-2.txt'' ''copy.txt''
        ''alice'' ''text/markdown'' 1202 (Some ''Copy'') no_processing_options db1 tr1 =
        Some (r2, db1, tr1) \<and>
      res_document r2 = Some d2 \<and> res_success r2 \<and> res_chunks r2 = None \<and>
      res_error r2 = None \<and>
      d_id d2 = d_id d1 \<and> d2 \<in> set (documents db1) \<and>
      d_user_id d2 = ''alice'' \<and> d_content_hash d2 = map char_of [1, 2, 3 :: nat] \<and>
      wf_database db1 \<and> findById db1 (d_id d1) = Some d2 \<and> d2 = d1 \<and> d_id d2 = 2"
    unfolding sha
    by (intro exI[of _ r1] exI[of _ db1] exI[of _ tr1] exI[of _ d1] exI[of _ r2] exI[of _ d2])
       simp
  with r1 r2 wf bob show ?thesis by (simp only: simp_thms)
qed

subsection \<open>Reprocessing\<close>

lemma updateEmbeddings_loop_frame:
  "updateEmbeddings_loop sel embs db = (err, db') \<Longrightarrow>
   documents db' = documents db \<and> next_id db' = next_id db \<and>
   list_all2 (\<lambda>c c'. c'\<lparr>dc_embedding := None\<rparr> = c\<lparr>dc_embedding := None\<rparr> \<and>
                      (dc_id c \<notin> dc_id ` set sel \<longrightarrow> c' = c))
     (document_chunks db) (document_chunks db')"
proof (induction sel embs db rule: updateEmbeddings_loop.induct)
  case (1 embs db)
  then show ?case by (simp add: list_all2_same)
next
  case (2 chunk rest db)
  then show ?case by (simp add: list_all2_same)
next
  case (3 chunk rest e embs db)
  let ?db1 = "update_chunk (dc_id chunk) (\<lambda>c. c\<lparr>dc_embedding := Some (embedding e)\<rparr>) db"
  from 3 have IH: "documents db' = documents ?db1 \<and> next_id db' = next_id ?db1 \<and>
     list_all2 (\<lambda>c c'. c'\<lparr>dc_embedding := None\<rparr> = c\<lparr>dc_embedding := None\<rparr> \<and>
                      (dc_id c \<notin> dc_id ` set rest \<longrightarrow> c' = c))
     (document_chunks ?db1) (document_chunks db')"
    by simp
  then have "list_all2 (\<lambda>c c'. c'\<lparr>dc_embedding := None\<rparr> = c\<lparr>dc_embedding := None\<rparr> \<and>
                      (dc_id c \<notin> dc_id ` set (chunk # rest) \<longrightarrow> c' = c))
     (document_chunks db) (document_chunks db')"
    by (auto simp: list_all2_map1 elim!: list_all2_mono)
  with IH show ?case by simp
qed

lemma updateEmbeddings_frame:
  assumes "updateEmbeddings E documentId force db tr = Some (res, db', tr')"
  shows "documents db' = documents db \<and> next_id db' = next_id db \<and>
   list_all2 (\<lambda>c c'. c'\<lparr>dc_embedding := None\<rparr> = c\<lparr>dc_embedding := None\<rparr> \<and>
                      (dc_id c \<notin> dc_id ` {x \<in> set (document_chunks db).
                                               selected_for_update documentId force x} \<longrightarrow> c' = c))
     (document_chunks db) (document_chunks db')"
proof -
  let ?chunks = "getDocumentChunks db documentId"
  let ?sel = "if force then ?chunks else filter lacks_embedding ?chunks"
  have sel: "set ?sel = {x \<in> set (document_chunks db). selected_for_update documentId force x}"
    by (auto simp: getDocumentChunks_def selected_for_update_def)
  have same: "list_all2 (\<lambda>c c'. c'\<lparr>dc_embedding := None\<rparr> = c\<lparr>dc_embedding := None\<rparr> \<and>
                      (dc_id c \<notin> dc_id ` set ?sel \<longrightarrow> c' = c))
     (document_chunks db) (document_chunks db)"
    by (simp add: list_all2_same)
  from assms have "db' = db \<or> (\<exists>embs err. updateEmbeddings_loop ?sel embs db = (err, db'))"
    unfolding updateEmbeddings_def Let_def
    by (auto split: if_splits option.splits sum.splits prod.splits)
  then show ?thesis
  proof
    assume "db' = db"
    with same sel show ?thesis by simp
  next
    assume "\<exists>embs err. updateEmbeddings_loop ?sel embs db = (err, db')"
    then obtain embs err where "updateEmbeddings_loop ?sel embs db = (err, db')" by blast
    from updateEmbeddings_loop_frame[OF this] sel show ?thesis by simp
  qed
qed


lemma updateEmbeddings_returns [simp]:
  "updateEmbeddings E documentId force db tr \<noteq> None"
  unfolding updateEmbeddings_def Let_def
  by (auto split: sum.splits option.splits prod.splits)

lemma reprocessDocument_returns:
  "reprocessDocument E documentId userId force db tr \<noteq> None"
  unfolding reprocessDocument_def
  by (auto split: list.splits sum.splits option.splits prod.splits)

lemma updateEmbeddings_nothing_to_do:
  assumes "\<not> force"
    and "list_all (\<lambda>c. dc_document_id c = documentId \<longrightarrow> \<not> lacks_embedding c) (document_chunks db)"
  shows "updateEmbeddings E documentId force db tr = Some (Inr (0, 0), db, tr)"
proof -
  have "filter lacks_embedding (getDocumentChunks db documentId) = []"
    using assms(2) by (auto simp: getDocumentChunks_def list_all_iff filter_empty_conv)
  with assms(1) show ?thesis by (simp add: updateEmbeddings_def Let_def)
qed

lemma first_match_is_findById:
  assumes "distinct (map d_id (documents db))"
    and "filter (\<lambda>d. d_id d = i \<and> d_user_id d = u) (documents db) = d0 # ds"
  shows "findById db i = Some d0 \<and> d_user_id d0 = u"
proof -
  from assms(2) have "d0 \<in> set (filter (\<lambda>d. d_id d = i \<and> d_user_id d = u) (documents db))"
    by simp
  then have d0: "d0 \<in> set (documents db)" "d_id d0 = i" "d_user_id d0 = u" by auto
  then have "i \<in> d_id ` set (documents db)" by auto
  from findById_Some[OF this] obtain d where d: "findById db i = Some d" "d_id d = i" by blast
  then have "d \<in> set (documents db)" unfolding findById_def by (auto dest: find_SomeD)
  with assms(1) d0 d(2) have "d = d0"
    by (auto simp: distinct_map dest: inj_onD)
  with d d0 show ?thesis by simp
qed

lemma findById_is_first_match:
  assumes "distinct (map d_id (documents db))"
    and "findById db i = Some d" and "d_user_id d = u"
  shows "\<exists>ds. filter (\<lambda>d. d_id d = i \<and> d_user_id d = u) (documents db) = d # ds"
proof -
  from assms(2) have "d \<in> set (documents db)" "d_id d = i"
    unfolding findById_def by (auto dest: find_SomeD)
  with assms(3) have "d \<in> set (filter (\<lambda>d. d_id d = i \<and> d_user_id d = u) (documents db))"
    by simp
  then obtain d0 ds where f: "filter (\<lambda>d. d_id d = i \<and> d_user_id d = u) (documents db) = d0 # ds"
    by (cases "filter (\<lambda>d. d_id d = i \<and> d_user_id d = u) (documents db)") auto
  from first_match_is_findById[OF assms(1) f] assms(2) have "d0 = d" by simp
  with f show ?thesis by simp
qed

text \<open>
  C9. In a database that meets its integrity constraints \<open>reprocessDocument\<close> returns. It
  succeeds only for a document of the caller whose status is \<open>completed\<close>, unless forced.
  Not forced, for a completed document all of whose chunks carry an embedding, it returns
  zero updated chunks at cost zero and leaves database and provider trace untouched. In
  every case the document rows are as before and the chunk rows differ from the old ones
  at most in the embedding field of the selected rows.
\<close>

theorem reprocessDocument_frame:
  assumes wf: "wf_database db"
  shows "\<exists>res db' tr'.
           reprocessDocument E documentId userId force db tr = Some (res, db', tr') \<and>
           (isl res \<or>
            (\<exists>d. findById db documentId = Some d \<and> d_user_id d = userId \<and>
                 (d_processing_status d = completed \<or> force))) \<and>
           (\<not> force \<and>
            (\<exists>d. findById db documentId = Some d \<and> d_user_id d = userId \<and>
                 d_processing_status d = completed) \<and>
            list_all (\<lambda>c. dc_document_id c = documentId \<longrightarrow> \<not> lacks_embedding c)
              (document_chunks db) \<longrightarrow>
            res = Inr (0, 0) \<and> db' = db \<and> tr' = tr) \<and>
           documents db' = documents db \<and> next_id db' = next_id db \<and>
           list_all2 (\<lambda>c c'. c'\<lparr>dc_embedding := None\<rparr> = c\<lparr>dc_embedding := None\<rparr> \<and>
                              (\<not> selected_for_update documentId force c \<longrightarrow> c' = c))
             (document_chunks db) (document_chunks db')"
proof -
  from wf have dd: "distinct (map d_id (documents db))"
    and dc: "distinct (map dc_id (document_chunks db))"
    by (simp_all add: wf_database_def)
  obtain res db' tr' where run:
    "reprocessDocument E documentId userId force db tr = Some (res, db', tr')"
    using reprocessDocument_returns[of E documentId userId force db tr]
    by (cases "reprocessDocument E documentId userId force db tr") auto
  let ?match = "filter (\<lambda>d. d_id d = documentId \<and> d_user_id d = userId) (documents db)"
  let ?R = "\<lambda>c c'. c'\<lparr>dc_embedding := None\<rparr> = c\<lparr>dc_embedding := None\<rparr> \<and>
                   (\<not> selected_for_update documentId force c \<longrightarrow> c' = c)"
  have same: "list_all2 ?R (document_chunks db) (document_chunks db)"
    by (simp add: list_all2_same)
  have A: "isl res \<or>
            (\<exists>d. findById db documentId = Some d \<and> d_user_id d = userId \<and>
                 (d_processing_status d = completed \<or> force))"
  proof (cases ?match)
    case Nil
    with run have "res = Inl ''Document not found or access denied''"
      by (simp add: reprocessDocument_def)
    then show ?thesis by simp
  next
    case (Cons d0 ds)
    from first_match_is_findById[OF dd Cons] run Cons show ?thesis
      by (auto simp: reprocessDocument_def split: if_splits)
  qed
  have B: "res = Inr (0, 0) \<and> db' = db \<and> tr' = tr"
    if nf: "\<not> force"
      and d: "\<exists>d. findById db documentId = Some d \<and> d_user_id d = userId \<and>
                 d_processing_status d = completed"
      and all: "list_all (\<lambda>c. dc_document_id c = documentId \<longrightarrow> \<not> lacks_embedding c)
                  (document_chunks db)"
  proof -
    from d obtain d where d': "findById db documentId = Some d" "d_user_id d = userId"
      "d_processing_status d = completed" by blast
    from findById_is_first_match[OF dd d'(1,2)] obtain ds where "?match = d # ds" by blast
    with run d'(3) updateEmbeddings_nothing_to_do[OF nf all, of E tr]
    show ?thesis by (simp add: reprocessDocument_def)
  qed
  have C: "documents db' = documents db \<and> next_id db' = next_id db \<and>
           list_all2 ?R (document_chunks db) (document_chunks db')"
  proof -
    from run have "db' = db \<or> (\<exists>r. updateEmbeddings E documentId force db tr = Some (r, db', tr'))"
      unfolding reprocessDocument_def
      by (auto split: list.splits if_splits option.splits sum.splits prod.splits)
    then show ?thesis
    proof
      assume "db' = db"
      with same show ?thesis by simp
    next
      assume "\<exists>r. updateEmbeddings E documentId force db tr = Some (r, db', tr')"
      then obtain r where "updateEmbeddings E documentId force db tr = Some (r, db', tr')"
        by blast
      from updateEmbeddings_frame[OF this]
      have fr: "documents db' = documents db" "next_id db' = next_id db"
        "list_all2 (\<lambda>c c'. c'\<lparr>dc_embedding := None\<rparr> = c\<lparr>dc_embedding := None\<rparr> \<and>
                      (dc_id c \<notin> dc_id ` {x \<in> set (document_chunks db).
                                               selected_for_update documentId force x} \<longrightarrow> c' = c))
           (document_chunks db) (document_chunks db')"
        by simp_all
      have "list_all2 ?R (document_chunks db) (document_chunks db')"
      proof (rule list.rel_mono_strong[OF fr(3)])
        fix c c'
        assume c: "c \<in> set (document_chunks db)"
          and r: "c'\<lparr>dc_embedding := None\<rparr> = c\<lparr>dc_embedding := None\<rparr> \<and>
                  (dc_id c \<notin> dc_id ` {x \<in> set (document_chunks db).
                                           selected_for_update documentId force x} \<longrightarrow> c' = c)"
        have "c' = c" if ns: "\<not> selected_for_update documentId force c"
        proof -
          have "dc_id c \<notin> dc_id ` {x \<in> set (document_chunks db).
                                     selected_for_update documentId force x}"
          proof
            assume "dc_id c \<in> dc_id ` {x \<in> set (document_chunks db).
                                     selected_for_update documentId force x}"
            then obtain x where x: "x \<in> set (document_chunks db)"
              "selected_for_update documentId force x" "dc_id x = dc_id c" by auto
            with dc c have "x = c" by (auto simp: distinct_map dest: inj_onD)
            with x ns show False by simp
          qed
          with r show ?thesis by simp
        qed
        with r show "c'\<lparr>dc_embedding := None\<rparr> = c\<lparr>dc_embedding := None\<rparr> \<and>
                  (\<not> selected_for_update documentId force c \<longrightarrow> c' = c)" by simp
      qed
      with fr show ?thesis by simp
    qed
  qed
  from run A B C show ?thesis by blast
qed


lemma wf_sample_database: "wf_database sample_database"
  by (simp add: sample_database_def wf_database_def)

theorem reprocessDocument_frame_witness:
  "wf_database sample_database \<and>
   reprocessDocument (test_env failing_provider []) 0 ''alice'' False sample_database [] =
     Some (Inr (0, 0), sample_database, [])"
proof -
  from reprocessDocument_frame[OF wf_sample_database,
      of "test_env failing_provider []" 0 "''alice''" False "[]"]
  obtain res db' tr' where
    run: "reprocessDocument (test_env failing_provider []) 0 ''alice'' False sample_database [] =
          Some (res, db', tr')"
    and idle: "\<not> False \<and>
            (\<exists>d. findById sample_database 0 = Some d \<and> d_user_id d = ''alice'' \<and>
                 d_processing_status d = completed) \<and>
            list_all (\<lambda>c. dc_document_id c = 0 \<longrightarrow> \<not> lacks_embedding c)
              (document_chunks sample_database) \<longrightarrow>
            res = Inr (0, 0) \<and> db' = sample_database \<and> tr' = []"
    by blast
  have "\<exists>d. findById sample_database 0 = Some d \<and> d_user_id d = ''alice'' \<and>
            d_processing_status d = completed"
    by (simp add: sample_database_def findById_def)
  moreover have "list_all (\<lambda>c. dc_document_id c = 0 \<longrightarrow> \<not> lacks_embedding c)
                   (document_chunks sample_database)"
    by (simp add: sample_database_def lacks_embedding_def)
  ultimately have "res = Inr (0, 0) \<and> db' = sample_database \<and> tr' = []"
    using idle by simp
  with run wf_sample_database show ?thesis by simp
qed

end
